(* ===== verification/Pcie_Prelude.thy ===== *)
theory Pcie_Prelude
  imports Main "HOL-Library.Word"
begin

text \<open>
  What every component of the development shares: the machine integer types of the C code, the
  error codes its functions return, the byte store that models a buffer shared by the CPU and a
  device, the MMIO interface of a PCI BAR, the log of acquired and released kernel resources, and
  reachability in a transition system with the locale of its inductive invariants.
\<close>

unbundle bit_operations_syntax

section \<open>Types and errors\<close>

type_synonym u8 = "8 word"
type_synonym u16 = "16 word"
type_synonym u32 = "32 word"
type_synonym u64 = "64 word"

text \<open>
  The negative return values of the drivers, and what the C++ libraries find in \<open>errno\<close> or store
  there. A code that a kernel service returned and the driver passes on unchanged is \<open>Kerr\<close> with
  the service's value.
\<close>

datatype errno =
    ENOMEM | EFAULT | ENOTTY | ENOSPC | EAGAIN | EINVAL | ETIMEDOUT | EIO | ENOTSUPP | ENODEV | EBADF
  | Kerr int

text \<open>A C function that returns 0 or a negative errno.\<close>

type_synonym ret = "errno + unit"

abbreviation ok :: ret where
  "ok \<equiv> Inr ()"

text \<open>What an interrupt handler returns.\<close>

datatype irqreturn = IRQ_NONE | IRQ_HANDLED

text \<open>Collections the component proofs extend and use as simplification sets.\<close>

named_theorems layout_simps \<open>addresses and sizes of the shared buffers\<close>
named_theorems frame_simps \<open>fields an operation leaves alone\<close>

lemma fst_if [simp]: "fst (if b then x else y) = (if b then fst x else fst y)"
  by simp

lemma snd_if [simp]: "snd (if b then x else y) = (if b then snd x else snd y)"
  by simp

section \<open>Byte store\<close>

text \<open>
  A kernel buffer is a store from offsets to bytes; the size of its allocation is a separate
  fact, and the components prove that the offsets they touch stay below it.
  \<open>mem_write\<close> is \<open>memcpy\<close> into the buffer, \<open>mem_set\<close> is \<open>memset\<close>, \<open>mem_read\<close> reads a run of
  bytes out of it.
\<close>

type_synonym store = "nat \<Rightarrow> u8"

definition mem_write :: "store \<Rightarrow> nat \<Rightarrow> u8 list \<Rightarrow> store" where
  "mem_write m off bs = (\<lambda>a. if off \<le> a \<and> a < off + length bs then bs ! (a - off) else m a)"

definition mem_set :: "store \<Rightarrow> nat \<Rightarrow> u8 \<Rightarrow> nat \<Rightarrow> store" where
  "mem_set m off v n = mem_write m off (replicate n v)"

definition mem_read :: "store \<Rightarrow> nat \<Rightarrow> nat \<Rightarrow> u8 list" where
  "mem_read m off n = map (\<lambda>i. m (off + i)) [0..<n]"

lemma length_mem_read [simp]: "length (mem_read m off n) = n"
  by (simp add: mem_read_def)

lemma mem_write_outside: "a < off \<or> off + length bs \<le> a \<Longrightarrow> mem_write m off bs a = m a"
  by (auto simp: mem_write_def)

lemma mem_write_inside: "i < length bs \<Longrightarrow> mem_write m off bs (off + i) = bs ! i"
  by (simp add: mem_write_def)

lemma mem_write_Nil [simp]: "mem_write m off [] = m"
  by (rule ext) (auto simp: mem_write_def)

lemma mem_set_eq: "mem_set m off v n a = (if off \<le> a \<and> a < off + n then v else m a)"
  by (auto simp: mem_set_def mem_write_def)

lemma mem_read_cong:
  "(\<And>i. i < n \<Longrightarrow> m (off + i) = m' (off + i)) \<Longrightarrow> mem_read m off n = mem_read m' off n"
  by (simp add: mem_read_def)

lemma mem_read_write_same [simp]: "length bs = n \<Longrightarrow> mem_read (mem_write m off bs) off n = bs"
  by (rule nth_equalityI) (auto simp: mem_read_def mem_write_def)

lemma mem_read_write_disjoint:
  "off + n \<le> off' \<or> off' + length bs \<le> off \<Longrightarrow> mem_read (mem_write m off' bs) off n = mem_read m off n"
  by (rule mem_read_cong) (auto simp: mem_write_def)

lemma mem_read_write_prefix:
  "n \<le> length bs \<Longrightarrow> mem_read (mem_write m off bs) off n = take n bs"
  by (rule nth_equalityI) (auto simp: mem_read_def mem_write_def)

lemma mem_read_set_same [simp]: "mem_read (mem_set m off v n) off n = replicate n v"
  by (simp add: mem_set_def)

section \<open>MMIO\<close>

text \<open>
  A mapped BAR, as a driver sees it: reads and writes of a register at an offset, and the time
  that passes while the driver sleeps. The device behind it is not the driver's code, so its
  state is a type variable and its behaviour a parameter. A read may change the device.
\<close>

record 'h mmio =
  io_readl :: "'h \<Rightarrow> u32 \<Rightarrow> u32 \<times> 'h"
  io_writel :: "'h \<Rightarrow> u32 \<Rightarrow> u32 \<Rightarrow> 'h"
  io_writeq :: "'h \<Rightarrow> u32 \<Rightarrow> u64 \<Rightarrow> 'h"
  io_msleep :: "'h \<Rightarrow> nat \<Rightarrow> 'h"

text \<open>
  A device that only records what a driver does to it, and answers a read from a table of
  register values: the order of register accesses is then a value that can be stated.
\<close>

datatype access = Rd u32 | Wr u32 u64 | Sleep nat

definition log_mmio :: "(u32 \<Rightarrow> u32) \<Rightarrow> access list mmio" where
  "log_mmio tbl = \<lparr>
     io_readl = (\<lambda>l r. (tbl r, l @ [Rd r])),
     io_writel = (\<lambda>l r v. l @ [Wr r (ucast v)]),
     io_writeq = (\<lambda>l r v. l @ [Wr r v]),
     io_msleep = (\<lambda>l n. l @ [Sleep n])\<rparr>"

lemma log_mmio_simps [simp]:
  "io_readl (log_mmio tbl) l r = (tbl r, l @ [Rd r])"
  "io_writel (log_mmio tbl) l r v = l @ [Wr r (ucast v)]"
  "io_writeq (log_mmio tbl) l r w = l @ [Wr r w]"
  "io_msleep (log_mmio tbl) l n = l @ [Sleep n]"
  by (simp_all add: log_mmio_def)

text \<open>A 64-bit bus address goes to two 32-bit registers without loss.\<close>

lemma ucast_lower_32 [simp]: "ucast (ucast w :: u32) = take_bit 32 (w :: u64)"
  by (rule bit_word_eqI) (auto simp: bit_simps)

lemma take_bit_upper_32 [simp]: "take_bit 32 (drop_bit 32 w) = drop_bit 32 (w :: u64)"
proof (rule bit_word_eqI)
  fix n
  show "bit (take_bit 32 (drop_bit 32 w)) n = bit (drop_bit 32 w) n"
    using bit_imp_le_length[of w "32 + n"] by (auto simp: bit_simps)
qed

lemma unat_ucast_32_64 [simp]: "unat (ucast (w :: u32) :: u64) = unat w"
  using unsigned_less[of w, where 'a = nat] by (simp add: unsigned_ucast_eq take_bit_nat_eq_self)

section \<open>The ioctl command encoding\<close>

text \<open>
  The macros of the kernel's ioctl header the drivers use to number their commands: the
  direction in bits 30 and 31, the size of the argument from bit 16, the magic letter from bit 8,
  the command number in the low byte.
\<close>

definition IOC :: "u32 \<Rightarrow> u32 \<Rightarrow> u32 \<Rightarrow> u32 \<Rightarrow> u32" where
  "IOC dir ty nr sz = push_bit 30 dir OR push_bit 16 sz OR push_bit 8 ty OR nr"

definition IO :: "u32 \<Rightarrow> u32 \<Rightarrow> u32" where
  "IO ty nr = IOC 0 ty nr 0"

definition IOW :: "u32 \<Rightarrow> u32 \<Rightarrow> u32 \<Rightarrow> u32" where
  "IOW ty nr sz = IOC 1 ty nr sz"

definition IOR :: "u32 \<Rightarrow> u32 \<Rightarrow> u32 \<Rightarrow> u32" where
  "IOR ty nr sz = IOC 2 ty nr sz"

definition IOWR :: "u32 \<Rightarrow> u32 \<Rightarrow> u32 \<Rightarrow> u32" where
  "IOWR ty nr sz = IOC 3 ty nr sz"

definition IOC_TYPE :: "u32 \<Rightarrow> u32" where
  "IOC_TYPE cmd = drop_bit 8 cmd AND 0xFF"

lemmas ioc_defs = IOC_def IO_def IOW_def IOR_def IOWR_def IOC_TYPE_def

section \<open>Reachable states and inductive invariants\<close>

inductive reach :: "('s \<Rightarrow> bool) \<Rightarrow> ('s \<Rightarrow> 's \<Rightarrow> bool) \<Rightarrow> 's \<Rightarrow> bool"
  for init :: "'s \<Rightarrow> bool" and step :: "'s \<Rightarrow> 's \<Rightarrow> bool" where
  reach_init: "init s \<Longrightarrow> reach init step s"
| reach_step: "reach init step s \<Longrightarrow> step s t \<Longrightarrow> reach init step t"

text \<open>
  The contract between a component's steps and its invariant: the initial states satisfy it and
  every step keeps it. Then every reachable state satisfies it, and so does every state an
  interleaving of steps leads to from a state that does.
\<close>

locale inductive_invariant =
  fixes init :: "'s \<Rightarrow> bool"
    and step :: "'s \<Rightarrow> 's \<Rightarrow> bool"
    and inv :: "'s \<Rightarrow> bool"
  assumes init_inv: "init s \<Longrightarrow> inv s"
    and step_inv: "step s t \<Longrightarrow> inv s \<Longrightarrow> inv t"
begin

lemma reach_inv: "reach init step s \<Longrightarrow> inv s"
  by (induction rule: reach.induct) (auto intro: init_inv step_inv)

lemma steps_inv: "step\<^sup>*\<^sup>* s t \<Longrightarrow> inv s \<Longrightarrow> inv t"
  by (induction rule: rtranclp_induct) (auto intro: step_inv)

lemma reach_steps: "reach init step s \<Longrightarrow> step\<^sup>*\<^sup>* s t \<Longrightarrow> reach init step t"
  by (rotate_tac 1, induction rule: rtranclp_induct) (auto intro: reach_step)

end

end
