(* ===== verification/Fifo_Ring.thy ===== *)
theory Fifo_Ring
  imports Pcie_Prelude
begin

text \<open>
  Circular buffers in general: the list of the slots between two indices of a ring, and the
  contract of a bounded first-in first-out queue (the locale \<open>bounded_fifo\<close>), with what a client
  of any such queue may rely on. The components interpret it on their own rings.
\<close>

section \<open>The slots of a ring as a list\<close>

text \<open>
  \<open>ring_list cap f h n\<close> is the content of the \<open>n\<close> slots from index \<open>h\<close> on, in a ring of \<open>cap\<close>
  slots whose content is \<open>f\<close>.
\<close>

definition ring_list :: "nat \<Rightarrow> (nat \<Rightarrow> 'a) \<Rightarrow> nat \<Rightarrow> nat \<Rightarrow> 'a list" where
  "ring_list cap f h n = map (\<lambda>k. f ((h + k) mod cap)) [0..<n]"

lemma length_ring_list [simp]: "length (ring_list cap f h n) = n"
  by (simp add: ring_list_def)

lemma ring_list_0 [simp]: "ring_list cap f h 0 = []"
  by (simp add: ring_list_def)

lemma ring_list_nth: "k < n \<Longrightarrow> ring_list cap f h n ! k = f ((h + k) mod cap)"
  by (simp add: ring_list_def)

lemma ring_list_cong:
  "(\<And>k. k < n \<Longrightarrow> f ((h + k) mod cap) = g ((h + k) mod cap)) \<Longrightarrow>
    ring_list cap f h n = ring_list cap g h n"
  by (simp add: ring_list_def)

lemma mod_distinct_le:
  assumes "i \<le> k" "k < cap" "(h + i) mod cap = (h + k) mod (cap::nat)"
  shows "i = k"
proof -
  have "cap dvd (h + k) - (h + i)"
    using assms mod_eq_dvd_iff_nat[of "h + i" "h + k" cap] by simp
  then have "cap dvd k - i" by simp
  with assms(1,2) show ?thesis by (auto dest: dvd_imp_le)
qed

lemma mod_distinct:
  assumes "i < cap" "k < cap" "(h + i) mod cap = (h + k) mod (cap::nat)"
  shows "i = k"
  using assms mod_distinct_le[of i k cap h] mod_distinct_le[of k i cap h]
  by (cases "i \<le> k") auto

text \<open>Writing the slot just past the list and counting it in appends it, whatever else changes.\<close>

lemma ring_list_push:
  assumes "n < cap"
    and "g ((h + n) mod cap) = x"
    and "\<And>i. i < cap \<Longrightarrow> i \<noteq> (h + n) mod cap \<Longrightarrow> g i = f i"
  shows "ring_list cap g h (Suc n) = ring_list cap f h n @ [x]"
proof -
  have "ring_list cap g h n = ring_list cap f h n"
  proof (rule ring_list_cong)
    fix k assume "k < n"
    then have "(h + k) mod cap \<noteq> (h + n) mod cap"
      using assms(1) mod_distinct[of k cap n h] by auto
    then show "g ((h + k) mod cap) = f ((h + k) mod cap)"
      using assms(1,3) by simp
  qed
  then show ?thesis using assms(2) by (simp add: ring_list_def)
qed

text \<open>Moving the start one slot on drops the first element.\<close>

lemma ring_list_pop:
  "ring_list cap f ((h + 1) mod cap) n = tl (ring_list cap f h (Suc n))"
proof -
  have "tl (ring_list cap f h (Suc n)) = map (\<lambda>k. f ((h + Suc k) mod cap)) [0..<n]"
    by (simp add: ring_list_def upt_conv_Cons map_Suc_upt[symmetric] del: upt_Suc map_Suc_upt)
  also have "\<dots> = ring_list cap f ((h + 1) mod cap) n"
    by (simp add: ring_list_def mod_simps)
  finally show ?thesis ..
qed

lemma ring_list_hd: "hd (ring_list cap f h (Suc n)) = f (h mod cap)"
  by (simp add: ring_list_def upt_conv_Cons del: upt_Suc)

section \<open>The contract of a bounded queue\<close>

text \<open>
  A queue state has an abstract content, a list; \<open>elem\<close> is the part of a pushed value the queue
  keeps. \<open>push\<close> may be called when the queue is not full, \<open>pop\<close> and \<open>front\<close> when it is not empty.
\<close>

locale bounded_fifo =
  fixes contents :: "'s \<Rightarrow> 'a list"
    and inv :: "'s \<Rightarrow> bool"
    and cap :: nat
    and elem :: "'c \<Rightarrow> 'a"
    and push :: "'c \<Rightarrow> 's \<Rightarrow> 's"
    and pop :: "'s \<Rightarrow> 's"
    and front :: "'s \<Rightarrow> 'a"
    and is_full :: "'s \<Rightarrow> bool"
    and is_empty :: "'s \<Rightarrow> bool"
  assumes full_iff: "inv s \<Longrightarrow> is_full s \<longleftrightarrow> cap \<le> length (contents s)"
    and empty_iff: "inv s \<Longrightarrow> is_empty s \<longleftrightarrow> contents s = []"
    and push_inv: "inv s \<Longrightarrow> \<not> is_full s \<Longrightarrow> inv (push x s)"
    and push_contents: "inv s \<Longrightarrow> \<not> is_full s \<Longrightarrow> contents (push x s) = contents s @ [elem x]"
    and pop_inv: "inv s \<Longrightarrow> \<not> is_empty s \<Longrightarrow> inv (pop s)"
    and pop_contents: "inv s \<Longrightarrow> \<not> is_empty s \<Longrightarrow> contents (pop s) = tl (contents s)"
    and front_contents: "inv s \<Longrightarrow> \<not> is_empty s \<Longrightarrow> front s = hd (contents s)"
begin

text \<open>The client's loops: push every element of a list; take elements out until it is empty.\<close>

lemma push_all:
  assumes "inv s" and "length (contents s) + length xs \<le> cap"
  shows "inv (fold push xs s) \<and> contents (fold push xs s) = contents s @ map elem xs"
  using assms
proof (induction xs arbitrary: s)
  case Nil
  then show ?case by simp
next
  case (Cons x xs)
  then have "\<not> is_full s" by (simp add: full_iff)
  with Cons show ?case by (simp add: push_inv push_contents)
qed

lemma pop_n:
  assumes "inv s" and "n \<le> length (contents s)"
  shows "inv ((pop ^^ n) s) \<and> contents ((pop ^^ n) s) = drop n (contents s)"
  using assms
proof (induction n)
  case 0
  then show ?case by simp
next
  case (Suc n)
  then have IH: "inv ((pop ^^ n) s)" "contents ((pop ^^ n) s) = drop n (contents s)"
    by simp_all
  moreover have "\<not> is_empty ((pop ^^ n) s)"
    using IH Suc.prems by (simp add: empty_iff)
  ultimately show ?case
    by (simp add: pop_inv pop_contents tl_drop drop_Suc)
qed

text \<open>The \<open>n\<close>-th element taken out is the \<open>n\<close>-th of the content: first in, first out.\<close>

lemma front_nth:
  assumes "inv s" and "n < length (contents s)"
  shows "front ((pop ^^ n) s) = contents s ! n"
proof -
  have *: "inv ((pop ^^ n) s)" "contents ((pop ^^ n) s) = drop n (contents s)"
    using pop_n[of s n] assms by simp_all
  then have "\<not> is_empty ((pop ^^ n) s)" using assms(2) by (simp add: empty_iff)
  with * show ?thesis using assms(2) by (simp add: front_contents hd_drop_conv_nth)
qed

lemma fifo_order:
  assumes "inv s" and "is_empty s" and "length xs \<le> cap" and "n < length xs"
  shows "front ((pop ^^ n) (fold push xs s)) = elem (xs ! n)"
proof -
  have e: "contents s = []" using assms(1,2) by (simp add: empty_iff)
  have "inv (fold push xs s)" "contents (fold push xs s) = map elem xs"
    using push_all[of s xs] assms e by simp_all
  then show ?thesis using front_nth[of "fold push xs s" n] assms(4) by simp
qed

lemma length_bound: "inv s \<Longrightarrow> \<not> is_full s \<Longrightarrow> length (contents (push x s)) \<le> cap"
  by (simp add: full_iff push_contents)

end

end
