(* ===== verification/Edu_Layout.thy ===== *)
theory Edu_Layout
  imports Fifo_Ring
begin

text \<open>
  The data of the EDU driver, \<open>pcie_prototype_async/kernel/edu_pci.c\<close>: its register map and
  constants, the packed 16-byte entries of the submission and completion queues as bytes
  (little-endian, as on x86), their places in the one coherent DMA slab, the structures of the
  ioctl interface with the ioctl numbers, and the arithmetic of the ring indices.
\<close>

section \<open>Little-endian words\<close>

definition le_bytes :: "nat \<Rightarrow> 'a::len word \<Rightarrow> u8 list" where
  "le_bytes n w = map (\<lambda>k. ucast (drop_bit (8 * k) w)) [0..<n]"

fun le_word :: "u8 list \<Rightarrow> 'a::len word" where
  "le_word [] = 0"
| "le_word (b # bs) = ucast b OR push_bit 8 (le_word bs)"

lemma length_le_bytes [simp]: "length (le_bytes n w) = n"
  by (simp add: le_bytes_def)

lemma le_bytes_Suc: "le_bytes (Suc n) w = ucast w # le_bytes n (drop_bit 8 w)"
  by (simp add: le_bytes_def upt_conv_Cons map_Suc_upt[symmetric] ac_simps del: upt_Suc map_Suc_upt)

lemma le_word_bytes_take: "le_word (le_bytes n w) = take_bit (8 * n) (w :: 'a::len word)"
proof (induction n arbitrary: w)
  case 0
  then show ?case by (simp add: le_bytes_def)
next
  case (Suc n)
  show ?case
    by (rule bit_word_eqI)
      (auto simp: le_bytes_Suc Suc.IH bit_simps dest: bit_imp_le_length)
qed

lemma le_word_bytes: "LENGTH('a) \<le> 8 * n \<Longrightarrow> le_word (le_bytes n w) = (w :: 'a::len word)"
  by (simp add: le_word_bytes_take take_bit_word_eq_self)

lemma le_bytes_word:
  "8 * length bs \<le> LENGTH('a) \<Longrightarrow> le_bytes (length bs) (le_word bs :: 'a::len word) = bs"
proof (induction bs)
  case Nil
  then show ?case by (simp add: le_bytes_def)
next
  case (Cons b bs)
  have lo: "ucast (ucast b OR push_bit 8 (le_word bs :: 'a word)) = b"
    using Cons.prems by (intro bit_word_eqI) (auto simp: bit_simps)
  have hi: "drop_bit 8 (ucast b OR push_bit 8 (le_word bs :: 'a word)) =
      take_bit (LENGTH('a) - 8) (le_word bs)"
    by (intro bit_word_eqI) (auto simp: bit_simps dest: bit_imp_le_length)
  have "le_bytes (length bs) (take_bit (LENGTH('a) - 8) (le_word bs :: 'a word)) =
      le_bytes (length bs) (le_word bs :: 'a word)"
    using Cons.prems
    by (auto simp: le_bytes_def intro!: bit_word_eqI) (auto simp: bit_simps)
  then show ?case using Cons lo hi by (simp add: le_bytes_Suc)
qed

section \<open>Registers and constants\<close>

definition EDU_VENDOR_ID :: u16 where "EDU_VENDOR_ID = 0x1234"
definition EDU_DEVICE_ID :: u16 where "EDU_DEVICE_ID = 0x11e8"
definition EDU_REG_ID :: u32 where "EDU_REG_ID = 0x00"
definition EDU_REG_LIVE :: u32 where "EDU_REG_LIVE = 0x04"
definition EDU_REG_FACT :: u32 where "EDU_REG_FACT = 0x08"
definition EDU_REG_STATUS :: u32 where "EDU_REG_STATUS = 0x20"
definition EDU_REG_IRQ_STAT :: u32 where "EDU_REG_IRQ_STAT = 0x24"
definition EDU_REG_IRQ_RAISE :: u32 where "EDU_REG_IRQ_RAISE = 0x60"
definition EDU_REG_IRQ_ACK :: u32 where "EDU_REG_IRQ_ACK = 0x64"
definition EDU_REG_DMA_SRC :: u32 where "EDU_REG_DMA_SRC = 0x80"
definition EDU_REG_DMA_DST :: u32 where "EDU_REG_DMA_DST = 0x88"
definition EDU_REG_DMA_CNT :: u32 where "EDU_REG_DMA_CNT = 0x90"
definition EDU_REG_DMA_CMD :: u32 where "EDU_REG_DMA_CMD = 0x98"
definition EDU_STATUS_BUSY :: u32 where "EDU_STATUS_BUSY = 0x01"
definition EDU_STATUS_IRQ_EN :: u32 where "EDU_STATUS_IRQ_EN = 0x80"
definition EDU_DMA_BUF_OFFSET :: u64 where "EDU_DMA_BUF_OFFSET = 0x40000"
definition EDU_DMA_CMD_START :: u32 where "EDU_DMA_CMD_START = 0x01"
definition EDU_DMA_CMD_DIR :: u32 where "EDU_DMA_CMD_DIR = 0x02"
definition EDU_DMA_CMD_IRQ :: u32 where "EDU_DMA_CMD_IRQ = 0x04"

lemmas edu_regs =
  EDU_REG_ID_def EDU_REG_LIVE_def EDU_REG_FACT_def EDU_REG_STATUS_def EDU_REG_IRQ_STAT_def
  EDU_REG_IRQ_RAISE_def EDU_REG_IRQ_ACK_def EDU_REG_DMA_SRC_def EDU_REG_DMA_DST_def
  EDU_REG_DMA_CNT_def EDU_REG_DMA_CMD_def EDU_STATUS_BUSY_def EDU_STATUS_IRQ_EN_def
  EDU_DMA_BUF_OFFSET_def EDU_DMA_CMD_START_def EDU_DMA_CMD_DIR_def EDU_DMA_CMD_IRQ_def

definition RING_SIZE :: nat where [layout_simps]: "RING_SIZE = 64"
definition RING_MASK :: u32 where "RING_MASK = of_nat RING_SIZE - 1"
definition EDU_OP_FACTORIAL :: u8 where "EDU_OP_FACTORIAL = 0x01"
definition EDU_OP_DMA_TEST :: u8 where "EDU_OP_DMA_TEST = 0x02"
definition EDU_DMA_TEST_LEN :: nat where [layout_simps]: "EDU_DMA_TEST_LEN = 64"

lemmas edu_ops = EDU_OP_FACTORIAL_def EDU_OP_DMA_TEST_def

section \<open>Ring indices\<close>

definition ring_next :: "u32 \<Rightarrow> u32" where
  "ring_next idx = (idx + 1) AND RING_MASK"

definition ring_full :: "u32 \<Rightarrow> u32 \<Rightarrow> bool" where
  "ring_full tail head \<longleftrightarrow> ring_next tail = (head AND RING_MASK)"

lemma RING_MASK_mask: "RING_MASK = mask 6"
  by (simp add: RING_MASK_def RING_SIZE_def mask_eq_exp_minus_1)

lemma unat_ring_mask: "unat (x AND RING_MASK) = unat x mod RING_SIZE"
  by (simp add: RING_MASK_mask RING_SIZE_def take_bit_eq_mask[symmetric] unsigned_take_bit_eq take_bit_eq_mod unat_mod)

lemma ring_mask_less: "unat (x AND RING_MASK) < RING_SIZE"
  by (simp add: unat_ring_mask RING_SIZE_def)

lemma ring_mask_id: "unat x < RING_SIZE \<Longrightarrow> x AND RING_MASK = x"
  by (simp add: word_unat_eq_iff unat_ring_mask)

lemma unat_ring_next: "unat (ring_next i) = (unat i + 1) mod RING_SIZE"
  by (simp add: ring_next_def unat_ring_mask unat_word_ariths RING_SIZE_def mod_mod_cancel)

lemma ring_next_less: "unat (ring_next i) < RING_SIZE"
  by (simp add: unat_ring_next RING_SIZE_def)

text \<open>The number of slots from \<open>head\<close> up to, not including, \<open>tail\<close>.\<close>

definition ring_count :: "u32 \<Rightarrow> u32 \<Rightarrow> nat" where
  "ring_count tail head = unat ((tail - head) AND RING_MASK)"

lemma ring_count_less: "ring_count tail head < RING_SIZE"
  by (simp add: ring_count_def ring_mask_less)

lemma ring_count_eq:
  assumes "unat t < RING_SIZE" and "unat h < RING_SIZE"
  shows "ring_count t h = (if unat h \<le> unat t then unat t - unat h else unat t + RING_SIZE - unat h)"
proof (cases "unat h \<le> unat t")
  case True
  then have "unat (t - h) = unat t - unat h"
    by (simp add: unat_sub word_le_nat_alt)
  with True assms show ?thesis
    by (simp add: ring_count_def unat_ring_mask)
next
  case False
  then have "unat (t - h) = unat t + 2 ^ 32 - unat h"
    using unat_sub_if'[of t h] by (simp add: word_le_nat_alt)
  moreover have "unat t + 2 ^ 32 - unat h = (unat t + RING_SIZE - unat h) + RING_SIZE * (2 ^ 26 - 1)"
    using False assms by (simp add: RING_SIZE_def)
  ultimately have "ring_count t h = (unat t + RING_SIZE - unat h) mod RING_SIZE"
    by (simp only: ring_count_def unat_ring_mask mod_mult_self2)
  with False assms show ?thesis by simp
qed

lemma ring_count_self [simp]: "ring_count h h = 0"
  by (simp add: ring_count_def)

lemma ring_count_0:
  "unat t < RING_SIZE \<Longrightarrow> unat h < RING_SIZE \<Longrightarrow> ring_count t h = 0 \<longleftrightarrow> t = h"
  by (auto simp: ring_count_eq word_unat_eq_iff split: if_splits)

lemma ring_count_slot:
  "unat t < RING_SIZE \<Longrightarrow> unat h < RING_SIZE \<Longrightarrow> (unat h + ring_count t h) mod RING_SIZE = unat t"
  by (auto simp: ring_count_eq)

lemma ring_full_count:
  "unat t < RING_SIZE \<Longrightarrow> unat h < RING_SIZE \<Longrightarrow> ring_full t h \<longleftrightarrow> ring_count t h = RING_SIZE - 1"
  by (auto simp: ring_full_def ring_mask_id ring_count_eq word_unat_eq_iff unat_ring_next
      RING_SIZE_def mod_Suc split: if_splits)

lemma ring_count_next_tail:
  assumes "unat t < RING_SIZE" "unat h < RING_SIZE" "\<not> ring_full t h"
  shows "ring_count (ring_next t) h = Suc (ring_count t h)"
  using assms ring_next_less[of t]
  by (auto simp: ring_full_count ring_count_eq unat_ring_next RING_SIZE_def mod_Suc split: if_splits)

lemma ring_count_next_head:
  assumes "unat t < RING_SIZE" "unat h < RING_SIZE" "t \<noteq> h"
  shows "Suc (ring_count t (ring_next h)) = ring_count t h"
  using assms ring_next_less[of h]
  by (auto simp: ring_count_eq unat_ring_next RING_SIZE_def mod_Suc word_unat_eq_iff split: if_splits)

section \<open>Queue entries in the DMA slab\<close>

record sq_entry =
  sq_tag :: u16
  sq_opcode :: u8
  sq_flags :: u8
  sq_operand :: u32
  sq_rsvd :: u64

record cq_entry =
  cq_tag :: u16
  cq_status :: u8
  cq_flags :: u8
  cq_result :: u32
  cq_rsvd :: u64

text \<open>The packed layout: the fields in order, with no padding, 16 bytes.\<close>

definition ENTRY_SIZE :: nat where [layout_simps]: "ENTRY_SIZE = 16"

definition sq_bytes :: "sq_entry \<Rightarrow> u8 list" where
  "sq_bytes s = le_bytes 2 (sq_tag s) @ [sq_opcode s, sq_flags s] @
     le_bytes 4 (sq_operand s) @ le_bytes 8 (sq_rsvd s)"

definition sq_of_bytes :: "u8 list \<Rightarrow> sq_entry" where
  "sq_of_bytes bs = \<lparr>sq_tag = le_word (take 2 bs), sq_opcode = bs ! 2, sq_flags = bs ! 3,
     sq_operand = le_word (take 4 (drop 4 bs)), sq_rsvd = le_word (take 8 (drop 8 bs))\<rparr>"

definition cq_bytes :: "cq_entry \<Rightarrow> u8 list" where
  "cq_bytes c = le_bytes 2 (cq_tag c) @ [cq_status c, cq_flags c] @
     le_bytes 4 (cq_result c) @ le_bytes 8 (cq_rsvd c)"

definition cq_of_bytes :: "u8 list \<Rightarrow> cq_entry" where
  "cq_of_bytes bs = \<lparr>cq_tag = le_word (take 2 bs), cq_status = bs ! 2, cq_flags = bs ! 3,
     cq_result = le_word (take 4 (drop 4 bs)), cq_rsvd = le_word (take 8 (drop 8 bs))\<rparr>"

lemma length_sq_bytes [simp]: "length (sq_bytes s) = ENTRY_SIZE"
  by (simp add: sq_bytes_def ENTRY_SIZE_def)

lemma length_cq_bytes [simp]: "length (cq_bytes c) = ENTRY_SIZE"
  by (simp add: cq_bytes_def ENTRY_SIZE_def)

lemma sq_of_sq_bytes [simp]: "sq_of_bytes (sq_bytes s) = s"
  by (simp add: sq_of_bytes_def sq_bytes_def nth_append le_word_bytes)

lemma cq_of_cq_bytes [simp]: "cq_of_bytes (cq_bytes c) = c"
  by (simp add: cq_of_bytes_def cq_bytes_def nth_append le_word_bytes)

text \<open>The slab: the submission queue at offset 0, the completion queue right after it.\<close>

definition PAGE_ALIGN :: "nat \<Rightarrow> nat" where
  "PAGE_ALIGN n = (n + 4095) div 4096 * 4096"

definition SQ_SIZE :: nat where [layout_simps]: "SQ_SIZE = RING_SIZE * ENTRY_SIZE"
definition CQ_SIZE :: nat where [layout_simps]: "CQ_SIZE = RING_SIZE * ENTRY_SIZE"
definition DMA_BUF_TOTAL :: nat where "DMA_BUF_TOTAL = PAGE_ALIGN (SQ_SIZE + CQ_SIZE)"

lemma DMA_BUF_TOTAL_eq [layout_simps]: "DMA_BUF_TOTAL = 4096"
  by (simp add: DMA_BUF_TOTAL_def PAGE_ALIGN_def layout_simps)

definition sq_off :: "nat \<Rightarrow> nat" where [layout_simps]: "sq_off i = i * ENTRY_SIZE"
definition cq_off :: "nat \<Rightarrow> nat" where [layout_simps]: "cq_off i = SQ_SIZE + i * ENTRY_SIZE"

text \<open>\<open>e->sq[i]\<close> and \<open>e->cq[i]\<close>, read and written as whole entries.\<close>

definition sq_get :: "store \<Rightarrow> nat \<Rightarrow> sq_entry" where
  "sq_get m i = sq_of_bytes (mem_read m (sq_off i) ENTRY_SIZE)"

definition sq_put :: "store \<Rightarrow> nat \<Rightarrow> sq_entry \<Rightarrow> store" where
  "sq_put m i s = mem_write m (sq_off i) (sq_bytes s)"

definition cq_get :: "store \<Rightarrow> nat \<Rightarrow> cq_entry" where
  "cq_get m i = cq_of_bytes (mem_read m (cq_off i) ENTRY_SIZE)"

definition cq_put :: "store \<Rightarrow> nat \<Rightarrow> cq_entry \<Rightarrow> store" where
  "cq_put m i c = mem_write m (cq_off i) (cq_bytes c)"

lemma slot_disjoint: "i \<noteq> j \<Longrightarrow> i * n + n \<le> j * n \<or> j * n + n \<le> (i * n :: nat)"
proof (cases "i < j")
  case True
  then have "Suc i * n \<le> j * n" by (intro mult_le_mono1) simp
  then show ?thesis by simp
next
  case False
  moreover assume "i \<noteq> j"
  ultimately have "Suc j * n \<le> i * n" by (intro mult_le_mono1) simp
  then show ?thesis by simp
qed

lemma sq_get_put [simp]: "sq_get (sq_put m i s) j = (if i = j then s else sq_get m j)"
  using slot_disjoint[of i j ENTRY_SIZE]
  by (auto simp: sq_get_def sq_put_def sq_off_def mem_read_write_disjoint)

lemma cq_get_put [simp]: "cq_get (cq_put m i c) j = (if i = j then c else cq_get m j)"
  using slot_disjoint[of i j ENTRY_SIZE]
  by (auto simp: cq_get_def cq_put_def cq_off_def mem_read_write_disjoint)

lemma sq_get_cq_put [simp]: "i < RING_SIZE \<Longrightarrow> sq_get (cq_put m j c) i = sq_get m i"
  by (simp add: sq_get_def cq_put_def mem_read_write_disjoint layout_simps)

lemma cq_get_sq_put [simp]: "i < RING_SIZE \<Longrightarrow> cq_get (sq_put m i s) = cq_get m"
  by (rule ext) (simp add: cq_get_def sq_put_def mem_read_write_disjoint layout_simps)

text \<open>Stores outside the queue do not change its entries.\<close>

lemma cq_get_write_below: "off + length bs \<le> SQ_SIZE \<Longrightarrow> cq_get (mem_write m off bs) i = cq_get m i"
  by (simp add: cq_get_def mem_read_write_disjoint layout_simps)

lemma sq_get_write_above: "i < RING_SIZE \<Longrightarrow> SQ_SIZE \<le> off \<Longrightarrow> sq_get (mem_write m off bs) i = sq_get m i"
  by (simp add: sq_get_def mem_read_write_disjoint layout_simps)

section \<open>The ioctl interface\<close>

record edu_fact_req =
  fr_input :: u32
  fr_output :: u32
  fr_irq_status :: u32

record edu_state_req =
  sr_last_irq :: u32
  sr_last_fact_in :: u32
  sr_last_fact_out :: u32
  sr_dma_ok :: u32

record edu_submit_req =
  sub_tag :: u16
  sub_opcode :: u8
  sub_pad :: u8
  sub_operand :: u32

record edu_completion_req =
  cr_tag :: u16
  cr_status :: u8
  cr_pad :: u8
  cr_result :: u32

text \<open>The magic letter is \<open>'E'\<close>; the sizes are those of the structures above and of \<open>int\<close>.\<close>

definition EDU_IOC_MAGIC :: u32 where "EDU_IOC_MAGIC = 0x45"
definition EDU_IOC_RUN_FACTORIAL :: u32 where "EDU_IOC_RUN_FACTORIAL = IOWR EDU_IOC_MAGIC 1 12"
definition EDU_IOC_RUN_DMA_TEST :: u32 where "EDU_IOC_RUN_DMA_TEST = IO EDU_IOC_MAGIC 2"
definition EDU_IOC_GET_STATE :: u32 where "EDU_IOC_GET_STATE = IOR EDU_IOC_MAGIC 3 16"
definition EDU_IOC_SUBMIT :: u32 where "EDU_IOC_SUBMIT = IOW EDU_IOC_MAGIC 4 8"
definition EDU_IOC_POLL_CQ :: u32 where "EDU_IOC_POLL_CQ = IOR EDU_IOC_MAGIC 5 8"
definition EDU_IOC_SET_EVENTFD :: u32 where "EDU_IOC_SET_EVENTFD = IOW EDU_IOC_MAGIC 6 4"

lemmas edu_iocs =
  EDU_IOC_RUN_FACTORIAL_def EDU_IOC_RUN_DMA_TEST_def EDU_IOC_GET_STATE_def EDU_IOC_SUBMIT_def
  EDU_IOC_POLL_CQ_def EDU_IOC_SET_EVENTFD_def EDU_IOC_MAGIC_def

lemma edu_ioc_values:
  "EDU_IOC_RUN_FACTORIAL = 0xC00C4501" "EDU_IOC_RUN_DMA_TEST = 0x4502"
  "EDU_IOC_GET_STATE = 0x80104503" "EDU_IOC_SUBMIT = 0x40084504"
  "EDU_IOC_POLL_CQ = 0x80084505" "EDU_IOC_SET_EVENTFD = 0x40044506"
  by (simp_all add: edu_iocs ioc_defs)

end
