(* ===== verification/Edu_State.thy ===== *)
theory Edu_State
  imports Edu_Layout
begin

text \<open>
  The per-device state \<open>struct edu_dev\<close> of \<open>pcie_prototype_async/kernel/edu_pci.c\<close>, with the
  device behind BAR 0 as a type parameter, and its register accesses. The coherent slab is one
  byte store: the submission queue, the completion queue and the buffer of the DMA test are views
  of the same bytes. What the driver does with an eventfd context (take a reference, signal it,
  drop the reference) is recorded in a log.
\<close>

datatype evt_op = EvtGet nat | EvtPut nat | EvtSignal nat

record 'h edu_dev =
  bar0 :: 'h
  irq_done :: bool
  dma_virt :: store
  dma_handle :: u64
  sq_tail :: u32
  cq_tail :: u32
  cq_head :: u32
  inflight :: "u8 list"
  evt_ctx :: "nat option"
  evt_log :: "evt_op list"
  last_irq :: u32
  last_fact_in :: u32
  last_fact_out :: u32
  dma_ok :: u32
  stat_irq_total :: u64
  stat_sq_submitted :: u64
  stat_cq_posted :: u64
  stat_cq_consumed :: u64
  stat_dma_errors :: u64
  stat_factorial_ops :: u64
  stat_eventfd_signals :: u64
  inject_fault :: u32

text \<open>\<open>readl(e->bar0 + r)\<close>, \<open>writel(v, e->bar0 + r)\<close> and \<open>writeq(v, e->bar0 + r)\<close>.\<close>

definition edu_readl :: "'h mmio \<Rightarrow> u32 \<Rightarrow> 'h edu_dev \<Rightarrow> u32 \<times> 'h edu_dev" where
  "edu_readl D r e = (case io_readl D (bar0 e) r of (v, h) \<Rightarrow> (v, e\<lparr>bar0 := h\<rparr>))"

definition edu_writel :: "'h mmio \<Rightarrow> u32 \<Rightarrow> u32 \<Rightarrow> 'h edu_dev \<Rightarrow> 'h edu_dev" where
  "edu_writel D r v e = e\<lparr>bar0 := io_writel D (bar0 e) r v\<rparr>"

definition edu_writeq :: "'h mmio \<Rightarrow> u32 \<Rightarrow> u64 \<Rightarrow> 'h edu_dev \<Rightarrow> 'h edu_dev" where
  "edu_writeq D r v e = e\<lparr>bar0 := io_writeq D (bar0 e) r v\<rparr>"

text \<open>The state the probe function leaves: a zeroed structure over a zeroed slab.\<close>

definition edu_fresh :: "'h \<Rightarrow> u64 \<Rightarrow> 'h edu_dev" where
  "edu_fresh h handle = \<lparr>bar0 = h, irq_done = False, dma_virt = (\<lambda>_. 0), dma_handle = handle,
     sq_tail = 0, cq_tail = 0, cq_head = 0, inflight = replicate RING_SIZE 0,
     evt_ctx = None, evt_log = [], last_irq = 0, last_fact_in = 0, last_fact_out = 0, dma_ok = 0,
     stat_irq_total = 0, stat_sq_submitted = 0, stat_cq_posted = 0, stat_cq_consumed = 0,
     stat_dma_errors = 0, stat_factorial_ops = 0, stat_eventfd_signals = 0, inject_fault = 0\<rparr>"

text \<open>
  An access to the device changes nothing of the driver's own state: every other field is read
  through it.
\<close>

lemma edu_readl_fst: "fst (edu_readl D r e) = fst (io_readl D (bar0 e) r)"
  by (simp add: edu_readl_def split: prod.splits)

lemma edu_readl_snd: "snd (edu_readl D r e) = e\<lparr>bar0 := snd (io_readl D (bar0 e) r)\<rparr>"
  by (simp add: edu_readl_def split: prod.splits)

lemmas edu_mmio = edu_readl_def edu_writel_def edu_writeq_def

section \<open>The ring invariant\<close>

text \<open>
  How many commands have a slot whose completion has not been posted (\<open>inflight_count\<close>), how many
  completions are posted and not yet read (\<open>cq_count\<close>), and how many slots of the submission queue
  are taken, from the slot of the oldest unread completion on (\<open>outstanding\<close>).
\<close>

definition inflight_count :: "'h edu_dev \<Rightarrow> nat" where
  "inflight_count e = length (filter (\<lambda>b. b \<noteq> 0) (inflight e))"

definition cq_count :: "'h edu_dev \<Rightarrow> nat" where
  "cq_count e = ring_count (cq_tail e) (cq_head e)"

definition outstanding :: "'h edu_dev \<Rightarrow> nat" where
  "outstanding e = ring_count (sq_tail e) (cq_head e)"

definition cq_wf :: "'h edu_dev \<Rightarrow> bool" where
  "cq_wf e \<longleftrightarrow> unat (cq_tail e) < RING_SIZE \<and> unat (cq_head e) < RING_SIZE"

definition ring_inv :: "'h edu_dev \<Rightarrow> bool" where
  "ring_inv e \<longleftrightarrow> cq_wf e \<and> unat (sq_tail e) < RING_SIZE \<and> length (inflight e) = RING_SIZE \<and>
     cq_count e + inflight_count e \<le> outstanding e"

lemma ring_invD:
  assumes "ring_inv e"
  shows "cq_wf e" "unat (sq_tail e) < RING_SIZE" "unat (cq_tail e) < RING_SIZE"
    "unat (cq_head e) < RING_SIZE" "length (inflight e) = RING_SIZE"
    "cq_count e + inflight_count e \<le> outstanding e"
  using assms by (auto simp: ring_inv_def cq_wf_def)

lemma outstanding_less: "outstanding e < RING_SIZE"
  by (simp add: outstanding_def ring_count_less)

lemma ring_inv_fresh: "ring_inv (edu_fresh h handle)"
  by (simp add: ring_inv_def cq_wf_def edu_fresh_def cq_count_def outstanding_def
      inflight_count_def RING_SIZE_def)

text \<open>The invariant reads the ring fields only.\<close>

lemma ring_inv_cong:
  "sq_tail e' = sq_tail e \<Longrightarrow> cq_tail e' = cq_tail e \<Longrightarrow> cq_head e' = cq_head e \<Longrightarrow>
    inflight e' = inflight e \<Longrightarrow> ring_inv e' = ring_inv e"
  by (simp add: ring_inv_def cq_wf_def cq_count_def outstanding_def inflight_count_def)

lemma ring_inv_other [simp]:
  "ring_inv (e\<lparr>bar0 := x0\<rparr>) = ring_inv e"
  "ring_inv (e\<lparr>irq_done := x1\<rparr>) = ring_inv e"
  "ring_inv (e\<lparr>dma_virt := x2\<rparr>) = ring_inv e"
  "ring_inv (e\<lparr>evt_ctx := x3\<rparr>) = ring_inv e"
  "ring_inv (e\<lparr>evt_log := x4\<rparr>) = ring_inv e"
  "ring_inv (e\<lparr>last_irq := x5\<rparr>) = ring_inv e"
  "ring_inv (e\<lparr>last_fact_in := x6\<rparr>) = ring_inv e"
  "ring_inv (e\<lparr>last_fact_out := x7\<rparr>) = ring_inv e"
  "ring_inv (e\<lparr>dma_ok := x8\<rparr>) = ring_inv e"
  "ring_inv (e\<lparr>stat_irq_total := x9\<rparr>) = ring_inv e"
  "ring_inv (e\<lparr>stat_sq_submitted := x10\<rparr>) = ring_inv e"
  "ring_inv (e\<lparr>stat_cq_posted := x11\<rparr>) = ring_inv e"
  "ring_inv (e\<lparr>stat_cq_consumed := x12\<rparr>) = ring_inv e"
  "ring_inv (e\<lparr>stat_dma_errors := x13\<rparr>) = ring_inv e"
  "ring_inv (e\<lparr>stat_factorial_ops := x14\<rparr>) = ring_inv e"
  "ring_inv (e\<lparr>stat_eventfd_signals := x15\<rparr>) = ring_inv e"
  "ring_inv (e\<lparr>inject_fault := x16\<rparr>) = ring_inv e"
  by (rule ring_inv_cong; simp)+

text \<open>Clearing a busy slot frees exactly one; marking a slot takes at most one.\<close>

lemma filter_clear:
  "i < length xs \<Longrightarrow> xs ! i \<noteq> (0::u8) \<Longrightarrow>
    Suc (length (filter (\<lambda>b. b \<noteq> 0) (xs[i := 0]))) = length (filter (\<lambda>b. b \<noteq> 0) xs)"
proof (induction xs arbitrary: i)
  case Nil
  then show ?case by simp
next
  case (Cons x xs)
  then show ?case by (cases i) auto
qed

lemma filter_mark:
  "length (filter (\<lambda>b. b \<noteq> (0::u8)) (xs[i := v])) \<le>
    length (filter (\<lambda>b. b \<noteq> 0) xs) + (if v = 0 then 0 else 1)"
proof (induction xs arbitrary: i)
  case Nil
  then show ?case by simp
next
  case (Cons x xs)
  then show ?case
  proof (cases i)
    case 0
    then show ?thesis by simp
  next
    case (Suc j)
    then show ?thesis using Cons.IH[of j] by (cases "v = 0") auto
  qed
qed

end
