(* ===== verification/Edu_Ring.thy ===== *)
theory Edu_Ring
  imports Edu_State
begin

text \<open>
  The submission and completion rings of the EDU driver: \<open>edu_ring_submit\<close>, \<open>edu_poll_cq\<close> and
  \<open>edu_open\<close>, and the posting of a completion. The completion ring is interpreted as a bounded
  first-in first-out queue over the bytes of the slab.
\<close>

section \<open>Submission\<close>

text \<open>The part of \<open>edu_ring_submit\<close> under the ring lock: claim and fill the next slot.\<close>

definition edu_ring_enqueue :: "edu_submit_req \<Rightarrow> 'h edu_dev \<Rightarrow> ret \<times> 'h edu_dev" where
  "edu_ring_enqueue req e =
     (if ring_full (sq_tail e) (cq_head e) then (Inl ENOSPC, e)
      else let slot = unat (sq_tail e AND RING_MASK) in
        (ok, e\<lparr>dma_virt := sq_put (dma_virt e) slot
                 \<lparr>sq_tag = sub_tag req, sq_opcode = sub_opcode req, sq_flags = 0,
                  sq_operand = sub_operand req, sq_rsvd = 0\<rparr>,
               inflight := (inflight e)[slot := sub_opcode req],
               sq_tail := ring_next (sq_tail e),
               stat_sq_submitted := stat_sq_submitted e + 1\<rparr>))"

text \<open>After the lock is dropped: start the hardware, by opcode.\<close>

definition edu_ring_kick :: "'h mmio \<Rightarrow> edu_submit_req \<Rightarrow> 'h edu_dev \<Rightarrow> ret \<times> 'h edu_dev" where
  "edu_ring_kick D req e =
     (if sub_opcode req = EDU_OP_FACTORIAL then
        let e = edu_writel D EDU_REG_STATUS EDU_STATUS_IRQ_EN e;
            e = edu_writel D EDU_REG_FACT (sub_operand req) e
        in (ok, e)
      else if sub_opcode req = EDU_OP_DMA_TEST then
        let e = edu_writel D EDU_REG_STATUS 0 e;
            e = edu_writeq D EDU_REG_DMA_SRC (dma_handle e) e;
            e = edu_writeq D EDU_REG_DMA_DST EDU_DMA_BUF_OFFSET e;
            e = edu_writeq D EDU_REG_DMA_CNT (of_nat EDU_DMA_TEST_LEN) e;
            e = edu_writel D EDU_REG_DMA_CMD (EDU_DMA_CMD_START OR EDU_DMA_CMD_IRQ) e
        in (ok, e)
      else (Inl EINVAL, e))"

definition edu_ring_submit :: "'h mmio \<Rightarrow> edu_submit_req \<Rightarrow> 'h edu_dev \<Rightarrow> ret \<times> 'h edu_dev" where
  "edu_ring_submit D req e =
     (case edu_ring_enqueue req e of
        (Inl err, e) \<Rightarrow> (Inl err, e)
      | (Inr _, e) \<Rightarrow> edu_ring_kick D req e)"

section \<open>Completion queue\<close>

text \<open>The interrupt handler's store into the next completion slot.\<close>

definition cq_push :: "cq_entry \<Rightarrow> 'h edu_dev \<Rightarrow> 'h edu_dev" where
  "cq_push c e = e\<lparr>dma_virt := cq_put (dma_virt e) (unat (cq_tail e AND RING_MASK)) c,
                   cq_tail := ring_next (cq_tail e)\<rparr>"

definition cq_front :: "'h edu_dev \<Rightarrow> cq_entry" where
  "cq_front e = cq_get (dma_virt e) (unat (cq_head e AND RING_MASK))"

definition cq_advance :: "'h edu_dev \<Rightarrow> 'h edu_dev" where
  "cq_advance e = e\<lparr>cq_head := ring_next (cq_head e), stat_cq_consumed := stat_cq_consumed e + 1\<rparr>"

definition edu_poll_cq :: "'h edu_dev \<Rightarrow> (errno + edu_completion_req) \<times> 'h edu_dev" where
  "edu_poll_cq e =
     (if cq_head e = cq_tail e then (Inl EAGAIN, e)
      else let c = cq_front e in
        (Inr \<lparr>cr_tag = cq_tag c, cr_status = cq_status c, cr_pad = 0, cr_result = cq_result c\<rparr>,
         cq_advance e))"

section \<open>Opening the device\<close>

definition edu_open :: "'h edu_dev \<Rightarrow> 'h edu_dev" where
  "edu_open e = e\<lparr>sq_tail := 0, cq_tail := 0, cq_head := 0,
                  inflight := replicate RING_SIZE 0\<rparr>"

section \<open>The completion queue is a bounded queue\<close>

text \<open>The unread completions, oldest first.\<close>

definition cq_list :: "'h edu_dev \<Rightarrow> cq_entry list" where
  "cq_list e = ring_list RING_SIZE (cq_get (dma_virt e)) (unat (cq_head e)) (cq_count e)"

definition cq_full :: "'h edu_dev \<Rightarrow> bool" where
  "cq_full e \<longleftrightarrow> ring_full (cq_tail e) (cq_head e)"

definition cq_empty :: "'h edu_dev \<Rightarrow> bool" where
  "cq_empty e \<longleftrightarrow> cq_head e = cq_tail e"

lemma length_cq_list [simp]: "length (cq_list e) = cq_count e"
  by (simp add: cq_list_def)

text \<open>The content depends on the slab and on the two completion indices only.\<close>

lemma cq_list_cong:
  "dma_virt e' = dma_virt e \<Longrightarrow> cq_tail e' = cq_tail e \<Longrightarrow> cq_head e' = cq_head e \<Longrightarrow> cq_list e' = cq_list e"
  by (simp add: cq_list_def cq_count_def)

lemma cq_list_other [simp]:
  "cq_list (e\<lparr>bar0 := x0\<rparr>) = cq_list e"
  "cq_list (e\<lparr>irq_done := x1\<rparr>) = cq_list e"
  "cq_list (e\<lparr>evt_ctx := x2\<rparr>) = cq_list e"
  "cq_list (e\<lparr>evt_log := x3\<rparr>) = cq_list e"
  "cq_list (e\<lparr>inflight := x4\<rparr>) = cq_list e"
  "cq_list (e\<lparr>sq_tail := x5\<rparr>) = cq_list e"
  "cq_list (e\<lparr>last_irq := x6\<rparr>) = cq_list e"
  "cq_list (e\<lparr>last_fact_in := x7\<rparr>) = cq_list e"
  "cq_list (e\<lparr>last_fact_out := x8\<rparr>) = cq_list e"
  "cq_list (e\<lparr>dma_ok := x9\<rparr>) = cq_list e"
  "cq_list (e\<lparr>stat_irq_total := x10\<rparr>) = cq_list e"
  "cq_list (e\<lparr>stat_sq_submitted := x11\<rparr>) = cq_list e"
  "cq_list (e\<lparr>stat_cq_posted := x12\<rparr>) = cq_list e"
  "cq_list (e\<lparr>stat_cq_consumed := x13\<rparr>) = cq_list e"
  "cq_list (e\<lparr>stat_dma_errors := x14\<rparr>) = cq_list e"
  "cq_list (e\<lparr>stat_factorial_ops := x15\<rparr>) = cq_list e"
  "cq_list (e\<lparr>stat_eventfd_signals := x16\<rparr>) = cq_list e"
  "cq_list (e\<lparr>inject_fault := x17\<rparr>) = cq_list e"
  by (rule cq_list_cong; simp)+

lemma cq_count_push: "cq_wf e \<Longrightarrow> \<not> cq_full e \<Longrightarrow> cq_count (cq_push c e) = Suc (cq_count e)"
  by (simp add: cq_count_def cq_push_def cq_wf_def cq_full_def ring_count_next_tail)

lemma cq_count_advance: "cq_wf e \<Longrightarrow> \<not> cq_empty e \<Longrightarrow> Suc (cq_count (cq_advance e)) = cq_count e"
  by (simp add: cq_count_def cq_advance_def cq_wf_def cq_empty_def ring_count_next_head)

lemma cq_list_push:
  assumes "cq_wf e" and "\<not> cq_full e"
  shows "cq_list (cq_push c e) = cq_list e @ [c]"
proof -
  have n: "cq_count e < RING_SIZE"
    by (simp add: cq_count_def ring_count_less)
  have slot: "(unat (cq_head e) + cq_count e) mod RING_SIZE = unat (cq_tail e)"
    using assms(1) by (simp add: cq_count_def cq_wf_def ring_count_slot)
  have "cq_list (cq_push c e) =
      ring_list RING_SIZE (cq_get (dma_virt (cq_push c e))) (unat (cq_head e)) (Suc (cq_count e))"
    using assms by (simp add: cq_list_def cq_count_push) (simp add: cq_push_def)
  also have "\<dots> = cq_list e @ [c]"
    unfolding cq_list_def using n
    by (rule ring_list_push)
      (use assms(1) in \<open>auto simp: slot cq_push_def ring_mask_id cq_wf_def\<close>)
  finally show ?thesis .
qed

lemma cq_list_advance:
  assumes "cq_wf e" and "\<not> cq_empty e"
  shows "cq_list (cq_advance e) = tl (cq_list e)"
proof -
  have "cq_list (cq_advance e) =
      ring_list RING_SIZE (cq_get (dma_virt e)) ((unat (cq_head e) + 1) mod RING_SIZE) (cq_count (cq_advance e))"
    by (simp add: cq_list_def cq_advance_def unat_ring_next)
  also have "\<dots> = tl (cq_list e)"
    using cq_count_advance[OF assms] ring_list_pop[of RING_SIZE "cq_get (dma_virt e)" "unat (cq_head e)"]
    by (simp add: cq_list_def)
  finally show ?thesis .
qed

lemma cq_front_hd:
  assumes "cq_wf e" and "\<not> cq_empty e"
  shows "cq_front e = hd (cq_list e)"
proof -
  obtain n where n: "cq_count e = Suc n"
    using cq_count_advance[OF assms] by metis
  then show ?thesis
    using assms(1)
    by (simp add: cq_list_def cq_front_def cq_wf_def ring_mask_id ring_list_hd)
qed

interpretation cq: bounded_fifo cq_list cq_wf "RING_SIZE - 1" "\<lambda>c. c" cq_push cq_advance cq_front cq_full cq_empty
proof unfold_locales
  fix e :: "'a edu_dev" and c :: cq_entry
  assume wf: "cq_wf e"
  then show "cq_full e \<longleftrightarrow> RING_SIZE - 1 \<le> length (cq_list e)"
    using ring_count_less[of "cq_tail e" "cq_head e"]
    by (auto simp: cq_full_def cq_wf_def ring_full_count cq_count_def)
  show "cq_empty e \<longleftrightarrow> cq_list e = []"
    using wf by (auto simp: cq_empty_def cq_wf_def cq_count_def ring_count_0 simp flip: length_0_conv)
  show "\<not> cq_full e \<Longrightarrow> cq_wf (cq_push c e)"
    using wf by (simp add: cq_wf_def cq_push_def ring_next_less)
  show "\<not> cq_full e \<Longrightarrow> cq_list (cq_push c e) = cq_list e @ [c]"
    using wf by (rule cq_list_push)
  show "\<not> cq_empty e \<Longrightarrow> cq_wf (cq_advance e)"
    using wf by (simp add: cq_wf_def cq_advance_def ring_next_less)
  show "\<not> cq_empty e \<Longrightarrow> cq_list (cq_advance e) = tl (cq_list e)"
    using wf by (rule cq_list_advance)
  show "\<not> cq_empty e \<Longrightarrow> cq_front e = hd (cq_list e)"
    using wf by (rule cq_front_hd)
qed

end
