(* ===== verification/Edu_Irq.thy ===== *)
theory Edu_Irq
  imports Edu_Ring
begin

text \<open>
  The interrupt handler \<open>edu_irq_handler\<close> of the EDU driver, and how each ring operation moves
  the ring invariant: what the handler posts, and why a completion it posts never overwrites one
  that userspace has not read.
\<close>

text \<open>The result field: the factorial register for a factorial, 0 otherwise.\<close>

definition edu_cqe_result :: "'h mmio \<Rightarrow> nat \<Rightarrow> 'h edu_dev \<Rightarrow> u32 \<times> 'h edu_dev" where
  "edu_cqe_result D i e =
     (if sq_opcode (sq_get (dma_virt e) i) = EDU_OP_FACTORIAL then edu_readl D EDU_REG_FACT e
      else (0, e))"

text \<open>One completion, for the command of slot \<open>i\<close>.\<close>

definition edu_post_completion :: "'h mmio \<Rightarrow> nat \<Rightarrow> 'h edu_dev \<Rightarrow> 'h edu_dev" where
  "edu_post_completion D i e =
     (let (result, e) = edu_cqe_result D i e;
          sq = sq_get (dma_virt e) i;
          e = cq_push \<lparr>cq_tag = sq_tag sq, cq_status = 0, cq_flags = 0, cq_result = result,
                      cq_rsvd = 0\<rparr> e
      in e\<lparr>inflight := (inflight e)[i := 0], stat_cq_posted := stat_cq_posted e + 1\<rparr>)"

text \<open>The loop over the slots from \<open>i\<close> on: skip the idle ones, post the first busy one and stop.\<close>

function edu_irq_scan :: "'h mmio \<Rightarrow> nat \<Rightarrow> 'h edu_dev \<Rightarrow> bool \<times> 'h edu_dev" where
  "edu_irq_scan D i e =
     (if i < RING_SIZE then
        if inflight e ! i = 0 then edu_irq_scan D (i + 1) e
        else (True, edu_post_completion D i e)
      else (False, e))"
  by pat_completeness auto
termination
  by (relation "measure (\<lambda>(D, i, e). RING_SIZE - i)") auto

declare edu_irq_scan.simps [simp del]

text \<open>After the lock: signal the registered eventfd, if a completion was posted.\<close>

definition edu_irq_signal :: "bool \<Rightarrow> 'h edu_dev \<Rightarrow> 'h edu_dev" where
  "edu_irq_signal ring_pending e =
     (case evt_ctx e of
        Some c \<Rightarrow> if ring_pending
                  then e\<lparr>evt_log := evt_log e @ [EvtSignal c],
                         stat_eventfd_signals := stat_eventfd_signals e + 1\<rparr>
                  else e
      | None \<Rightarrow> e)"

definition edu_irq_handler :: "'h mmio \<Rightarrow> 'h edu_dev \<Rightarrow> irqreturn \<times> 'h edu_dev" where
  "edu_irq_handler D e =
     (let (irq_stat, e) = edu_readl D EDU_REG_IRQ_STAT e
      in if irq_stat = 0 then (IRQ_NONE, e)
         else let e = edu_writel D EDU_REG_IRQ_ACK irq_stat e;
                  e = e\<lparr>last_irq := irq_stat, stat_irq_total := stat_irq_total e + 1\<rparr>;
                  (ring_pending, e) = edu_irq_scan D 0 e;
                  e = edu_irq_signal ring_pending e
              in (IRQ_HANDLED, e\<lparr>irq_done := True\<rparr>))"

section \<open>What the scan finds\<close>

definition busy_slots :: "'h edu_dev \<Rightarrow> nat list" where
  "busy_slots e = filter (\<lambda>i. inflight e ! i \<noteq> 0) [0..<RING_SIZE]"

lemma edu_irq_scan_from:
  "i \<le> RING_SIZE \<Longrightarrow> edu_irq_scan D i e =
    (case filter (\<lambda>i. inflight e ! i \<noteq> 0) [i..<RING_SIZE] of
       [] \<Rightarrow> (False, e) | j # _ \<Rightarrow> (True, edu_post_completion D j e))"
proof (induction D i e rule: edu_irq_scan.induct)
  case (1 D i e)
  show ?case
    using 1 by (subst edu_irq_scan.simps) (auto simp: upt_conv_Cons)
qed

lemma edu_irq_scan_busy:
  "edu_irq_scan D 0 e =
    (case busy_slots e of [] \<Rightarrow> (False, e) | j # _ \<Rightarrow> (True, edu_post_completion D j e))"
  by (simp add: edu_irq_scan_from busy_slots_def)

lemma busy_slots_cong: "inflight e' = inflight e \<Longrightarrow> busy_slots e' = busy_slots e"
  by (simp add: busy_slots_def)

lemma busy_slotsD: "busy_slots e = i # is \<Longrightarrow> i < RING_SIZE \<and> inflight e ! i \<noteq> 0"
  unfolding busy_slots_def by (auto simp: filter_eq_Cons_iff) (metis atLeastLessThan_iff in_set_conv_decomp set_upt)

lemma length_busy_slots: "length (inflight e) = RING_SIZE \<Longrightarrow> length (busy_slots e) = inflight_count e"
  by (auto simp: busy_slots_def inflight_count_def length_filter_conv_card
      intro!: arg_cong[where f = card])

section \<open>The invariant under each operation\<close>

lemma edu_cqe_result_snd [frame_simps]:
  "snd (edu_cqe_result D i e) =
    e\<lparr>bar0 := bar0 (snd (edu_cqe_result D i e))\<rparr>"
  by (simp add: edu_cqe_result_def edu_readl_snd)

lemma edu_cqe_result_fields [simp]:
  "dma_virt (snd (edu_cqe_result D i e)) = dma_virt e"
  "inflight (snd (edu_cqe_result D i e)) = inflight e"
  "sq_tail (snd (edu_cqe_result D i e)) = sq_tail e"
  "cq_tail (snd (edu_cqe_result D i e)) = cq_tail e"
  "cq_head (snd (edu_cqe_result D i e)) = cq_head e"
  "evt_ctx (snd (edu_cqe_result D i e)) = evt_ctx e"
  "evt_log (snd (edu_cqe_result D i e)) = evt_log e"
  "stat_cq_posted (snd (edu_cqe_result D i e)) = stat_cq_posted e"
  "stat_cq_consumed (snd (edu_cqe_result D i e)) = stat_cq_consumed e"
  "stat_sq_submitted (snd (edu_cqe_result D i e)) = stat_sq_submitted e"
  by (simp_all add: edu_cqe_result_def edu_readl_snd)

text \<open>The reservation: a busy slot leaves room for its completion.\<close>

lemma busy_not_full:
  assumes "ring_inv e" and "inflight_count e > 0"
  shows "\<not> cq_full e"
proof -
  have "cq_count e < RING_SIZE - 1"
    using assms ring_invD(6)[OF assms(1)] outstanding_less[of e] by linarith
  then show ?thesis
    using ring_invD[OF assms(1)] by (auto simp: cq_full_def ring_full_count cq_count_def)
qed

lemma inflight_count_pos: "i < length (inflight e) \<Longrightarrow> inflight e ! i \<noteq> 0 \<Longrightarrow> inflight_count e > 0"
  using filter_clear[of i "inflight e"] by (cases "inflight_count e") (simp_all add: inflight_count_def)

lemma inflight_count_clear:
  "i < length (inflight e) \<Longrightarrow> inflight e ! i \<noteq> 0 \<Longrightarrow> inflight e' = (inflight e)[i := 0] \<Longrightarrow>
    Suc (inflight_count e') = inflight_count e"
  by (simp add: inflight_count_def filter_clear)

lemma cq_push_fields [simp]:
  "inflight (cq_push c e) = inflight e" "sq_tail (cq_push c e) = sq_tail e"
  "cq_head (cq_push c e) = cq_head e" "cq_tail (cq_push c e) = ring_next (cq_tail e)"
  by (simp_all add: cq_push_def)

lemma ring_inv_cq_push:
  assumes "ring_inv e" and "\<not> cq_full e" and "i < RING_SIZE" and "inflight e ! i \<noteq> 0"
  shows "ring_inv ((cq_push c e)\<lparr>inflight := (inflight e)[i := 0]\<rparr>)"
proof -
  let ?e = "(cq_push c e)\<lparr>inflight := (inflight e)[i := 0]\<rparr>"
  have "cq_count ?e = Suc (cq_count e)"
    using cq_count_push[of e c] ring_invD(1)[OF assms(1)] assms(2) by (simp add: cq_count_def)
  moreover have "Suc (inflight_count ?e) = inflight_count e"
    using assms ring_invD(5)[OF assms(1)] by (intro inflight_count_clear[of i]) simp_all
  moreover have "outstanding ?e = outstanding e"
    by (simp add: outstanding_def)
  ultimately show ?thesis
    using ring_invD[OF assms(1)] by (simp add: ring_inv_def cq_wf_def ring_next_less)
qed

lemma ring_inv_post:
  assumes "ring_inv e" and "i < RING_SIZE" and "inflight e ! i \<noteq> 0"
  shows "ring_inv (edu_post_completion D i e)"
proof -
  let ?e = "snd (edu_cqe_result D i e)"
  have inv: "ring_inv ?e"
    using assms(1) by (subst edu_cqe_result_snd) simp
  have "inflight_count ?e > 0"
    using assms ring_invD(5)[OF inv] by (intro inflight_count_pos[of i]) simp_all
  with inv have "\<not> cq_full ?e" by (rule busy_not_full)
  then show ?thesis
    using ring_inv_cq_push[OF inv, of i] assms
    by (simp add: edu_post_completion_def split_def Let_def)
qed

text \<open>What the handler posts for slot \<open>i\<close>: the tag stored there, and the result read for it.\<close>

definition completion_of :: "'h mmio \<Rightarrow> nat \<Rightarrow> 'h edu_dev \<Rightarrow> cq_entry" where
  "completion_of D i e = \<lparr>cq_tag = sq_tag (sq_get (dma_virt e) i), cq_status = 0, cq_flags = 0,
     cq_result = fst (edu_cqe_result D i e), cq_rsvd = 0\<rparr>"

lemma cq_list_post:
  assumes "ring_inv e" and "i < RING_SIZE" and "inflight e ! i \<noteq> 0"
  shows "cq_list (edu_post_completion D i e) = cq_list e @ [completion_of D i e]"
proof -
  let ?e = "snd (edu_cqe_result D i e)"
  have same: "cq_list ?e = cq_list e" by (subst edu_cqe_result_snd) simp
  have inv: "ring_inv ?e" using assms(1) by (subst edu_cqe_result_snd) simp
  have "inflight_count ?e > 0"
    using assms ring_invD(5)[OF inv] by (intro inflight_count_pos[of i]) simp_all
  with inv have "\<not> cq_full ?e" by (rule busy_not_full)
  then have "cq_list (cq_push c ?e) = cq_list e @ [c]" for c
    using cq.push_contents[OF ring_invD(1)[OF inv]] same by simp
  then show ?thesis
    by (simp add: edu_post_completion_def completion_of_def split_def Let_def)
qed

lemma edu_post_completion_fields [simp]:
  "sq_tail (edu_post_completion D i e) = sq_tail e"
  "cq_tail (edu_post_completion D i e) = ring_next (cq_tail e)"
  "cq_head (edu_post_completion D i e) = cq_head e"
  "inflight (edu_post_completion D i e) = (inflight e)[i := 0]"
  "evt_ctx (edu_post_completion D i e) = evt_ctx e"
  "stat_cq_posted (edu_post_completion D i e) = stat_cq_posted e + 1"
  "stat_cq_consumed (edu_post_completion D i e) = stat_cq_consumed e"
  "stat_sq_submitted (edu_post_completion D i e) = stat_sq_submitted e"
  by (simp_all add: edu_post_completion_def split_def Let_def cq_push_def)

lemma sq_get_post [simp]:
  "j < RING_SIZE \<Longrightarrow> sq_get (dma_virt (edu_post_completion D i e)) j = sq_get (dma_virt e) j"
  by (simp add: edu_post_completion_def split_def Let_def cq_push_def)

section \<open>The handler as a whole\<close>

text \<open>The interrupt status the handler reads, and the state in which it takes the ring lock.\<close>

definition irq_status :: "'h mmio \<Rightarrow> 'h edu_dev \<Rightarrow> u32" where
  "irq_status D e = fst (edu_readl D EDU_REG_IRQ_STAT e)"

definition irq_acked :: "'h mmio \<Rightarrow> 'h edu_dev \<Rightarrow> 'h edu_dev" where
  "irq_acked D e = (let (s, e) = edu_readl D EDU_REG_IRQ_STAT e;
      e = edu_writel D EDU_REG_IRQ_ACK s e
    in e\<lparr>last_irq := s, stat_irq_total := stat_irq_total e + 1\<rparr>)"

lemma irq_acked_eq:
  "irq_acked D e = e\<lparr>bar0 := bar0 (irq_acked D e), last_irq := irq_status D e,
     stat_irq_total := stat_irq_total e + 1\<rparr>"
  by (simp add: irq_acked_def irq_status_def split_def Let_def edu_readl_snd edu_writel_def)

lemma irq_acked_fields [simp]:
  "dma_virt (irq_acked D e) = dma_virt e" "inflight (irq_acked D e) = inflight e"
  "sq_tail (irq_acked D e) = sq_tail e" "cq_tail (irq_acked D e) = cq_tail e"
  "cq_head (irq_acked D e) = cq_head e" "evt_ctx (irq_acked D e) = evt_ctx e"
  "evt_log (irq_acked D e) = evt_log e"
  "ring_inv (irq_acked D e) = ring_inv e" "cq_list (irq_acked D e) = cq_list e"
  "busy_slots (irq_acked D e) = busy_slots e"
  by (subst irq_acked_eq; simp add: busy_slots_def)+

lemma edu_irq_handler_spurious:
  "irq_status D e = 0 \<Longrightarrow>
    edu_irq_handler D e = (IRQ_NONE, e\<lparr>bar0 := snd (io_readl D (bar0 e) EDU_REG_IRQ_STAT)\<rparr>)"
  by (simp add: edu_irq_handler_def irq_status_def split_def edu_readl_snd)

lemma edu_irq_handler_real:
  "irq_status D e \<noteq> 0 \<Longrightarrow>
    edu_irq_handler D e = (IRQ_HANDLED,
      (case busy_slots e of
         [] \<Rightarrow> edu_irq_signal False (irq_acked D e)
       | i # _ \<Rightarrow> edu_irq_signal True (edu_post_completion D i (irq_acked D e)))\<lparr>irq_done := True\<rparr>)"
  using edu_irq_scan_busy[of D "irq_acked D e"]
  by (simp add: edu_irq_handler_def irq_status_def irq_acked_def[symmetric] split_def Let_def
      split: list.splits)
    (simp_all add: irq_acked_def split_def Let_def)

lemma edu_irq_signal_False [simp]: "edu_irq_signal False e = e"
  by (simp add: edu_irq_signal_def split: option.splits)

lemma edu_irq_signal_fields [simp]:
  "dma_virt (edu_irq_signal p e) = dma_virt e" "inflight (edu_irq_signal p e) = inflight e"
  "sq_tail (edu_irq_signal p e) = sq_tail e" "cq_tail (edu_irq_signal p e) = cq_tail e"
  "cq_head (edu_irq_signal p e) = cq_head e" "evt_ctx (edu_irq_signal p e) = evt_ctx e"
  "ring_inv (edu_irq_signal p e) = ring_inv e" "cq_list (edu_irq_signal p e) = cq_list e"
  by (simp_all add: edu_irq_signal_def split: option.splits)

lemma ring_inv_irq: "ring_inv e \<Longrightarrow> ring_inv (snd (edu_irq_handler D e))"
proof (cases "irq_status D e = 0")
  case True
  then show "ring_inv e \<Longrightarrow> ?thesis" by (simp add: edu_irq_handler_spurious)
next
  case False
  moreover assume "ring_inv e"
  ultimately show ?thesis
    by (auto simp: edu_irq_handler_real split: list.splits dest: busy_slotsD intro!: ring_inv_post)
qed

lemma cq_list_irq:
  assumes "ring_inv e" and "irq_status D e \<noteq> 0"
  shows "cq_list (snd (edu_irq_handler D e)) = cq_list e @
    (case busy_slots e of [] \<Rightarrow> [] | i # _ \<Rightarrow> [completion_of D i (irq_acked D e)])"
  using assms
  by (auto simp: edu_irq_handler_real cq_list_post split: list.splits dest: busy_slotsD)

end
