(* ===== verification/Edu_Spec.thy ===== *)
theory Edu_Spec
  imports Edu_Irq
begin

text \<open>
  The contract of the submission and completion rings, without memory, words or wrap-around: which
  commands are waiting for the device, which completions userspace has still to read, and how many
  slots are left. The driver's operations refine it, one by one and over every sequence of
  operations; every completion the handler posts is read exactly once and in posting order.
\<close>

section \<open>Submission, poll and open under the invariant\<close>

lemma edu_ring_kick_snd: "snd (edu_ring_kick D req e) = e\<lparr>bar0 := bar0 (snd (edu_ring_kick D req e))\<rparr>"
  by (simp add: edu_ring_kick_def edu_writel_def edu_writeq_def Let_def)

lemma edu_ring_kick_fields [simp]:
  "dma_virt (snd (edu_ring_kick D req e)) = dma_virt e"
  "inflight (snd (edu_ring_kick D req e)) = inflight e"
  "sq_tail (snd (edu_ring_kick D req e)) = sq_tail e"
  "cq_tail (snd (edu_ring_kick D req e)) = cq_tail e"
  "cq_head (snd (edu_ring_kick D req e)) = cq_head e"
  "evt_ctx (snd (edu_ring_kick D req e)) = evt_ctx e"
  "evt_log (snd (edu_ring_kick D req e)) = evt_log e"
  "stat_sq_submitted (snd (edu_ring_kick D req e)) = stat_sq_submitted e"
  "stat_cq_posted (snd (edu_ring_kick D req e)) = stat_cq_posted e"
  "stat_cq_consumed (snd (edu_ring_kick D req e)) = stat_cq_consumed e"
  "ring_inv (snd (edu_ring_kick D req e)) = ring_inv e"
  "cq_list (snd (edu_ring_kick D req e)) = cq_list e"
  by (subst edu_ring_kick_snd; simp)+

definition sq_entry_of :: "edu_submit_req \<Rightarrow> sq_entry" where
  "sq_entry_of req = \<lparr>sq_tag = sub_tag req, sq_opcode = sub_opcode req, sq_flags = 0,
     sq_operand = sub_operand req, sq_rsvd = 0\<rparr>"

lemma edu_ring_enqueue_full: "ring_full (sq_tail e) (cq_head e) \<Longrightarrow> edu_ring_enqueue req e = (Inl ENOSPC, e)"
  by (simp add: edu_ring_enqueue_def)

lemma edu_ring_enqueue_room:
  assumes "\<not> ring_full (sq_tail e) (cq_head e)" and "unat (sq_tail e) < RING_SIZE"
  shows "edu_ring_enqueue req e = (ok, e\<lparr>
      dma_virt := sq_put (dma_virt e) (unat (sq_tail e)) (sq_entry_of req),
      inflight := (inflight e)[unat (sq_tail e) := sub_opcode req],
      sq_tail := ring_next (sq_tail e),
      stat_sq_submitted := stat_sq_submitted e + 1\<rparr>)"
  using assms by (simp add: edu_ring_enqueue_def ring_mask_id sq_entry_of_def Let_def)

lemma ring_inv_enqueue:
  assumes inv: "ring_inv e"
  shows "ring_inv (snd (edu_ring_enqueue req e))"
proof (cases "ring_full (sq_tail e) (cq_head e)")
  case True
  then show ?thesis using inv by (simp add: edu_ring_enqueue_full)
next
  case False
  note D = ring_invD[OF inv]
  let ?e = "e\<lparr>inflight := (inflight e)[unat (sq_tail e) := sub_opcode req], sq_tail := ring_next (sq_tail e)\<rparr>"
  have "outstanding ?e = Suc (outstanding e)"
    using False D by (simp add: outstanding_def ring_count_next_tail)
  moreover have "inflight_count ?e \<le> inflight_count e + 1"
    using filter_mark[of "inflight e" "unat (sq_tail e)" "sub_opcode req"]
    by (simp add: inflight_count_def split: if_splits)
  moreover have "cq_count ?e = cq_count e"
    by (simp add: cq_count_def)
  ultimately have "ring_inv ?e"
    using D by (simp add: ring_inv_def cq_wf_def ring_next_less)
  then show ?thesis
    using False D by (subst ring_inv_cong[of _ ?e]) (simp_all add: edu_ring_enqueue_room)
qed

lemma ring_inv_submit: "ring_inv e \<Longrightarrow> ring_inv (snd (edu_ring_submit D req e))"
  using ring_inv_enqueue[of e req]
  by (auto simp: edu_ring_submit_def split: prod.splits sum.splits)

lemma ring_inv_poll:
  assumes inv: "ring_inv e"
  shows "ring_inv (snd (edu_poll_cq e))"
proof (cases "cq_head e = cq_tail e")
  case True
  then show ?thesis using inv by (simp add: edu_poll_cq_def)
next
  case False
  note D = ring_invD[OF inv]
  have c: "Suc (cq_count (cq_advance e)) = cq_count e"
    using False D by (simp add: cq_count_advance cq_empty_def)
  moreover have "sq_tail e \<noteq> cq_head e"
  proof
    assume "sq_tail e = cq_head e"
    then have "outstanding e = 0" by (simp add: outstanding_def)
    then show False using D(6) c by simp
  qed
  then have "Suc (outstanding (cq_advance e)) = outstanding e"
    using D by (simp add: outstanding_def cq_advance_def ring_count_next_head)
  moreover have "inflight_count (cq_advance e) = inflight_count e"
    by (simp add: inflight_count_def cq_advance_def)
  moreover have "cq_wf (cq_advance e)"
    using False D by (intro cq.pop_inv) (simp_all add: cq_empty_def)
  ultimately have "ring_inv (cq_advance e)"
    using D by (simp add: ring_inv_def cq_advance_def)
  then show ?thesis using False by (simp add: edu_poll_cq_def Let_def)
qed

lemma ring_inv_open: "ring_inv (edu_open e)"
  by (simp add: ring_inv_def edu_open_def cq_wf_def cq_count_def inflight_count_def RING_SIZE_def)

lemma edu_poll_cq_spec:
  assumes "cq_wf e"
  shows "edu_poll_cq e = (case cq_list e of [] \<Rightarrow> (Inl EAGAIN, e)
     | c # _ \<Rightarrow> (Inr \<lparr>cr_tag = cq_tag c, cr_status = cq_status c, cr_pad = 0, cr_result = cq_result c\<rparr>,
                 cq_advance e))"
  using assms cq.empty_iff[OF assms] cq.front_contents[OF assms]
  by (auto simp: edu_poll_cq_def cq_empty_def Let_def split: list.splits)

section \<open>The abstract rings\<close>

record edu_abs =
  ab_busy :: "nat \<Rightarrow> sq_entry option"
  ab_done :: "cq_entry list"
  ab_next :: nat
  ab_room :: nat

definition abs_submit :: "edu_submit_req \<Rightarrow> edu_abs \<Rightarrow> ret \<times> edu_abs" where
  "abs_submit req A =
     (if ab_room A = 0 then (Inl ENOSPC, A)
      else (if sub_opcode req = EDU_OP_FACTORIAL \<or> sub_opcode req = EDU_OP_DMA_TEST then ok else Inl EINVAL,
            A\<lparr>ab_busy := (ab_busy A)(ab_next A := (if sub_opcode req = 0 then None else Some (sq_entry_of req))),
              ab_next := (ab_next A + 1) mod RING_SIZE,
              ab_room := ab_room A - 1\<rparr>))"

definition abs_completion :: "u32 \<Rightarrow> sq_entry \<Rightarrow> cq_entry" where
  "abs_completion fv s = \<lparr>cq_tag = sq_tag s, cq_status = 0, cq_flags = 0,
     cq_result = (if sq_opcode s = EDU_OP_FACTORIAL then fv else 0), cq_rsvd = 0\<rparr>"

definition abs_posts :: "u32 \<Rightarrow> edu_abs \<Rightarrow> cq_entry list" where
  "abs_posts fv A = (case List.find (\<lambda>i. ab_busy A i \<noteq> None) [0..<RING_SIZE] of
     None \<Rightarrow> [] | Some i \<Rightarrow> [abs_completion fv (the (ab_busy A i))])"

definition abs_irq :: "u32 \<Rightarrow> edu_abs \<Rightarrow> edu_abs" where
  "abs_irq fv A = (case List.find (\<lambda>i. ab_busy A i \<noteq> None) [0..<RING_SIZE] of
     None \<Rightarrow> A
   | Some i \<Rightarrow> A\<lparr>ab_busy := (ab_busy A)(i := None), ab_done := ab_done A @ abs_posts fv A\<rparr>)"

definition abs_poll :: "edu_abs \<Rightarrow> (errno + edu_completion_req) \<times> edu_abs" where
  "abs_poll A = (case ab_done A of
     [] \<Rightarrow> (Inl EAGAIN, A)
   | c # cs \<Rightarrow> (Inr \<lparr>cr_tag = cq_tag c, cr_status = cq_status c, cr_pad = 0, cr_result = cq_result c\<rparr>,
                A\<lparr>ab_done := cs, ab_room := ab_room A + 1\<rparr>))"

definition abs_open :: "edu_abs \<Rightarrow> edu_abs" where
  "abs_open A = \<lparr>ab_busy = Map.empty, ab_done = [], ab_next = 0, ab_room = RING_SIZE - 1\<rparr>"

text \<open>The abstraction function.\<close>

definition busy_map :: "u8 list \<Rightarrow> store \<Rightarrow> nat \<Rightarrow> sq_entry option" where
  "busy_map infl m = (\<lambda>i. if i < RING_SIZE \<and> infl ! i \<noteq> 0 then Some (sq_get m i) else None)"

definition edu_alpha :: "'h edu_dev \<Rightarrow> edu_abs" where
  "edu_alpha e = \<lparr>
     ab_busy = busy_map (inflight e) (dma_virt e),
     ab_done = cq_list e,
     ab_next = unat (sq_tail e),
     ab_room = RING_SIZE - 1 - outstanding e\<rparr>"

section \<open>Each operation refines the contract\<close>

lemma edu_alpha_submit:
  assumes inv: "ring_inv e"
  shows "edu_alpha (snd (edu_ring_submit D req e)) = snd (abs_submit req (edu_alpha e))"
    and "fst (edu_ring_submit D req e) = fst (abs_submit req (edu_alpha e))"
proof -
  note D = ring_invD[OF inv]
  let ?full = "ring_full (sq_tail e) (cq_head e)"
  have full: "?full \<longleftrightarrow> ab_room (edu_alpha e) = 0"
    using D outstanding_less[of e] by (auto simp: ring_full_count outstanding_def edu_alpha_def)
  show "edu_alpha (snd (edu_ring_submit D req e)) = snd (abs_submit req (edu_alpha e))"
  proof (cases ?full)
    case True
    then show ?thesis using full
      by (simp add: edu_ring_submit_def edu_ring_enqueue_full abs_submit_def)
  next
    case False
    let ?e = "snd (edu_ring_enqueue req e)"
    have e: "?e = e\<lparr>dma_virt := sq_put (dma_virt e) (unat (sq_tail e)) (sq_entry_of req),
        inflight := (inflight e)[unat (sq_tail e) := sub_opcode req],
        sq_tail := ring_next (sq_tail e), stat_sq_submitted := stat_sq_submitted e + 1\<rparr>"
      using False D by (simp add: edu_ring_enqueue_room)
    have cnt: "ring_count (ring_next (sq_tail e)) (cq_head e) = Suc (outstanding e)"
      using False D by (simp add: outstanding_def ring_count_next_tail)
    have dn: "cq_list ?e = cq_list e"
      using D(2) by (simp add: e cq_list_def cq_count_def)
    have "edu_alpha (snd (edu_ring_submit D req e)) = edu_alpha ?e"
      using False D
      by (simp add: edu_ring_submit_def edu_ring_enqueue_room edu_alpha_def outstanding_def)
    also have "\<dots> = snd (abs_submit req (edu_alpha e))"
      using False full D dn cnt
      by (auto simp: e abs_submit_def edu_alpha_def outstanding_def unat_ring_next fun_eq_iff
          busy_map_def nth_list_update split: if_splits)
    finally show ?thesis .
  qed
  show "fst (edu_ring_submit D req e) = fst (abs_submit req (edu_alpha e))"
    using full D
    by (cases ?full) (auto simp: edu_ring_submit_def edu_ring_enqueue_full edu_ring_enqueue_room
        edu_ring_kick_def abs_submit_def Let_def edu_ops)
qed

lemma find_busy: "List.find (\<lambda>i. ab_busy (edu_alpha e) i \<noteq> None) [0..<RING_SIZE] =
    (case busy_slots e of [] \<Rightarrow> None | i # _ \<Rightarrow> Some i)"
proof -
  have "List.find P xs = (case filter P xs of [] \<Rightarrow> None | i # _ \<Rightarrow> Some i)" for P and xs :: "nat list"
    by (induction xs) auto
  moreover have "filter (\<lambda>i. ab_busy (edu_alpha e) i \<noteq> None) [0..<RING_SIZE] = busy_slots e"
    by (auto simp: busy_slots_def edu_alpha_def busy_map_def intro!: filter_cong)
  ultimately show ?thesis by simp
qed

text \<open>The value the handler would read as a factorial's result.\<close>

definition irq_fact :: "'h mmio \<Rightarrow> 'h edu_dev \<Rightarrow> u32" where
  "irq_fact D e = fst (edu_readl D EDU_REG_FACT (irq_acked D e))"

lemma completion_of_abs:
  "completion_of D i (irq_acked D e) = abs_completion (irq_fact D e) (sq_get (dma_virt e) i)"
  by (simp add: completion_of_def abs_completion_def irq_fact_def edu_cqe_result_def)

lemma outstanding_irq [simp]: "outstanding (snd (edu_irq_handler D e)) = outstanding e"
  by (cases "irq_status D e = 0")
    (auto simp: edu_irq_handler_spurious edu_irq_handler_real outstanding_def split: list.splits)

lemma edu_alpha_irq:
  assumes inv: "ring_inv e"
  shows "edu_alpha (snd (edu_irq_handler D e)) =
    (if irq_status D e = 0 then edu_alpha e else abs_irq (irq_fact D e) (edu_alpha e))"
proof (cases "irq_status D e = 0")
  case True
  then show ?thesis by (simp add: edu_irq_handler_spurious edu_alpha_def outstanding_def)
next
  case False
  note D = ring_invD[OF inv]
  show ?thesis
  proof (cases "busy_slots e")
    case Nil
    then show ?thesis using False find_busy[of e]
      by (simp add: edu_irq_handler_real abs_irq_def) (simp add: edu_alpha_def outstanding_def)
  next
    case (Cons i rest)
    then have i: "i < RING_SIZE" "inflight e ! i \<noteq> 0" by (auto dest: busy_slotsD)
    have posts: "abs_posts (irq_fact D e) (edu_alpha e) = [completion_of D i (irq_acked D e)]"
      using Cons i find_busy[of e] by (simp add: abs_posts_def completion_of_abs) (simp add: edu_alpha_def busy_map_def)
    have dn: "cq_list (snd (edu_irq_handler D e)) = cq_list e @ [completion_of D i (irq_acked D e)]"
      using cq_list_irq[OF inv False] Cons by simp
    have busy: "ab_busy (edu_alpha (snd (edu_irq_handler D e))) = (ab_busy (edu_alpha e))(i := None)"
      using False Cons i D(5)
      by (auto simp: edu_irq_handler_real edu_alpha_def busy_map_def fun_eq_iff nth_list_update)
    have "sq_tail (snd (edu_irq_handler D e)) = sq_tail e"
      using False Cons by (simp add: edu_irq_handler_real)
    then show ?thesis
      using False Cons busy dn posts find_busy[of e]
      by (simp add: abs_irq_def) (simp add: edu_alpha_def)
  qed
qed

lemma edu_alpha_poll:
  assumes inv: "ring_inv e"
  shows "edu_alpha (snd (edu_poll_cq e)) = snd (abs_poll (edu_alpha e))"
    and "fst (edu_poll_cq e) = fst (abs_poll (edu_alpha e))"
proof -
  note D = ring_invD[OF inv]
  note spec = edu_poll_cq_spec[OF D(1)]
  show "fst (edu_poll_cq e) = fst (abs_poll (edu_alpha e))"
    by (auto simp: spec abs_poll_def edu_alpha_def split: list.splits)
  show "edu_alpha (snd (edu_poll_cq e)) = snd (abs_poll (edu_alpha e))"
  proof (cases "cq_list e")
    case Nil
    then show ?thesis by (simp add: spec abs_poll_def) (simp add: edu_alpha_def)
  next
    case (Cons c cs)
    then have ne: "\<not> cq_empty e" using cq.empty_iff[OF D(1)] by simp
    have "cq_count e > 0" using Cons length_cq_list[of e] by simp
    then have "outstanding e > 0" using D(6) by linarith
    then have "sq_tail e \<noteq> cq_head e" by (auto simp: outstanding_def)
    then have "Suc (outstanding (cq_advance e)) = outstanding e"
      using D by (simp add: outstanding_def cq_advance_def ring_count_next_head)
    moreover have "cq_list (cq_advance e) = cs"
      using cq.pop_contents[OF D(1) ne] Cons by simp
    moreover have "inflight (cq_advance e) = inflight e" "dma_virt (cq_advance e) = dma_virt e"
      "sq_tail (cq_advance e) = sq_tail e"
      by (simp_all add: cq_advance_def)
    ultimately show ?thesis
      using Cons outstanding_less[of e] by (auto simp: spec abs_poll_def edu_alpha_def)
  qed
qed

lemma edu_alpha_open: "edu_alpha (edu_open e) = abs_open (edu_alpha e)"
  by (auto simp: edu_alpha_def edu_open_def abs_open_def cq_list_def cq_count_def outstanding_def
      busy_map_def fun_eq_iff)

end
