(* ===== verification/Edu_Files.thy ===== *)
theory Edu_Files
  imports Edu_State
begin

text \<open>
  The file interfaces of the EDU driver beside its ioctls: the sysfs knob \<open>inject_fault\<close>, the
  debugfs file \<open>stats\<close>, and the \<open>poll\<close> and \<open>mmap\<close> operations of the character device. What the
  kernel computes for them is an argument: the parsed number of a sysfs write, the page frame of
  the slab and the answer of \<open>remap_pfn_range\<close>.
\<close>

section \<open>sysfs: fault injection\<close>

definition inject_fault_show :: "'h edu_dev \<Rightarrow> int" where
  "inject_fault_show e = sint (inject_fault e)"

definition inject_fault_store :: "errno + u32 \<Rightarrow> nat \<Rightarrow> 'h edu_dev \<Rightarrow> (errno + nat) \<times> 'h edu_dev" where
  "inject_fault_store parsed cnt e =
     (case parsed of
        Inl err \<Rightarrow> (Inl err, e)
      | Inr val \<Rightarrow>
          if val > 1 then (Inl EINVAL, e)
          else (Inr cnt, e\<lparr>inject_fault := val\<rparr>))"

section \<open>debugfs: the counters\<close>

text \<open>The lines of the file: a label and the number printed after it.\<close>

definition edu_dbgfs_stats_show :: "'h edu_dev \<Rightarrow> (string \<times> int) list" where
  "edu_dbgfs_stats_show e =
    [(''irq_total'', sint (stat_irq_total e)),
     (''sq_submitted'', sint (stat_sq_submitted e)),
     (''cq_posted'', sint (stat_cq_posted e)),
     (''cq_consumed'', sint (stat_cq_consumed e)),
     (''dma_errors'', sint (stat_dma_errors e)),
     (''factorial_ops'', sint (stat_factorial_ops e)),
     (''eventfd_signals'', sint (stat_eventfd_signals e)),
     (''ring_sq_tail'', uint (sq_tail e)),
     (''ring_cq_tail'', uint (cq_tail e)),
     (''ring_cq_head'', uint (cq_head e)),
     (''ring_inflight'', uint ((cq_tail e - cq_head e) AND RING_MASK))]"

definition edu_dbgfs_stats_write :: "nat \<Rightarrow> 'h edu_dev \<Rightarrow> nat \<times> 'h edu_dev" where
  "edu_dbgfs_stats_write cnt e =
     (cnt, e\<lparr>stat_irq_total := 0, stat_sq_submitted := 0, stat_cq_posted := 0, stat_cq_consumed := 0,
             stat_dma_errors := 0, stat_factorial_ops := 0, stat_eventfd_signals := 0\<rparr>)"

section \<open>poll and mmap\<close>

definition EPOLLIN :: u32 where "EPOLLIN = 0x001"
definition EPOLLRDNORM :: u32 where "EPOLLRDNORM = 0x040"

definition edu_poll :: "'h edu_dev \<Rightarrow> u32" where
  "edu_poll e = (let m = 0 in if cq_head e \<noteq> cq_tail e then m OR (EPOLLIN OR EPOLLRDNORM) else m)"

text \<open>
  \<open>remap\<close> is \<open>remap_pfn_range\<close> on the caller's area: it maps \<open>size\<close> bytes from page frame \<open>pfn\<close>
  on at a user address.
\<close>

definition edu_mmap :: "(u64 \<Rightarrow> u64 \<Rightarrow> u64 \<Rightarrow> ret) \<Rightarrow> u64 \<Rightarrow> u64 \<Rightarrow> u64 \<Rightarrow> ret" where
  "edu_mmap remap pfn vm_start vm_end =
     (let size = vm_end - vm_start
      in if size > of_nat DMA_BUF_TOTAL then Inl EINVAL else remap vm_start pfn size)"

lemma edu_dbgfs_stats_write_fields [simp]:
  "ring_inv (snd (edu_dbgfs_stats_write cnt e)) = ring_inv e"
  "dma_virt (snd (edu_dbgfs_stats_write cnt e)) = dma_virt e"
  "inflight (snd (edu_dbgfs_stats_write cnt e)) = inflight e"
  "sq_tail (snd (edu_dbgfs_stats_write cnt e)) = sq_tail e"
  "cq_tail (snd (edu_dbgfs_stats_write cnt e)) = cq_tail e"
  "cq_head (snd (edu_dbgfs_stats_write cnt e)) = cq_head e"
  "irq_done (snd (edu_dbgfs_stats_write cnt e)) = irq_done e"
  by (simp_all add: edu_dbgfs_stats_write_def)

lemma inject_fault_store_fields [simp]:
  "ring_inv (snd (inject_fault_store p cnt e)) = ring_inv e"
  "dma_virt (snd (inject_fault_store p cnt e)) = dma_virt e"
  "inflight (snd (inject_fault_store p cnt e)) = inflight e"
  "sq_tail (snd (inject_fault_store p cnt e)) = sq_tail e"
  "cq_tail (snd (inject_fault_store p cnt e)) = cq_tail e"
  "cq_head (snd (inject_fault_store p cnt e)) = cq_head e"
  "irq_done (snd (inject_fault_store p cnt e)) = irq_done e"
  by (simp_all add: inject_fault_store_def split: sum.splits)

end
