(* ===== verification/Edu_Events.thy ===== *)
theory Edu_Events
  imports Edu_Spec Edu_Files
begin

text \<open>
  Interleavings. An event is one atomic action on the device state: a critical section of the ring
  lock, the unlocked register writes of a submission, an interrupt, one of the two unlocked steps that
  register an eventfd,
  a write to the sysfs knob or to the debugfs file, a move of the device, a store into the slab by the device's DMA or through the user mapping.
  What every sequence of events keeps and delivers is proved here; the blocking ioctls wait while
  such a sequence runs.
\<close>

text \<open>
  The two steps of \<open>EDU_IOC_SET_EVENTFD\<close> once \<open>eventfd_ctx_fdget\<close> has answered with a context and a
  reference on it: the old context is put, then the new one is stored. No lock covers the two, so each
  is an event of its own.
\<close>

definition edu_eventfd_put :: "nat \<Rightarrow> 'h edu_dev \<Rightarrow> 'h edu_dev" where
  "edu_eventfd_put ctx e =
     (let e = e\<lparr>evt_log := evt_log e @ [EvtGet ctx]\<rparr>
      in case evt_ctx e of
           Some old \<Rightarrow> e\<lparr>evt_log := evt_log e @ [EvtPut old]\<rparr>
         | None \<Rightarrow> e)"

definition edu_eventfd_set :: "nat \<Rightarrow> 'h edu_dev \<Rightarrow> 'h edu_dev" where
  "edu_eventfd_set ctx e = e\<lparr>evt_ctx := Some ctx\<rparr>"

datatype 'h edu_event =
    EvEnqueue edu_submit_req
  | EvKick edu_submit_req
  | EvIrq
  | EvPoll
  | EvOpen
  | EvEventfdPut nat
  | EvEventfdSet nat
  | EvInject "errno + u32"
  | EvStatsReset
  | EvDevice 'h
  | EvStore nat "u8 list"

fun edu_do :: "'h mmio \<Rightarrow> 'h edu_event \<Rightarrow> 'h edu_dev \<Rightarrow> 'h edu_dev" where
  "edu_do D (EvEnqueue req) e = snd (edu_ring_enqueue req e)"
| "edu_do D (EvKick req) e = snd (edu_ring_kick D req e)"
| "edu_do D EvIrq e = snd (edu_irq_handler D e)"
| "edu_do D EvPoll e = snd (edu_poll_cq e)"
| "edu_do D EvOpen e = edu_open e"
| "edu_do D (EvEventfdPut ctx) e = edu_eventfd_put ctx e"
| "edu_do D (EvEventfdSet ctx) e = edu_eventfd_set ctx e"
| "edu_do D (EvInject p) e = snd (inject_fault_store p 0 e)"
| "edu_do D EvStatsReset e = snd (edu_dbgfs_stats_write 0 e)"
| "edu_do D (EvDevice h) e = e\<lparr>bar0 := h\<rparr>"
| "edu_do D (EvStore off bs) e = e\<lparr>dma_virt := mem_write (dma_virt e) off bs\<rparr>"

definition edu_events :: "'h mmio \<Rightarrow> 'h edu_event list \<Rightarrow> 'h edu_dev \<Rightarrow> 'h edu_dev" where
  "edu_events D evs e = fold (edu_do D) evs e"

lemma edu_events_simps [simp]:
  "edu_events D [] e = e"
  "edu_events D (ev # evs) e = edu_events D evs (edu_do D ev e)"
  by (simp_all add: edu_events_def)

lemma edu_events_append: "edu_events D (xs @ ys) e = edu_events D ys (edu_events D xs e)"
  by (simp add: edu_events_def)

text \<open>
  The whole registration: \<open>r\<close> is the answer of \<open>eventfd_ctx_fdget\<close>, and \<open>window\<close> what the other
  contexts, the handler among them, do between the two steps.
\<close>

definition edu_set_eventfd :: "'h mmio \<Rightarrow> 'h edu_event list \<Rightarrow> errno + nat \<Rightarrow> 'h edu_dev \<Rightarrow> ret \<times> 'h edu_dev" where
  "edu_set_eventfd D window r e =
     (case r of
        Inl err \<Rightarrow> (Inl err, e)
      | Inr ctx \<Rightarrow> (ok, edu_eventfd_set ctx (edu_events D window (edu_eventfd_put ctx e))))"

lemmas edu_eventfd_defs = edu_eventfd_put_def edu_eventfd_set_def

lemma edu_eventfd_put_fields [simp]:
  "ring_inv (edu_eventfd_put c e) = ring_inv e" "cq_list (edu_eventfd_put c e) = cq_list e"
  "dma_virt (edu_eventfd_put c e) = dma_virt e" "inflight (edu_eventfd_put c e) = inflight e"
  "sq_tail (edu_eventfd_put c e) = sq_tail e" "cq_tail (edu_eventfd_put c e) = cq_tail e"
  "cq_head (edu_eventfd_put c e) = cq_head e" "irq_done (edu_eventfd_put c e) = irq_done e"
  "evt_ctx (edu_eventfd_put c e) = evt_ctx e"
  "stat_cq_posted (edu_eventfd_put c e) = stat_cq_posted e"
  "stat_cq_consumed (edu_eventfd_put c e) = stat_cq_consumed e"
  "stat_sq_submitted (edu_eventfd_put c e) = stat_sq_submitted e"
  by (simp_all add: edu_eventfd_put_def Let_def split: option.splits)

lemma edu_eventfd_set_fields [simp]:
  "ring_inv (edu_eventfd_set c e) = ring_inv e" "cq_list (edu_eventfd_set c e) = cq_list e"
  "dma_virt (edu_eventfd_set c e) = dma_virt e" "inflight (edu_eventfd_set c e) = inflight e"
  "sq_tail (edu_eventfd_set c e) = sq_tail e" "cq_tail (edu_eventfd_set c e) = cq_tail e"
  "cq_head (edu_eventfd_set c e) = cq_head e" "irq_done (edu_eventfd_set c e) = irq_done e"
  "evt_log (edu_eventfd_set c e) = evt_log e" "evt_ctx (edu_eventfd_set c e) = Some c"
  "stat_cq_posted (edu_eventfd_set c e) = stat_cq_posted e"
  "stat_cq_consumed (edu_eventfd_set c e) = stat_cq_consumed e"
  "stat_sq_submitted (edu_eventfd_set c e) = stat_sq_submitted e"
  by (simp_all add: edu_eventfd_set_def cq_list_def cq_count_def)

lemma cq_list_files [simp]:
  "cq_list (snd (inject_fault_store p cnt e)) = cq_list e"
  "cq_list (snd (edu_dbgfs_stats_write cnt e)) = cq_list e"
  by (rule cq_list_cong; simp)+

section \<open>The ring invariant under every interleaving\<close>

lemma ring_inv_event: "ring_inv e \<Longrightarrow> ring_inv (edu_do D ev e)"
  by (cases ev) (simp_all add: ring_inv_enqueue ring_inv_irq ring_inv_poll ring_inv_open)

text \<open>Steps of the system, from the state the probe function leaves.\<close>

inductive edu_step :: "'h mmio \<Rightarrow> 'h edu_dev \<Rightarrow> 'h edu_dev \<Rightarrow> bool" for D :: "'h mmio" where
  edu_step: "edu_step D e (edu_do D ev e)"

inductive_cases edu_stepE: "edu_step D e e'"

definition edu_init :: "'h edu_dev \<Rightarrow> bool" where
  "edu_init e \<longleftrightarrow> (\<exists>h handle. e = edu_fresh h handle)"

interpretation edu_sys: inductive_invariant edu_init "edu_step D" ring_inv for D
  by unfold_locales (auto simp: edu_init_def ring_inv_fresh ring_inv_event elim!: edu_stepE)

lemma ring_inv_events: "ring_inv e \<Longrightarrow> ring_inv (edu_events D evs e)"
  by (induction evs arbitrary: e) (simp_all add: ring_inv_event)

lemma ring_inv_set_eventfd: "ring_inv e \<Longrightarrow> ring_inv (snd (edu_set_eventfd D window r e))"
  by (simp add: edu_set_eventfd_def ring_inv_events split: sum.split)

lemma edu_events_steps: "(edu_step D)\<^sup>*\<^sup>* e (edu_events D evs e)"
  by (induction evs arbitrary: e)
    (auto intro: converse_rtranclp_into_rtranclp edu_step.intros)

section \<open>Refinement of runs\<close>

text \<open>The abstract operation an event performs, with the device's answer resolved.\<close>

fun abs_event :: "'h mmio \<Rightarrow> 'h edu_dev \<Rightarrow> 'h edu_event \<Rightarrow> edu_abs \<Rightarrow> edu_abs" where
  "abs_event D e (EvEnqueue req) A = snd (abs_submit req A)"
| "abs_event D e EvIrq A = (if irq_status D e = 0 then A else abs_irq (irq_fact D e) A)"
| "abs_event D e EvPoll A = snd (abs_poll A)"
| "abs_event D e EvOpen A = abs_open A"
| "abs_event D e _ A = A"

fun abs_events :: "'h mmio \<Rightarrow> 'h edu_event list \<Rightarrow> 'h edu_dev \<Rightarrow> edu_abs \<Rightarrow> edu_abs" where
  "abs_events D [] e A = A"
| "abs_events D (ev # evs) e A = abs_events D evs (edu_do D ev e) (abs_event D e ev A)"

text \<open>
  A store into the slab, by the device's DMA, through a user mapping or by the driver's own DMA test,
  is \<open>apart\<close> from the \<open>n\<close> bytes at \<open>a\<close> when it touches none of them. Each event here
  leaves the entries of commands in flight, or those of unread completions, untouched by stores.
\<close>

definition apart :: "nat \<Rightarrow> nat \<Rightarrow> nat \<Rightarrow> 'a list \<Rightarrow> bool" where
  "apart a n off bs \<longleftrightarrow> a + n \<le> off \<or> off + length bs \<le> a"

fun spares_busy :: "'h edu_dev \<Rightarrow> 'h edu_event \<Rightarrow> bool" where
  "spares_busy e (EvStore off bs) \<longleftrightarrow> (\<forall>i\<in>set (busy_slots e). apart (sq_off i) ENTRY_SIZE off bs)"
| "spares_busy e _ \<longleftrightarrow> True"

fun spares_unread :: "'h edu_dev \<Rightarrow> 'h edu_event \<Rightarrow> bool" where
  "spares_unread e (EvStore off bs) \<longleftrightarrow>
     (\<forall>k\<in>{..<cq_count e}. apart (cq_off ((unat (cq_head e) + k) mod RING_SIZE)) ENTRY_SIZE off bs)"
| "spares_unread e _ \<longleftrightarrow> True"

text \<open>What each event of a run must satisfy in the state it finds.\<close>

fun along :: "('h edu_dev \<Rightarrow> 'h edu_event \<Rightarrow> bool) \<Rightarrow> 'h mmio \<Rightarrow> 'h edu_event list \<Rightarrow> 'h edu_dev \<Rightarrow> bool" where
  "along P D [] e \<longleftrightarrow> True"
| "along P D (ev # evs) e \<longleftrightarrow> P e ev \<and> along P D evs (edu_do D ev e)"

lemma cq_list_store:
  assumes "spares_unread e (EvStore off bs)"
  shows "cq_list (e\<lparr>dma_virt := mem_write (dma_virt e) off bs\<rparr>) = cq_list e"
  using assms
  by (auto simp: cq_list_def cq_count_def ring_list_def cq_get_def apart_def mem_read_write_disjoint)

lemma sq_get_store:
  "spares_busy e (EvStore off bs) \<Longrightarrow> i \<in> set (busy_slots e) \<Longrightarrow>
    sq_get (mem_write (dma_virt e) off bs) i = sq_get (dma_virt e) i"
  by (auto simp: sq_get_def apart_def mem_read_write_disjoint)

text \<open>The store of the zero-copy path into a slot that is not in flight is such a store.\<close>

lemma spares_free_slot:
  assumes "i < RING_SIZE" and "inflight e ! i = 0"
  shows "spares_busy e (EvStore (sq_off i) (sq_bytes s)) \<and> spares_unread e (EvStore (sq_off i) (sq_bytes s))"
proof
  have "apart (sq_off j) ENTRY_SIZE (sq_off i) (sq_bytes s)" if "j \<in> set (busy_slots e)" for j
    using that assms(2) slot_disjoint[of j i ENTRY_SIZE] by (auto simp: busy_slots_def apart_def sq_off_def)
  then show "spares_busy e (EvStore (sq_off i) (sq_bytes s))" by simp
  have "sq_off i + ENTRY_SIZE \<le> cq_off j" for j using assms(1) by (simp add: layout_simps)
  then show "spares_unread e (EvStore (sq_off i) (sq_bytes s))" by (simp add: apart_def)
qed

fun is_open :: "'h edu_event \<Rightarrow> bool" where
  "is_open EvOpen = True"
| "is_open _ = False"

lemma edu_alpha_other [simp]:
  "edu_alpha (e\<lparr>bar0 := h\<rparr>) = edu_alpha e"
  "edu_alpha (snd (edu_ring_kick D req e)) = edu_alpha e"
  "edu_alpha (edu_eventfd_put c e) = edu_alpha e"
  "edu_alpha (edu_eventfd_set c e) = edu_alpha e"
  "edu_alpha (snd (inject_fault_store p cnt e)) = edu_alpha e"
  "edu_alpha (snd (edu_dbgfs_stats_write cnt e)) = edu_alpha e"
  by (simp_all add: edu_alpha_def outstanding_def)

lemma edu_alpha_store:
  assumes "spares_busy e (EvStore off bs)" and "spares_unread e (EvStore off bs)"
  shows "edu_alpha (e\<lparr>dma_virt := mem_write (dma_virt e) off bs\<rparr>) = edu_alpha e"
proof -
  have "busy_map (inflight e) (mem_write (dma_virt e) off bs) = busy_map (inflight e) (dma_virt e)"
    using sq_get_store[OF assms(1)] by (auto simp: busy_map_def busy_slots_def fun_eq_iff)
  then show ?thesis using cq_list_store[OF assms(2)] by (simp add: edu_alpha_def outstanding_def)
qed

lemma edu_alpha_enqueue:
  assumes "ring_inv e"
  shows "edu_alpha (snd (edu_ring_enqueue req e)) = snd (abs_submit req (edu_alpha e))"
proof -
  have "edu_alpha (snd (edu_ring_submit D req e)) = edu_alpha (snd (edu_ring_enqueue req e))" for D :: "'a mmio"
    by (auto simp: edu_ring_submit_def split: prod.splits sum.splits)
  then show ?thesis using edu_alpha_submit(1)[OF assms] by metis
qed

lemma edu_alpha_event:
  "ring_inv e \<Longrightarrow> spares_busy e ev \<Longrightarrow> spares_unread e ev \<Longrightarrow>
    edu_alpha (edu_do D ev e) = abs_event D e ev (edu_alpha e)"
  by (cases ev)
    (simp_all add: edu_alpha_enqueue edu_alpha_irq edu_alpha_poll(1) edu_alpha_open edu_alpha_store)

lemma edu_alpha_events:
  "ring_inv e \<Longrightarrow> along (\<lambda>e ev. spares_busy e ev \<and> spares_unread e ev) D evs e \<Longrightarrow>
    edu_alpha (edu_events D evs e) = abs_events D evs e (edu_alpha e)"
  by (induction evs arbitrary: e) (simp_all add: edu_alpha_event ring_inv_event)

section \<open>The stream of completions\<close>

text \<open>What an interrupt posts and what a poll delivers, event by event.\<close>

fun event_posts :: "'h mmio \<Rightarrow> 'h edu_dev \<Rightarrow> 'h edu_event \<Rightarrow> cq_entry list" where
  "event_posts D e EvIrq = (if irq_status D e = 0 then [] else
     (case busy_slots e of [] \<Rightarrow> [] | i # _ \<Rightarrow> [completion_of D i (irq_acked D e)]))"
| "event_posts D e _ = []"

fun event_reads :: "'h edu_dev \<Rightarrow> 'h edu_event \<Rightarrow> edu_completion_req list" where
  "event_reads e EvPoll = (case fst (edu_poll_cq e) of Inl _ \<Rightarrow> [] | Inr c \<Rightarrow> [c])"
| "event_reads e _ = []"

fun run_posts :: "'h mmio \<Rightarrow> 'h edu_event list \<Rightarrow> 'h edu_dev \<Rightarrow> cq_entry list" where
  "run_posts D [] e = []"
| "run_posts D (ev # evs) e = event_posts D e ev @ run_posts D evs (edu_do D ev e)"

fun run_reads :: "'h mmio \<Rightarrow> 'h edu_event list \<Rightarrow> 'h edu_dev \<Rightarrow> edu_completion_req list" where
  "run_reads D [] e = []"
| "run_reads D (ev # evs) e = event_reads e ev @ run_reads D evs (edu_do D ev e)"

text \<open>A completion leaves the queue when a poll returns it, or unread, when an open resets the queue.\<close>

datatype fate = Returned edu_completion_req | Discarded edu_completion_req

fun fated :: "fate \<Rightarrow> edu_completion_req" where
  "fated (Returned c) = c"
| "fated (Discarded c) = c"

fun is_returned :: "fate \<Rightarrow> bool" where
  "is_returned (Returned c) = True"
| "is_returned (Discarded c) = False"

definition report :: "cq_entry \<Rightarrow> edu_completion_req" where
  "report c = \<lparr>cr_tag = cq_tag c, cr_status = cq_status c, cr_pad = 0, cr_result = cq_result c\<rparr>"

fun event_fates :: "'h edu_dev \<Rightarrow> 'h edu_event \<Rightarrow> fate list" where
  "event_fates e EvOpen = map (\<lambda>c. Discarded (report c)) (cq_list e)"
| "event_fates e ev = map Returned (event_reads e ev)"

fun run_fates :: "'h mmio \<Rightarrow> 'h edu_event list \<Rightarrow> 'h edu_dev \<Rightarrow> fate list" where
  "run_fates D [] e = []"
| "run_fates D (ev # evs) e = event_fates e ev @ run_fates D evs (edu_do D ev e)"

lemma run_reads_fates: "run_reads D evs e = map fated (filter is_returned (run_fates D evs e))"
proof (induction evs arbitrary: e)
  case (Cons ev evs)
  have "event_reads e ev = map fated (filter is_returned (event_fates e ev))"
    by (cases ev) (simp_all add: filter_map comp_def)
  then show ?case using Cons by simp
qed simp

lemma run_fates_returned:
  "list_all (\<lambda>ev. \<not> is_open ev) evs \<Longrightarrow> list_all is_returned (run_fates D evs e)"
proof (induction evs arbitrary: e)
  case (Cons ev evs)
  then have "list_all is_returned (event_fates e ev)" by (cases ev) (simp_all add: list_all_iff)
  then show ?case using Cons by simp
qed simp

lemma cq_list_open [simp]: "cq_list (edu_open e) = []"
  by (simp add: cq_list_def cq_count_def edu_open_def ring_list_def)

lemma cq_list_enqueue [simp]:
  assumes "ring_inv e"
  shows "cq_list (snd (edu_ring_enqueue req e)) = cq_list e"
  using ring_invD[OF assms]
  by (cases "ring_full (sq_tail e) (cq_head e)")
    (simp_all add: edu_ring_enqueue_full edu_ring_enqueue_room cq_list_def cq_count_def)

lemma cq_list_event:
  assumes inv: "ring_inv e" and "spares_unread e ev"
  shows "map report (cq_list e @ event_posts D e ev) =
    map fated (event_fates e ev) @ map report (cq_list (edu_do D ev e))"
proof (cases ev)
  case EvIrq
  then show ?thesis using cq_list_irq[OF inv, of D]
    by (cases "irq_status D e = 0") (simp_all add: edu_irq_handler_spurious)
next
  case EvPoll
  note wf = ring_invD(1)[OF inv]
  show ?thesis
    using EvPoll cq.empty_iff[OF wf] cq.pop_contents[OF wf]
    by (cases "cq_list e") (simp_all add: edu_poll_cq_spec[OF wf] report_def)
next
  case (EvStore off bs)
  then show ?thesis using cq_list_store[of e off bs] assms(2) by simp
qed (use inv in \<open>simp_all add: comp_def\<close>)

lemma cq_stream:
  assumes "ring_inv e" and "along spares_unread D evs e"
  shows "map report (cq_list e @ run_posts D evs e) =
    map fated (run_fates D evs e) @ map report (cq_list (edu_events D evs e))"
  using assms
proof (induction evs arbitrary: e)
  case Nil
  then show ?case by simp
next
  case (Cons ev evs)
  let ?e = "edu_do D ev e"
  have "map report (cq_list e @ run_posts D (ev # evs) e) =
      map fated (event_fates e ev) @ map report (cq_list ?e @ run_posts D evs ?e)"
    using cq_list_event[OF Cons.prems(1), of ev D] Cons.prems(2) by simp
  also have "\<dots> = map fated (event_fates e ev) @ map fated (run_fates D evs ?e) @
      map report (cq_list (edu_events D evs ?e))"
    using Cons.IH[of ?e] Cons.prems ring_inv_event[of e D ev] by simp
  finally show ?case by simp
qed

end
