(* ===== verification/Edu_Legacy.thy ===== *)
theory Edu_Legacy
  imports Edu_Events
begin

text \<open>
  The blocking operations of the EDU driver: \<open>edu_wait_irq\<close>, \<open>edu_run_factorial\<close> and
  \<open>edu_run_dma_test\<close>. The per-device mutex keeps two of them apart, but not from the ring
  operations, the interrupt handler and the device, so each takes the events of the other contexts
  as arguments: those between the start of the device and the call of \<open>edu_wait_irq\<close>, and those
  until the waiter resumes or its second is over.
\<close>

section \<open>Waiting for the interrupt\<close>

text \<open>
  \<open>complete_all\<close> leaves the completion done until the next \<open>reinit_completion\<close>, which only this
  function calls: the wait succeeds iff it is done when the events are over.
\<close>

definition edu_wait_irq :: "'h mmio \<Rightarrow> 'h edu_event list \<Rightarrow> 'h edu_dev \<Rightarrow> ret \<times> 'h edu_dev" where
  "edu_wait_irq D during e =
     (let e = e\<lparr>irq_done := False\<rparr>;
          e = edu_events D during e
      in if \<not> irq_done e then (Inl ETIMEDOUT, e) else (ok, e))"

section \<open>The factorial ioctl\<close>

definition edu_run_factorial ::
    "'h mmio \<Rightarrow> 'h edu_event list \<Rightarrow> 'h edu_event list \<Rightarrow> edu_fact_req \<Rightarrow> 'h edu_dev \<Rightarrow>
      (errno + edu_fact_req) \<times> 'h edu_dev" where
  "edu_run_factorial D before during req e =
     (let e = e\<lparr>last_fact_in := fr_input req, last_irq := 0,
                stat_factorial_ops := stat_factorial_ops e + 1\<rparr>;
          e = edu_writel D EDU_REG_STATUS EDU_STATUS_IRQ_EN e;
          e = edu_writel D EDU_REG_FACT (fr_input req) e;
          e = edu_events D before e;
          (ret, e) = edu_wait_irq D during e
      in case ret of
           Inl err \<Rightarrow> (Inl err, e)
         | Inr _ \<Rightarrow>
             (let (v, e) = edu_readl D EDU_REG_FACT e;
                  req = req\<lparr>fr_output := v, fr_irq_status := last_irq e\<rparr>
              in (Inr req, e\<lparr>last_fact_out := v\<rparr>)))"

section \<open>The DMA test ioctl\<close>

definition edu_dma_pattern :: "u8 list" where
  "edu_dma_pattern =
    [0x45,0x44,0x55,0x20,0x44,0x4d,0x41,0x20,
     0x72,0x6f,0x75,0x6e,0x64,0x74,0x72,0x69,
     0x70,0x20,0x74,0x65,0x73,0x74,0x20,0x70,
     0x61,0x74,0x74,0x65,0x72,0x6e,0x20,0x31,
     0x32,0x33,0x34,0x35,0x36,0x37,0x38,0x39,
     0x30,0x61,0x62,0x63,0x64,0x65,0x66,0x67,
     0x68,0x69,0x6a,0x6b,0x6c,0x6d,0x6e,0x6f,
     0x70,0x71,0x72,0x73,0x74,0x75,0x76,0x77]"

lemma length_edu_dma_pattern [simp]: "length edu_dma_pattern = EDU_DMA_TEST_LEN"
  by (simp add: edu_dma_pattern_def EDU_DMA_TEST_LEN_def)

text \<open>The two legs: RAM to device, device to RAM; then the comparison and the fault injection.\<close>

definition edu_dma_out :: "'h mmio \<Rightarrow> 'h edu_dev \<Rightarrow> 'h edu_dev" where
  "edu_dma_out D e =
     (let e = e\<lparr>dma_virt := mem_write (dma_virt e) 0 edu_dma_pattern\<rparr>;
          e = e\<lparr>last_irq := 0\<rparr>;
          e = edu_writel D EDU_REG_STATUS 0 e;
          e = edu_writeq D EDU_REG_DMA_SRC (dma_handle e) e;
          e = edu_writeq D EDU_REG_DMA_DST EDU_DMA_BUF_OFFSET e;
          e = edu_writeq D EDU_REG_DMA_CNT (of_nat EDU_DMA_TEST_LEN) e
      in edu_writel D EDU_REG_DMA_CMD (EDU_DMA_CMD_START OR EDU_DMA_CMD_IRQ) e)"

definition edu_dma_back :: "'h mmio \<Rightarrow> 'h edu_dev \<Rightarrow> 'h edu_dev" where
  "edu_dma_back D e =
     (let e = e\<lparr>dma_virt := mem_set (dma_virt e) 0 0 EDU_DMA_TEST_LEN\<rparr>;
          e = e\<lparr>last_irq := 0\<rparr>;
          e = edu_writeq D EDU_REG_DMA_SRC EDU_DMA_BUF_OFFSET e;
          e = edu_writeq D EDU_REG_DMA_DST (dma_handle e) e;
          e = edu_writeq D EDU_REG_DMA_CNT (of_nat EDU_DMA_TEST_LEN) e
      in edu_writel D EDU_REG_DMA_CMD (EDU_DMA_CMD_START OR EDU_DMA_CMD_DIR OR EDU_DMA_CMD_IRQ) e)"

definition edu_dma_check :: "'h edu_dev \<Rightarrow> ret \<times> 'h edu_dev" where
  "edu_dma_check e =
     (if mem_read (dma_virt e) 0 EDU_DMA_TEST_LEN \<noteq> edu_dma_pattern then
        (Inl EIO, e\<lparr>stat_dma_errors := stat_dma_errors e + 1\<rparr>)
      else if inject_fault e = 1 then
        (Inl EIO, e\<lparr>inject_fault := 0, stat_dma_errors := stat_dma_errors e + 1\<rparr>)
      else (ok, e\<lparr>dma_ok := 1\<rparr>))"

definition edu_run_dma_test ::
    "'h mmio \<Rightarrow> 'h edu_event list \<times> 'h edu_event list \<Rightarrow> 'h edu_event list \<times> 'h edu_event list \<Rightarrow>
      'h edu_dev \<Rightarrow> ret \<times> 'h edu_dev" where
  "edu_run_dma_test D w1 w2 e =
     (let e = edu_dma_out D e;
          e = edu_events D (fst w1) e;
          (ret, e) = edu_wait_irq D (snd w1) e
      in case ret of
           Inl err \<Rightarrow> (Inl err, e)
         | Inr _ \<Rightarrow>
             (let e = edu_dma_back D e;
                  e = edu_events D (fst w2) e;
                  (ret, e) = edu_wait_irq D (snd w2) e
              in case ret of
                   Inl err \<Rightarrow> (Inl err, e)
                 | Inr _ \<Rightarrow> edu_dma_check e))"

section \<open>When a wait succeeds\<close>

text \<open>An event completes a wait iff it is an interrupt whose status register is not zero.\<close>

fun completes :: "'h mmio \<Rightarrow> 'h edu_dev \<Rightarrow> 'h edu_event \<Rightarrow> bool" where
  "completes D e EvIrq = (irq_status D e \<noteq> 0)"
| "completes D e _ = False"

fun some_completes :: "'h mmio \<Rightarrow> 'h edu_dev \<Rightarrow> 'h edu_event list \<Rightarrow> bool" where
  "some_completes D e [] = False"
| "some_completes D e (ev # evs) = (completes D e ev \<or> some_completes D (edu_do D ev e) evs)"

lemma irq_done_enqueue [simp]: "irq_done (snd (edu_ring_enqueue req e)) = irq_done e"
  by (simp add: edu_ring_enqueue_def Let_def)

lemma irq_done_kick [simp]: "irq_done (snd (edu_ring_kick D req e)) = irq_done e"
  by (subst edu_ring_kick_snd) simp

lemma irq_done_irq: "irq_done (snd (edu_irq_handler D e)) \<longleftrightarrow> irq_done e \<or> irq_status D e \<noteq> 0"
  by (cases "irq_status D e = 0") (simp_all add: edu_irq_handler_spurious edu_irq_handler_real)

lemma irq_done_poll [simp]: "irq_done (snd (edu_poll_cq e)) = irq_done e"
  by (simp add: edu_poll_cq_def cq_advance_def Let_def)

lemma irq_done_do: "irq_done (edu_do D ev e) \<longleftrightarrow> irq_done e \<or> completes D e ev"
  by (cases ev) (simp_all add: irq_done_irq edu_open_def)

lemma irq_done_events: "irq_done (edu_events D evs e) \<longleftrightarrow> irq_done e \<or> some_completes D e evs"
  by (induction evs arbitrary: e) (auto simp: irq_done_do)

lemma edu_wait_irq_eq:
  "edu_wait_irq D during e =
    (if some_completes D (e\<lparr>irq_done := False\<rparr>) during then ok else Inl ETIMEDOUT,
     edu_events D during (e\<lparr>irq_done := False\<rparr>))"
  by (simp add: edu_wait_irq_def irq_done_events Let_def)

lemma ring_inv_wait: "ring_inv e \<Longrightarrow> ring_inv (snd (edu_wait_irq D during e))"
  by (simp add: edu_wait_irq_eq ring_inv_events)

text \<open>The state in which the factorial ioctl starts to wait.\<close>

definition fact_started :: "'h mmio \<Rightarrow> 'h edu_event list \<Rightarrow> edu_fact_req \<Rightarrow> 'h edu_dev \<Rightarrow> 'h edu_dev" where
  "fact_started D before req e =
     (edu_events D before
       (edu_writel D EDU_REG_FACT (fr_input req) (edu_writel D EDU_REG_STATUS EDU_STATUS_IRQ_EN
         (e\<lparr>last_fact_in := fr_input req, last_irq := 0, stat_factorial_ops := stat_factorial_ops e + 1\<rparr>))))
     \<lparr>irq_done := False\<rparr>"

lemma edu_run_factorial_eq:
  "edu_run_factorial D before during req e =
    (let s = edu_events D during (fact_started D before req e) in
     if some_completes D (fact_started D before req e) during
     then (Inr (req\<lparr>fr_output := fst (edu_readl D EDU_REG_FACT s), fr_irq_status := last_irq s\<rparr>),
           (snd (edu_readl D EDU_REG_FACT s))\<lparr>last_fact_out := fst (edu_readl D EDU_REG_FACT s)\<rparr>)
     else (Inl ETIMEDOUT, s))"
  by (simp add: edu_run_factorial_def edu_wait_irq_eq fact_started_def Let_def split_def edu_readl_snd)

end
