(* ===== verification/Edu_Ioctl.thy ===== *)
theory Edu_Ioctl
  imports Edu_Legacy
begin

text \<open>
  The ioctl dispatcher \<open>edu_ioctl\<close> of the EDU driver. What the caller's memory answers is an
  argument: the structure \<open>copy_from_user\<close> would read at \<open>arg\<close> (none: it faults), whether
  \<open>copy_to_user\<close> would succeed, the answer of \<open>eventfd_ctx_fdget\<close>, and, for the two blocking
  commands and for a registration of an eventfd, the events of the other contexts: those of
  \<open>fst (u_wait1 u)\<close> come before the wait, or between the two steps of the registration. The structure copied out is a result.
\<close>

record 'h edu_user =
  u_fact :: "edu_fact_req option"
  u_submit :: "edu_submit_req option"
  u_fd :: "int option"
  u_writable :: bool
  u_fdget :: "int \<Rightarrow> errno + nat"
  u_wait1 :: "'h edu_event list \<times> 'h edu_event list"
  u_wait2 :: "'h edu_event list \<times> 'h edu_event list"

datatype edu_out =
    OutNone
  | OutFact edu_fact_req
  | OutState edu_state_req
  | OutCompletion edu_completion_req

definition edu_get_state :: "'h edu_dev \<Rightarrow> edu_state_req" where
  "edu_get_state e = \<lparr>sr_last_irq = last_irq e, sr_last_fact_in = last_fact_in e,
     sr_last_fact_out = last_fact_out e, sr_dma_ok = dma_ok e\<rparr>"

definition edu_ioctl :: "'h mmio \<Rightarrow> 'h edu_user \<Rightarrow> u32 \<Rightarrow> 'h edu_dev \<Rightarrow> ret \<times> edu_out \<times> 'h edu_dev" where
  "edu_ioctl D u cmd e =
     (if cmd = EDU_IOC_RUN_FACTORIAL then
        (case u_fact u of
           None \<Rightarrow> (Inl EFAULT, OutNone, e)
         | Some req \<Rightarrow>
             (case edu_run_factorial D (fst (u_wait1 u)) (snd (u_wait1 u)) req e of
                (Inl _, e) \<Rightarrow> (Inl ETIMEDOUT, OutNone, e)
              | (Inr req, e) \<Rightarrow>
                  if \<not> u_writable u then (Inl EFAULT, OutNone, e) else (ok, OutFact req, e)))
      else if cmd = EDU_IOC_RUN_DMA_TEST then
        (let (ret, e) = edu_run_dma_test D (u_wait1 u) (u_wait2 u) e in (ret, OutNone, e))
      else if cmd = EDU_IOC_GET_STATE then
        (if \<not> u_writable u then (Inl EFAULT, OutNone, e) else (ok, OutState (edu_get_state e), e))
      else if cmd = EDU_IOC_SUBMIT then
        (case u_submit u of
           None \<Rightarrow> (Inl EFAULT, OutNone, e)
         | Some req \<Rightarrow> (let (ret, e) = edu_ring_submit D req e in (ret, OutNone, e)))
      else if cmd = EDU_IOC_POLL_CQ then
        (case edu_poll_cq e of
           (Inl err, e) \<Rightarrow> (Inl err, OutNone, e)
         | (Inr out, e) \<Rightarrow>
             if \<not> u_writable u then (Inl EFAULT, OutNone, e) else (ok, OutCompletion out, e))
      else if cmd = EDU_IOC_SET_EVENTFD then
        (case u_fd u of
           None \<Rightarrow> (Inl EFAULT, OutNone, e)
         | Some fd \<Rightarrow> (let (ret, e) = edu_set_eventfd D (fst (u_wait1 u)) (u_fdget u fd) e in (ret, OutNone, e)))
      else (Inl ENOTTY, OutNone, e))"

text \<open>The branch of each command, and of every other number.\<close>

lemma edu_ioctl_factorial:
  "edu_ioctl D u EDU_IOC_RUN_FACTORIAL e = (case u_fact u of None \<Rightarrow> (Inl EFAULT, OutNone, e)
     | Some req \<Rightarrow> (let (r, e) = edu_run_factorial D (fst (u_wait1 u)) (snd (u_wait1 u)) req e in
         case r of Inl _ \<Rightarrow> (Inl ETIMEDOUT, OutNone, e)
         | Inr req \<Rightarrow> if \<not> u_writable u then (Inl EFAULT, OutNone, e) else (ok, OutFact req, e)))"
  by (simp add: edu_ioctl_def split: option.splits prod.splits sum.splits)

lemma edu_ioctl_dma_test:
  "edu_ioctl D u EDU_IOC_RUN_DMA_TEST e = (fst (edu_run_dma_test D (u_wait1 u) (u_wait2 u) e), OutNone,
     snd (edu_run_dma_test D (u_wait1 u) (u_wait2 u) e))"
  by (simp add: edu_ioctl_def edu_ioc_values split_def Let_def)

lemma edu_ioctl_get_state:
  "edu_ioctl D u EDU_IOC_GET_STATE e =
    (if u_writable u then (ok, OutState (edu_get_state e), e) else (Inl EFAULT, OutNone, e))"
  by (simp add: edu_ioctl_def edu_ioc_values)

lemma edu_ioctl_submit:
  "edu_ioctl D u EDU_IOC_SUBMIT e = (case u_submit u of None \<Rightarrow> (Inl EFAULT, OutNone, e)
     | Some req \<Rightarrow> (fst (edu_ring_submit D req e), OutNone, snd (edu_ring_submit D req e)))"
  by (simp add: edu_ioctl_def edu_ioc_values split_def Let_def split: option.split)

lemma edu_ioctl_poll:
  "edu_ioctl D u EDU_IOC_POLL_CQ e = (case fst (edu_poll_cq e) of
       Inl err \<Rightarrow> (Inl err, OutNone, snd (edu_poll_cq e))
     | Inr c \<Rightarrow> (if u_writable u then ok else Inl EFAULT,
                 if u_writable u then OutCompletion c else OutNone, snd (edu_poll_cq e)))"
  by (simp add: edu_ioctl_def edu_ioc_values split: prod.splits sum.splits)

lemma edu_ioctl_eventfd:
  "edu_ioctl D u EDU_IOC_SET_EVENTFD e = (case u_fd u of None \<Rightarrow> (Inl EFAULT, OutNone, e)
     | Some fd \<Rightarrow> (fst (edu_set_eventfd D (fst (u_wait1 u)) (u_fdget u fd) e), OutNone,
         snd (edu_set_eventfd D (fst (u_wait1 u)) (u_fdget u fd) e)))"
  by (simp add: edu_ioctl_def edu_ioc_values split_def Let_def split: option.split)

definition edu_commands :: "u32 list" where
  "edu_commands = [EDU_IOC_RUN_FACTORIAL, EDU_IOC_RUN_DMA_TEST, EDU_IOC_GET_STATE, EDU_IOC_SUBMIT,
     EDU_IOC_POLL_CQ, EDU_IOC_SET_EVENTFD]"

lemma edu_ioctl_unknown: "cmd \<notin> set edu_commands \<Longrightarrow> edu_ioctl D u cmd e = (Inl ENOTTY, OutNone, e)"
  by (simp add: edu_ioctl_def edu_commands_def)

lemmas edu_ioctl_cmds = edu_ioctl_factorial edu_ioctl_dma_test edu_ioctl_get_state
  edu_ioctl_submit edu_ioctl_poll edu_ioctl_eventfd

lemma ring_inv_factorial: "ring_inv e \<Longrightarrow> ring_inv (snd (edu_run_factorial D before during req e))"
  by (auto simp: edu_run_factorial_eq fact_started_def edu_writel_def edu_readl_snd Let_def
      intro!: ring_inv_events)

lemma ring_inv_dma_test: "ring_inv e \<Longrightarrow> ring_inv (snd (edu_run_dma_test D w1 w2 e))"
  by (auto simp: edu_run_dma_test_def edu_wait_irq_eq edu_dma_out_def edu_dma_back_def
      edu_dma_check_def edu_writel_def edu_writeq_def Let_def intro!: ring_inv_events)

lemma ring_inv_ioctl:
  assumes inv: "ring_inv e"
  shows "ring_inv (snd (snd (edu_ioctl D u cmd e)))"
proof (cases "cmd \<in> set edu_commands")
  case False
  then show ?thesis using inv by (simp add: edu_ioctl_unknown)
next
  case True
  then consider "cmd = EDU_IOC_RUN_FACTORIAL" | "cmd = EDU_IOC_RUN_DMA_TEST"
    | "cmd = EDU_IOC_GET_STATE" | "cmd = EDU_IOC_SUBMIT" | "cmd = EDU_IOC_POLL_CQ"
    | "cmd = EDU_IOC_SET_EVENTFD"
    by (auto simp: edu_commands_def)
  then show ?thesis
    by cases (use inv in \<open>simp_all add: edu_ioctl_cmds split_def ring_inv_factorial ring_inv_dma_test
      ring_inv_submit ring_inv_poll ring_inv_set_eventfd Let_def split: option.splits sum.splits\<close>)
qed

end
