(* ===== verification/Resources.thy ===== *)
theory Resources
  imports Pcie_Prelude
begin

text \<open>
  Kernel resources a probe function acquires and an error path or a remove function gives back:
  the log of the two kinds of calls, what is held after a log (undefined when a resource is given
  back that is not held), and the stricter discipline of giving back in reverse order.
\<close>

datatype 'r rop = Acquire 'r | Release 'r

fun holds :: "'r list \<Rightarrow> 'r rop list \<Rightarrow> 'r list option" where
  "holds h [] = Some h"
| "holds h (Acquire r # ops) = holds (r # h) ops"
| "holds h (Release r # ops) = (if r \<in> set h then holds (remove1 r h) ops else None)"

fun lifo :: "'r list \<Rightarrow> 'r rop list \<Rightarrow> 'r list option" where
  "lifo h [] = Some h"
| "lifo h (Acquire r # ops) = lifo (r # h) ops"
| "lifo [] (Release r # ops) = None"
| "lifo (x # h) (Release r # ops) = (if x = r then lifo h ops else None)"

lemma holds_append:
  "holds h (xs @ ys) = (case holds h xs of None \<Rightarrow> None | Some h' \<Rightarrow> holds h' ys)"
  by (induction h xs rule: holds.induct) auto

lemma lifo_append:
  "lifo h (xs @ ys) = (case lifo h xs of None \<Rightarrow> None | Some h' \<Rightarrow> lifo h' ys)"
  by (induction h xs rule: lifo.induct) auto

lemma lifo_holds: "lifo h ops = Some h' \<Longrightarrow> holds h ops = Some h'"
  by (induction h ops rule: lifo.induct) (auto split: if_splits)

text \<open>
  A user of some resources, an interrupt handler for one, runs while another resource \<open>r\<close> is
  held: at no point of the log may \<open>r\<close> be held without the resources \<open>needs\<close>.
\<close>

fun guarded :: "'r \<Rightarrow> 'r list \<Rightarrow> 'r list \<Rightarrow> 'r rop list \<Rightarrow> bool" where
  "guarded r needs h [] = (r \<in> set h \<longrightarrow> set needs \<subseteq> set h)"
| "guarded r needs h (Acquire x # ops) =
     ((r \<in> set h \<longrightarrow> set needs \<subseteq> set h) \<and> guarded r needs (x # h) ops)"
| "guarded r needs h (Release x # ops) =
     ((r \<in> set h \<longrightarrow> set needs \<subseteq> set h) \<and> guarded r needs (remove1 x h) ops)"

end
