(* ===== verification/Edu_Probe.thy ===== *)
theory Edu_Probe
  imports Edu_Events Resources
begin

text \<open>
  \<open>edu_probe\<close> and \<open>edu_remove\<close>: what the driver acquires from the kernel, and what its error path
  and its remove function give back. The answers of the kernel's services are the argument \<open>env\<close>;
  the log of the acquiring and releasing calls is a result. The resources are ordered as the probe
  function acquires them.
\<close>

datatype edu_res =
    R_mem | R_enable | R_regions | R_iomap | R_dma | R_vectors | R_irq | R_misc | R_debugfs
  | R_sysfs | R_eventfd

fun edu_res_rank :: "edu_res \<Rightarrow> nat" where
  "edu_res_rank R_mem = 0"
| "edu_res_rank R_enable = 1"
| "edu_res_rank R_regions = 2"
| "edu_res_rank R_iomap = 3"
| "edu_res_rank R_dma = 4"
| "edu_res_rank R_vectors = 5"
| "edu_res_rank R_irq = 6"
| "edu_res_rank R_misc = 7"
| "edu_res_rank R_debugfs = 8"
| "edu_res_rank R_sysfs = 9"
| "edu_res_rank R_eventfd = 10"

lemma edu_res_rank_inj: "edu_res_rank r = edu_res_rank s \<Longrightarrow> r = s"
  by (cases r; cases s; simp)

instantiation edu_res :: linorder
begin

definition less_eq_edu_res :: "edu_res \<Rightarrow> edu_res \<Rightarrow> bool" where
  "less_eq_edu_res r s \<longleftrightarrow> edu_res_rank r \<le> edu_res_rank s"

definition less_edu_res :: "edu_res \<Rightarrow> edu_res \<Rightarrow> bool" where
  "less_edu_res r s \<longleftrightarrow> edu_res_rank r < edu_res_rank s"

instance
  by standard (auto simp: less_eq_edu_res_def less_edu_res_def intro: edu_res_rank_inj)

end

lemmas edu_res_order = less_eq_edu_res_def less_edu_res_def

section \<open>Probe\<close>

record edu_probe_env =
  pe_kzalloc :: bool
  pe_enable :: int
  pe_regions :: int
  pe_mask :: int
  pe_iomap :: bool
  pe_dma :: bool
  pe_vectors :: int
  pe_request_irq :: int
  pe_misc :: int
  pe_debugfs :: bool
  pe_sysfs :: int

text \<open>The labels of the error path, each falling through to the next.\<close>

definition err_free :: "edu_res rop list" where
  "err_free = [Release R_mem]"
definition err_disable :: "edu_res rop list" where
  "err_disable = Release R_enable # err_free"
definition err_release :: "edu_res rop list" where
  "err_release = Release R_regions # err_disable"
definition err_iounmap :: "edu_res rop list" where
  "err_iounmap = Release R_iomap # err_release"
definition err_dma_free :: "edu_res rop list" where
  "err_dma_free = Release R_dma # err_iounmap"
definition err_irq_vecs :: "edu_res rop list" where
  "err_irq_vecs = Release R_vectors # err_dma_free"
definition err_irq :: "edu_res rop list" where
  "err_irq = Release R_irq # err_irq_vecs"

lemmas edu_err_labels = err_free_def err_disable_def err_release_def err_iounmap_def
  err_dma_free_def err_irq_vecs_def err_irq_def

text \<open>
  \<open>edu_debugfs_init\<close>: what it acquires and whether \<open>e->dbgfs_dir\<close> is set; \<open>created\<close> is the answer of
  \<open>debugfs_create_dir\<close>. On success the device state is the fresh one, with that flag. A failing \<open>sysfs_create_group\<close> is only logged.
\<close>

definition edu_debugfs_init :: "bool \<Rightarrow> edu_res rop list \<times> bool" where
  "edu_debugfs_init created = (if created then ([Acquire R_debugfs], True) else ([], False))"

definition edu_probe ::
    "edu_probe_env \<Rightarrow> 'h \<Rightarrow> u64 \<Rightarrow> ret \<times> edu_res rop list \<times> ('h edu_dev \<times> bool) option" where
  "edu_probe env h handle =
    (if \<not> pe_kzalloc env then (Inl ENOMEM, [], None)
     else let l = [Acquire R_mem] in
     if pe_enable env \<noteq> 0 then (Inl (Kerr (pe_enable env)), l @ err_free, None)
     else let l = l @ [Acquire R_enable] in
     if pe_regions env \<noteq> 0 then (Inl (Kerr (pe_regions env)), l @ err_disable, None)
     else let l = l @ [Acquire R_regions] in
     if pe_mask env \<noteq> 0 then (Inl (Kerr (pe_mask env)), l @ err_release, None)
     else if \<not> pe_iomap env then (Inl ENOMEM, l @ err_release, None)
     else let l = l @ [Acquire R_iomap] in
     if \<not> pe_dma env then (Inl ENOMEM, l @ err_iounmap, None)
     else let l = l @ [Acquire R_dma] in
     if pe_vectors env < 0 then (Inl (Kerr (pe_vectors env)), l @ err_dma_free, None)
     else let l = l @ [Acquire R_vectors] in
     if pe_request_irq env \<noteq> 0 then (Inl (Kerr (pe_request_irq env)), l @ err_irq_vecs, None)
     else let l = l @ [Acquire R_irq] in
     if pe_misc env \<noteq> 0 then (Inl (Kerr (pe_misc env)), l @ err_irq, None)
     else let l = l @ [Acquire R_misc];
              (dl, dbgfs_dir) = edu_debugfs_init (pe_debugfs env);
              l = l @ dl;
              l = (if pe_sysfs env = 0 then l @ [Acquire R_sysfs] else l)
          in (ok, l, Some (edu_fresh h handle, dbgfs_dir)))"

section \<open>Remove\<close>

text \<open>
  \<open>edu_debugfs_remove\<close> does nothing without the directory; \<open>sysfs_remove_group\<close> is called
  whatever \<open>sysfs_create_group\<close> answered. \<open>dma_virt\<close> and \<open>bar0\<close> are not null after a probe.
\<close>

definition edu_debugfs_remove :: "bool \<Rightarrow> edu_res rop list" where
  "edu_debugfs_remove dbgfs = (if dbgfs then [Release R_debugfs] else [])"

definition edu_remove :: "bool \<Rightarrow> 'h edu_dev \<Rightarrow> edu_res rop list" where
  "edu_remove dbgfs e =
     edu_debugfs_remove dbgfs @ [Release R_sysfs, Release R_misc, Release R_irq, Release R_vectors] @
     (case evt_ctx e of Some _ \<Rightarrow> [Release R_eventfd] | None \<Rightarrow> []) @
     [Release R_dma, Release R_iomap, Release R_regions, Release R_enable, Release R_mem]"

text \<open>The reference on an eventfd that the ioctls left registered.\<close>

definition evt_held :: "'h edu_dev \<Rightarrow> edu_res rop list" where
  "evt_held e = (case evt_ctx e of Some _ \<Rightarrow> [Acquire R_eventfd] | None \<Rightarrow> [])"

fun released :: "'r rop list \<Rightarrow> 'r list" where
  "released [] = []"
| "released (Acquire r # ops) = released ops"
| "released (Release r # ops) = r # released ops"

text \<open>
  What an interrupt handler that is still registered touches: the device structure, BAR 0 and
  the slab; a file operation needs the interrupt as well, to ever see a completion.
\<close>

definition isr_needs :: "edu_res list" where
  "isr_needs = [R_mem, R_iomap, R_dma, R_vectors]"

definition fops_needs :: "edu_res list" where
  "fops_needs = R_irq # isr_needs"

lemma edu_debugfs_init_eq: "edu_debugfs_init created = (if created then [Acquire R_debugfs] else [], created)"
  by (simp add: edu_debugfs_init_def)

lemmas edu_probe_defs = edu_probe_def edu_debugfs_init_eq edu_err_labels Let_def

lemma edu_probe_ret_cases:
  "fst (edu_probe env h handle) = ok \<longleftrightarrow>
    pe_kzalloc env \<and> pe_enable env = 0 \<and> pe_regions env = 0 \<and> pe_mask env = 0 \<and> pe_iomap env \<and>
    pe_dma env \<and> 0 \<le> pe_vectors env \<and> pe_request_irq env = 0 \<and> pe_misc env = 0"
  by (auto simp: edu_probe_defs)

lemma edu_probe_ok:
  assumes "fst (edu_probe env h handle) = ok"
  shows "edu_probe env h handle =
    (ok, [Acquire R_mem, Acquire R_enable, Acquire R_regions, Acquire R_iomap, Acquire R_dma,
          Acquire R_vectors, Acquire R_irq, Acquire R_misc] @
         (if pe_debugfs env then [Acquire R_debugfs] else []) @
         (if pe_sysfs env = 0 then [Acquire R_sysfs] else []),
     Some (edu_fresh h handle, pe_debugfs env))"
  using assms unfolding edu_probe_ret_cases by (simp add: edu_probe_defs)

lemma edu_probe_fail_lifo:
  "fst (edu_probe env h handle) \<noteq> ok \<Longrightarrow> lifo [] (fst (snd (edu_probe env h handle))) = Some []"
  by (auto simp: edu_probe_defs)

lemma edu_probe_fail_sorted:
  "fst (edu_probe env h handle) \<noteq> ok \<Longrightarrow>
    sorted_wrt (>) (released (fst (snd (edu_probe env h handle))))"
  by (auto simp: edu_probe_defs edu_res_order)

lemma edu_remove_balanced:
  assumes "fst (edu_probe env h handle) = ok" and "pe_sysfs env = 0"
  shows "holds [] (fst (snd (edu_probe env h handle)) @ evt_held e @ edu_remove (pe_debugfs env) e) = Some []"
  using assms(2)
  by (simp add: edu_probe_ok[OF assms(1)] edu_remove_def edu_debugfs_remove_def evt_held_def
      split: option.split)

lemma edu_guarded_irq:
  assumes "fst (edu_probe env h handle) = ok" and "pe_sysfs env = 0"
  shows "guarded R_irq isr_needs [] (fst (snd (edu_probe env h handle)) @ evt_held e @ edu_remove (pe_debugfs env) e)"
  using assms(2)
  by (simp add: edu_probe_ok[OF assms(1)] edu_remove_def edu_debugfs_remove_def evt_held_def
      isr_needs_def split: option.split)

end
