(* ===== verification/Edu_Claims.thy ===== *)
theory Edu_Claims
  imports Edu_Ioctl Edu_Probe
begin

text \<open>
  What the EDU driver guarantees of its rings over every interleaving: no completion is overwritten,
  lost or duplicated, the abstract contract is refined, and how many commands fit; and the two ways
  in which refused submissions use that room up. The witnesses use a device that records the
  accesses to it and answers reads from a table: its interrupt status is 1 and its factorial
  register 120.
\<close>

definition wit_regs :: "u32 \<Rightarrow> u32" where
  "wit_regs r = (if r = EDU_REG_IRQ_STAT then 1 else if r = EDU_REG_FACT then 120 else 0)"

definition wit_dev :: "access list mmio" where
  "wit_dev = log_mmio wit_regs"

definition wit_edu :: "access list edu_dev" where
  "wit_edu = edu_fresh [] 0x1000"

definition wit_req :: "u16 \<Rightarrow> edu_submit_req" where
  "wit_req t = \<lparr>sub_tag = t, sub_opcode = EDU_OP_FACTORIAL, sub_pad = 0, sub_operand = 5\<rparr>"

lemma wit_status [simp]: "irq_status wit_dev e = 1"
  by (simp add: irq_status_def wit_dev_def edu_readl_def wit_regs_def)

lemma wit_inv [simp]: "ring_inv wit_edu"
  by (simp add: wit_edu_def ring_inv_fresh)

lemma wit_init [simp]: "edu_init wit_edu"
  by (auto simp: edu_init_def wit_edu_def)

lemma wit_fact [simp]: "irq_fact wit_dev e = 120"
  by (simp add: irq_fact_def wit_dev_def edu_readl_def wit_regs_def edu_regs)

lemma wit_req_fields [simp]:
  "sub_tag (wit_req t) = t" "sub_opcode (wit_req t) = EDU_OP_FACTORIAL" "sub_operand (wit_req t) = 5"
  by (simp_all add: wit_req_def)

lemma wit_idle [simp]:
  "inflight_count wit_edu = 0" "cq_count wit_edu = 0" "outstanding wit_edu = 0"
  "\<not> ring_full (sq_tail wit_edu) (cq_head wit_edu)"
  by (simp_all add: wit_edu_def edu_fresh_def inflight_count_def cq_count_def outstanding_def
      ring_full_def ring_next_def RING_MASK_def RING_SIZE_def)

lemma reach_events: "edu_init e \<Longrightarrow> reach edu_init (edu_step D) (edu_events D evs e)"
  by (rule edu_sys.reach_steps[OF reach_init edu_events_steps])

lemma wit_reach [simp]: "reach edu_init (edu_step D) wit_edu"
  by (rule reach_init) simp

section \<open>The rings\<close>

text \<open>C2. In every reachable state, whatever interleaving led to it, an interrupt that finds a
  command in flight finds a free completion slot: fewer than 63 completions are unread, so the
  handler appends its completion to the unread ones and overwrites none of them.\<close>

theorem cq_never_overflows:
  assumes "reach edu_init (edu_step D) e"
    and "irq_status D e \<noteq> 0" and "busy_slots e = i # rest"
  shows "cq_count e < RING_SIZE - 1 \<and>
    cq_list (snd (edu_irq_handler D e)) = cq_list e @ [completion_of D i (irq_acked D e)]"
proof -
  have inv: "ring_inv e" using assms(1) by (rule edu_sys.reach_inv)
  have "inflight_count e > 0"
    using assms(3) length_busy_slots[of e] ring_invD(5)[OF inv] by simp
  then have "\<not> cq_full e" by (rule busy_not_full[OF inv])
  then have "cq_count e < RING_SIZE - 1"
    using cq.full_iff[OF ring_invD(1)[OF inv]] by simp
  then show ?thesis using cq_list_irq[OF inv assms(2)] assms(3) by simp
qed

lemma wit_busy: "busy_slots (edu_events wit_dev [EvEnqueue (wit_req 7)] wit_edu) = [0]"
  by (simp add: wit_edu_def edu_fresh_def edu_ring_enqueue_def ring_full_def ring_next_def
      RING_MASK_def RING_SIZE_def wit_req_def edu_ops busy_slots_def upt_conv_Cons Let_def)

theorem cq_never_overflows_witness:
  "cq_count (edu_events wit_dev [EvEnqueue (wit_req 7)] wit_edu) < RING_SIZE - 1"
  using cq_never_overflows[OF reach_events[OF wit_init] _ wit_busy] by simp

text \<open>C1. From every reachable state, over every sequence of events in which each store into the slab
  (by the device's DMA, through a user mapping, or by the driver's DMA test) stays out of the
  entries of commands in flight and of unread completions, the driver's rings behave as the
  abstract contract: the state reached is the abstract run's, and the next submission and the next
  poll return what it returns. The store of the zero-copy path into a free slot is one of those
  allowed.\<close>

theorem rings_refine_contract:
  assumes "reach edu_init (edu_step D) e"
    and "along (\<lambda>e ev. spares_busy e ev \<and> spares_unread e ev) D evs e"
  shows "edu_alpha (edu_events D evs e) = abs_events D evs e (edu_alpha e) \<and>
    fst (edu_ring_submit D req (edu_events D evs e)) = fst (abs_submit req (abs_events D evs e (edu_alpha e))) \<and>
    fst (edu_poll_cq (edu_events D evs e)) = fst (abs_poll (abs_events D evs e (edu_alpha e)))"
proof -
  have inv: "ring_inv e" using assms(1) by (rule edu_sys.reach_inv)
  then have inv': "ring_inv (edu_events D evs e)" by (rule ring_inv_events)
  have "edu_alpha (edu_events D evs e) = abs_events D evs e (edu_alpha e)"
    using inv assms(2) by (rule edu_alpha_events)
  then show ?thesis using edu_alpha_submit(2)[OF inv'] edu_alpha_poll(2)[OF inv'] by simp
qed

text \<open>The witnesses store an entry into the slot at the tail before it is submitted, as the zero-copy
  path does.\<close>

definition wit_run :: "access list edu_event list" where
  "wit_run = [EvStore (sq_off 0) (sq_bytes (sq_entry_of (wit_req 7))), EvEnqueue (wit_req 7), EvIrq, EvPoll]"

lemma wit_spares: "spares_busy wit_edu (EvStore (sq_off 0) bs)" "spares_unread wit_edu (EvStore (sq_off 0) bs)"
proof -
  have "busy_slots wit_edu = []" using length_busy_slots[of wit_edu] wit_idle(1) ring_invD(5)[OF wit_inv] by simp
  then show "spares_busy wit_edu (EvStore (sq_off 0) bs)" by simp
  show "spares_unread wit_edu (EvStore (sq_off 0) bs)" using wit_idle(2) by simp
qed

theorem rings_refine_contract_witness:
  "edu_alpha (edu_events wit_dev wit_run wit_edu) = abs_events wit_dev wit_run wit_edu (edu_alpha wit_edu)"
  using rings_refine_contract[OF wit_reach, of wit_dev wit_run] wit_spares
  by (simp add: wit_run_def del: edu_events_simps abs_events.simps spares_busy.simps(1) spares_unread.simps(1))

text \<open>C3. Every completion the handler posts leaves the completion queue once, and in posting order:
  over every sequence of events in which no store touches the entry of an unread completion, what
  was unread at the start followed by what the interrupts posted is what left the queue followed
  by what is unread at the end. What left it was returned by a poll, or was discarded unread by an
  open, which empties the queue; the polls return the first kind, in order. (Whether the caller's
  buffer then takes a returned completion is \<open>poll_fault_loses_completion\<close>.)\<close>

theorem completions_stream:
  assumes "reach edu_init (edu_step D) e" and "along spares_unread D evs e"
  shows "map report (cq_list e @ run_posts D evs e) =
      map fated (run_fates D evs e) @ map report (cq_list (edu_events D evs e)) \<and>
    run_reads D evs e = map fated (filter is_returned (run_fates D evs e)) \<and>
    (list_all (\<lambda>ev. \<not> is_open ev) evs \<longrightarrow> list_all is_returned (run_fates D evs e))"
proof (intro conjI impI)
  show "map report (cq_list e @ run_posts D evs e) =
      map fated (run_fates D evs e) @ map report (cq_list (edu_events D evs e))"
    using edu_sys.reach_inv[OF assms(1)] assms(2) by (rule cq_stream)
  show "list_all is_returned (run_fates D evs e)" if "list_all (\<lambda>ev. \<not> is_open ev) evs"
    using that by (rule run_fates_returned)
qed (rule run_reads_fates)

theorem completions_stream_witness:
  "map report (cq_list wit_edu @ run_posts wit_dev (wit_run @ [EvEnqueue (wit_req 8), EvIrq, EvOpen]) wit_edu) =
    map fated (run_fates wit_dev (wit_run @ [EvEnqueue (wit_req 8), EvIrq, EvOpen]) wit_edu) @
    map report (cq_list (edu_events wit_dev (wit_run @ [EvEnqueue (wit_req 8), EvIrq, EvOpen]) wit_edu))"
  using completions_stream[OF wit_reach, of wit_dev "wit_run @ [EvEnqueue (wit_req 8), EvIrq, EvOpen]"] wit_spares
  by (simp add: wit_run_def del: edu_events_simps run_posts.simps run_fates.simps spares_unread.simps(1))

section \<open>Capacity and slots\<close>

lemma outstanding_enqueue:
  assumes inv: "ring_inv e"
  shows "outstanding (snd (edu_ring_enqueue req e)) = min (RING_SIZE - 1) (Suc (outstanding e))"
proof (cases "ring_full (sq_tail e) (cq_head e)")
  case True
  then show ?thesis using ring_invD[OF inv]
    by (simp add: edu_ring_enqueue_full ring_full_count outstanding_def)
next
  case False
  then have "outstanding (snd (edu_ring_enqueue req e)) = Suc (outstanding e)"
    using ring_invD[OF inv] by (simp add: edu_ring_enqueue_room outstanding_def ring_count_next_tail)
  moreover have "outstanding (snd (edu_ring_enqueue req e)) < RING_SIZE"
    by (rule outstanding_less)
  ultimately show ?thesis by simp
qed

lemma outstanding_enqueues:
  "ring_inv e \<Longrightarrow> outstanding (edu_events D (map EvEnqueue reqs) e) =
    min (RING_SIZE - 1) (outstanding e + length reqs)"
proof (induction reqs arbitrary: e)
  case Nil
  then show ?case using outstanding_less[of e] by simp
next
  case (Cons r reqs)
  then show ?case
    using Cons.IH[of "snd (edu_ring_enqueue r e)"] outstanding_enqueue[of e r] ring_inv_enqueue[of e r]
    by simp
qed

lemma full_iff_outstanding: "ring_inv e \<Longrightarrow> ring_full (sq_tail e) (cq_head e) \<longleftrightarrow> outstanding e = RING_SIZE - 1"
  using ring_invD[of e] by (simp add: ring_full_count outstanding_def)

lemma edu_ring_submit_ret:
  "fst (edu_ring_submit D req e) =
    (if ring_full (sq_tail e) (cq_head e) then Inl ENOSPC
     else if sub_opcode req = EDU_OP_FACTORIAL \<or> sub_opcode req = EDU_OP_DMA_TEST then ok else Inl EINVAL)"
  by (simp add: edu_ring_submit_def edu_ring_enqueue_def edu_ring_kick_def Let_def)

lemma edu_ring_submit_snd:
  "\<not> ring_full (sq_tail e) (cq_head e) \<Longrightarrow>
    snd (edu_ring_submit D req e) = snd (edu_ring_kick D req (snd (edu_ring_enqueue req e)))"
  by (simp add: edu_ring_submit_def edu_ring_enqueue_def Let_def)

text \<open>C10. After an open, 63 commands can be submitted before a completion is polled, whatever they
  are and whoever reset the ring before, and the next one is refused with \<open>ENOSPC\<close>.\<close>

theorem ring_capacity:
  "fst (edu_ring_enqueue req (edu_events D (map EvEnqueue reqs) (edu_open e))) =
    (if length reqs < RING_SIZE - 1 then ok else Inl ENOSPC)"
proof -
  let ?e = "edu_events D (map EvEnqueue reqs) (edu_open e)"
  have inv: "ring_inv ?e" by (simp add: ring_inv_events ring_inv_open)
  have "outstanding (edu_open e) = 0" by (simp add: outstanding_def edu_open_def)
  then have "outstanding ?e = min (RING_SIZE - 1) (length reqs)"
    using outstanding_enqueues[OF ring_inv_open, of D reqs e] by simp
  then have "ring_full (sq_tail ?e) (cq_head ?e) \<longleftrightarrow> \<not> length reqs < RING_SIZE - 1"
    using full_iff_outstanding[OF inv] by auto
  then show ?thesis by (simp add: edu_ring_enqueue_def Let_def)
qed

text \<open>A submission with an unknown opcode is refused with \<open>EINVAL\<close>, but only after it has taken a
  slot: the ring has one slot less, and the submission counter says it was submitted.\<close>

lemma bad_opcode_takes_slot:
  assumes "reach edu_init (edu_step D) e" and "\<not> ring_full (sq_tail e) (cq_head e)"
    and "sub_opcode req \<noteq> EDU_OP_FACTORIAL" and "sub_opcode req \<noteq> EDU_OP_DMA_TEST"
  shows "fst (edu_ring_submit D req e) = Inl EINVAL \<and>
    outstanding (snd (edu_ring_submit D req e)) = Suc (outstanding e) \<and>
    stat_sq_submitted (snd (edu_ring_submit D req e)) = stat_sq_submitted e + 1"
proof -
  have inv: "ring_inv e" using assms(1) by (rule edu_sys.reach_inv)
  have "snd (edu_ring_submit D req e) = snd (edu_ring_kick D req (snd (edu_ring_enqueue req e)))"
    using assms(2) by (rule edu_ring_submit_snd)
  moreover have "outstanding (snd (edu_ring_kick D req x)) = outstanding x" for x
    by (simp add: outstanding_def)
  moreover have "Suc (outstanding e) \<le> RING_SIZE - 1"
    using assms(2) full_iff_outstanding[OF inv] outstanding_less[of e] by simp
  ultimately show ?thesis
    using assms outstanding_enqueue[OF inv, of req] edu_ring_submit_ret[of D req e]
    by (simp add: edu_ring_enqueue_def Let_def)
qed

text \<open>The state in which the ring is full of slots no interrupt will ever complete.\<close>

definition stuck :: "'h edu_dev \<Rightarrow> bool" where
  "stuck e \<longleftrightarrow> ring_inv e \<and> outstanding e = RING_SIZE - 1 \<and> cq_count e = 0 \<and> inflight_count e = 0"

lemma stuck_cong:
  "stuck e \<Longrightarrow> sq_tail e' = sq_tail e \<Longrightarrow> cq_tail e' = cq_tail e \<Longrightarrow> cq_head e' = cq_head e \<Longrightarrow>
    inflight e' = inflight e \<Longrightarrow> stuck e'"
  using ring_inv_cong[of e' e] by (simp add: stuck_def outstanding_def cq_count_def inflight_count_def)

lemma stuck_event:
  assumes s: "stuck e" and "\<not> is_open ev"
  shows "stuck (edu_do D ev e)"
proof -
  have inv: "ring_inv e" using s by (simp add: stuck_def)
  have full: "ring_full (sq_tail e) (cq_head e)"
    using s full_iff_outstanding[OF inv] by (simp add: stuck_def)
  have empty: "cq_head e = cq_tail e"
    using s ring_invD[OF inv] ring_count_0[of "cq_tail e" "cq_head e"] by (simp add: stuck_def cq_count_def)
  have idle: "busy_slots e = []"
    using s length_busy_slots[of e] ring_invD(5)[OF inv] by (simp add: stuck_def)
  show ?thesis
  proof (cases ev)
    case EvIrq
    then show ?thesis using s idle
      by (cases "irq_status D e = 0")
        (auto simp: edu_irq_handler_spurious edu_irq_handler_real intro: stuck_cong)
  qed (use s full empty assms(2) in
    \<open>auto simp: edu_ring_enqueue_full edu_poll_cq_def intro: stuck_cong\<close>)
qed

lemma stuck_events: "stuck e \<Longrightarrow> list_all (\<lambda>ev. \<not> is_open ev) evs \<Longrightarrow> stuck (edu_events D evs e)"
  by (induction evs arbitrary: e) (simp_all add: stuck_event)

lemma enqueues_zero:
  assumes "list_all (\<lambda>r. sub_opcode r = 0) reqs" and "ring_inv e"
    and "cq_count e = 0" and "inflight_count e = 0"
  shows "cq_count (edu_events D (map EvEnqueue reqs) e) = 0 \<and>
    inflight_count (edu_events D (map EvEnqueue reqs) e) = 0"
  using assms
proof (induction reqs arbitrary: e)
  case Nil
  then show ?case by simp
next
  case (Cons r reqs)
  let ?e = "snd (edu_ring_enqueue r e)"
  have "inflight_count ?e \<le> inflight_count e" "cq_count ?e = cq_count e"
    using Cons.prems filter_mark[of "inflight e" _ 0]
    by (simp_all add: edu_ring_enqueue_def inflight_count_def cq_count_def Let_def)
  then show ?case using Cons ring_inv_enqueue[of e r] by simp
qed

text \<open>C28. Sixty-three submissions with opcode 0 (each answered \<open>EINVAL\<close> once kicked) block the rings
  for good: whatever interrupts, polls, submissions and stores follow, until the next open every
  submission gets \<open>ENOSPC\<close> and every poll \<open>EAGAIN\<close>.\<close>

theorem opcode_zero_blocks_ring:
  assumes "length reqs = RING_SIZE - 1" and "list_all (\<lambda>r. sub_opcode r = 0) reqs"
    and "list_all (\<lambda>ev. \<not> is_open ev) evs"
  shows "fst (edu_ring_submit D req (edu_events D (map EvEnqueue reqs @ evs) (edu_open e))) = Inl ENOSPC \<and>
    fst (edu_poll_cq (edu_events D (map EvEnqueue reqs @ evs) (edu_open e))) = Inl EAGAIN"
proof -
  let ?e = "edu_events D (map EvEnqueue reqs) (edu_open e)"
  have "cq_count (edu_open e) = 0" "inflight_count (edu_open e) = 0" "outstanding (edu_open e) = 0"
    by (simp_all add: cq_count_def inflight_count_def outstanding_def edu_open_def)
  then have "stuck ?e"
    using enqueues_zero[OF assms(2) ring_inv_open, of e D]
      outstanding_enqueues[OF ring_inv_open, of D reqs e] assms(1)
    by (simp add: stuck_def ring_inv_events ring_inv_open)
  then have s: "stuck (edu_events D (map EvEnqueue reqs @ evs) (edu_open e))" (is "stuck ?f")
    using stuck_events[OF _ assms(3)] by (simp add: edu_events_append)
  then have inv: "ring_inv ?f" by (simp add: stuck_def)
  have "ring_full (sq_tail ?f) (cq_head ?f)" "cq_head ?f = cq_tail ?f"
    using s full_iff_outstanding[OF inv] ring_invD[OF inv] ring_count_0[of "cq_tail ?f" "cq_head ?f"]
    by (simp_all add: stuck_def cq_count_def)
  then show ?thesis by (simp add: edu_ring_submit_ret edu_poll_cq_def)
qed

theorem opcode_zero_blocks_ring_witness:
  "fst (edu_ring_submit wit_dev (wit_req 7) (edu_events wit_dev
      (map EvEnqueue (replicate 63 ((wit_req 1)\<lparr>sub_opcode := 0\<rparr>)) @ [EvIrq, EvPoll]) (edu_open wit_edu))) = Inl ENOSPC"
  using opcode_zero_blocks_ring[of "replicate 63 ((wit_req 1)\<lparr>sub_opcode := 0\<rparr>)" "[EvIrq, EvPoll]" wit_dev "wit_req 7" wit_edu]
  by (simp add: RING_SIZE_def list_all_iff del: edu_events_simps map_replicate)

end
