(* ===== verification/Edu_Runs.thy ===== *)
theory Edu_Runs
  imports Edu_Claims
begin

text \<open>
  Short runs of the EDU driver, end to end: the round trip of one command, how interrupts drain
  the commands in flight, what the counters count, and the runs in which a completion is reported
  for another command than the one that caused it.
\<close>

section \<open>The slots in flight\<close>

lemma busy_slots_sorted:
  "busy_slots e = sorted_list_of_set {i. i < RING_SIZE \<and> inflight e ! i \<noteq> 0}"
proof -
  have "sorted_wrt (<) (busy_slots e)" by (simp add: busy_slots_def sorted_wrt_filter)
  moreover have "set (busy_slots e) = {i. i < RING_SIZE \<and> inflight e ! i \<noteq> 0}"
    by (auto simp: busy_slots_def)
  ultimately show ?thesis
    by (metis (no_types, lifting) strict_sorted_equal finite_Collect_less_nat rev_finite_subset
        List.finite_set sorted_list_of_set.set_sorted_key_list_of_set
        sorted_list_of_set.strict_sorted_key_list_of_set)
qed

lemma inflight_idle:
  assumes "ring_inv e" and "inflight_count e = 0" and "i < RING_SIZE"
  shows "inflight e ! i = 0"
  using assms inflight_count_pos[of i e] ring_invD(5)[OF assms(1)] by auto

lemma busy_slots_idle: "ring_inv e \<Longrightarrow> inflight_count e = 0 \<Longrightarrow> busy_slots e = []"
  using length_busy_slots[of e] ring_invD(5)[of e] by simp

text \<open>One command on idle rings takes the slot at the tail.\<close>

lemma busy_slots_enqueue:
  assumes inv: "ring_inv e" and "inflight_count e = 0" and "\<not> ring_full (sq_tail e) (cq_head e)"
    and "sub_opcode r \<noteq> 0"
  shows "busy_slots (snd (edu_ring_enqueue r e)) = [unat (sq_tail e)]"
proof -
  have "{i. i < RING_SIZE \<and> inflight (snd (edu_ring_enqueue r e)) ! i \<noteq> 0} = {unat (sq_tail e)}"
    using assms ring_invD[OF inv] inflight_idle[OF inv]
    by (auto simp: edu_ring_enqueue_room nth_list_update split: if_splits)
  then show ?thesis by (simp add: busy_slots_sorted)
qed

lemma sq_get_enqueue:
  assumes inv: "ring_inv e" and "\<not> ring_full (sq_tail e) (cq_head e)"
  shows "sq_get (dma_virt (snd (edu_ring_enqueue r e))) (unat (sq_tail e)) = sq_entry_of r"
  using assms ring_invD[OF inv] by (simp add: edu_ring_enqueue_room)

lemma busy_slots_bar0 [simp]: "busy_slots (e\<lparr>bar0 := h\<rparr>) = busy_slots e"
  by (simp add: busy_slots_def)

lemma busy_slots_kick [simp]: "busy_slots (snd (edu_ring_kick D req e)) = busy_slots e"
  by (simp add: busy_slots_def)

text \<open>The completion an interrupt posts, from the contents of the first busy slot.\<close>

lemma cq_list_irq_slot:
  assumes "ring_inv e" and "irq_status D e \<noteq> 0" and "busy_slots e = i # is"
  shows "cq_list (snd (edu_irq_handler D e)) =
    cq_list e @ [abs_completion (irq_fact D e) (sq_get (dma_virt e) i)]"
  using cq_list_irq[OF assms(1,2)] assms(3) by (simp add: completion_of_abs)

lemma poll_after:
  "ring_inv e \<Longrightarrow> cq_list e = c # cs \<Longrightarrow> fst (edu_poll_cq e) = Inr (report c)"
  using edu_poll_cq_spec[OF ring_invD(1), of e] by (simp add: report_def)

lemma cq_count_0_iff: "cq_count e = 0 \<longleftrightarrow> cq_list e = []"
  by (simp flip: length_0_conv)

section \<open>The round trip of a command\<close>

text \<open>C6. A factorial submitted while no command is in flight and no completion is unread is
  accepted, and once the device, in whatever state it has got to, interrupts with a status, the
  next poll returns the command's tag, status 0 and the factorial register, and nothing is left
  in flight.\<close>

theorem factorial_round_trip:
  assumes "reach edu_init (edu_step D) e" and "inflight_count e = 0" and "cq_count e = 0"
    and "\<not> ring_full (sq_tail e) (cq_head e)" and "sub_opcode r = EDU_OP_FACTORIAL"
    and "irq_status D ((snd (edu_ring_submit D r e))\<lparr>bar0 := h\<rparr>) \<noteq> 0"
  shows "fst (edu_ring_submit D r e) = ok \<and>
    (let e1 = (snd (edu_ring_submit D r e))\<lparr>bar0 := h\<rparr>; e2 = snd (edu_irq_handler D e1) in
      fst (edu_poll_cq e2) = Inr \<lparr>cr_tag = sub_tag r, cr_status = 0, cr_pad = 0, cr_result = irq_fact D e1\<rparr> \<and>
      busy_slots e2 = [])"
proof -
  have inv: "ring_inv e" using assms(1) by (rule edu_sys.reach_inv)
  let ?e1 = "(snd (edu_ring_submit D r e))\<lparr>bar0 := h\<rparr>"
  let ?n = "snd (edu_ring_enqueue r e)"
  have sub: "snd (edu_ring_submit D r e) = snd (edu_ring_kick D r ?n)"
    using assms(4) by (rule edu_ring_submit_snd)
  have inv1: "ring_inv ?e1" using inv by (simp add: sub ring_inv_enqueue)
  have busy: "busy_slots ?e1 = [unat (sq_tail e)]"
    using busy_slots_enqueue[OF inv assms(2,4), of r] assms(5) by (simp add: sub edu_ops)
  have "cq_list ?e1 = []" using inv assms(3) by (simp add: sub cq_count_0_iff)
  then have "cq_list (snd (edu_irq_handler D ?e1)) = [abs_completion (irq_fact D ?e1) (sq_entry_of r)]"
    using cq_list_irq_slot[OF inv1 assms(6) busy] sq_get_enqueue[OF inv assms(4), of r] by (simp add: sub)
  then have "fst (edu_poll_cq (snd (edu_irq_handler D ?e1))) =
      Inr (report (abs_completion (irq_fact D ?e1) (sq_entry_of r)))"
    by (rule poll_after[OF ring_inv_irq[OF inv1]])
  moreover have "busy_slots (snd (edu_irq_handler D ?e1)) = []"
    using busy assms(6) ring_invD(5)[OF inv1] inflight_idle[OF inv assms(2)] ring_invD[OF inv] assms(4)
    by (auto simp: edu_irq_handler_real busy_slots_def sub edu_ring_enqueue_room filter_empty_conv
        nth_list_update)
  ultimately show ?thesis
    using assms(4,5) edu_ring_submit_ret[of D r e]
    by (simp add: Let_def report_def abs_completion_def sq_entry_of_def)
qed

theorem factorial_round_trip_witness:
  "fst (edu_poll_cq (snd (edu_irq_handler wit_dev ((snd (edu_ring_submit wit_dev (wit_req 7) wit_edu))\<lparr>bar0 := []\<rparr>)))) =
    Inr \<lparr>cr_tag = 7, cr_status = 0, cr_pad = 0, cr_result = 120\<rparr>"
  using factorial_round_trip[OF wit_reach, where D = wit_dev and r = "wit_req 7" and h = "[]"]
  by (simp add: Let_def)

section \<open>Draining\<close>

fun is_enqueue :: "'h edu_event \<Rightarrow> bool" where
  "is_enqueue (EvEnqueue r) = True"
| "is_enqueue _ = False"

text \<open>The number of interrupts of a run that find a status.\<close>

fun run_irqs :: "'h mmio \<Rightarrow> 'h edu_event list \<Rightarrow> 'h edu_dev \<Rightarrow> nat" where
  "run_irqs D [] e = 0"
| "run_irqs D (ev # evs) e = (if completes D e ev then 1 else 0) + run_irqs D evs (edu_do D ev e)"

lemma inflight_count_cong: "inflight e' = inflight e \<Longrightarrow> inflight_count e' = inflight_count e"
  by (simp add: inflight_count_def)

lemma inflight_poll [simp]: "inflight (snd (edu_poll_cq e)) = inflight e"
  by (simp add: edu_poll_cq_def cq_advance_def Let_def)

lemma inflight_count_irq:
  assumes inv: "ring_inv e"
  shows "inflight_count (snd (edu_irq_handler D e)) = inflight_count e - (if irq_status D e \<noteq> 0 then 1 else 0) \<and>
    length (event_posts D e EvIrq) = min (inflight_count e) (if irq_status D e \<noteq> 0 then 1 else 0)"
proof (cases "irq_status D e = 0")
  case True
  then show ?thesis by (simp add: edu_irq_handler_spurious inflight_count_def)
next
  case False
  have len: "length (busy_slots e) = inflight_count e"
    using length_busy_slots ring_invD(5)[OF inv] by blast
  show ?thesis
  proof (cases "busy_slots e")
    case Nil
    then show ?thesis using False len
      by (simp add: edu_irq_handler_real) (simp add: inflight_count_def)
  next
    case (Cons i rest)
    then have "i < length (inflight e)" "inflight e ! i \<noteq> 0"
      using busy_slotsD[OF Cons] ring_invD(5)[OF inv] by auto
    then have "Suc (inflight_count (snd (edu_irq_handler D e))) = inflight_count e"
      using Cons False by (intro inflight_count_clear[of i]) (auto simp: edu_irq_handler_real)
    then show ?thesis using False Cons by simp
  qed
qed

lemma drain_event:
  assumes "ring_inv e" and "\<not> is_open ev" and "\<not> is_enqueue ev"
  shows "inflight_count (edu_do D ev e) = inflight_count e - (if completes D e ev then 1 else 0) \<and>
    length (event_posts D e ev) = min (inflight_count e) (if completes D e ev then 1 else 0)"
proof (cases ev)
  case EvIrq
  then show ?thesis using inflight_count_irq[OF assms(1), of D] by simp
qed (use assms in \<open>auto intro: inflight_count_cong\<close>)

text \<open>C7. Interrupts drain the commands in flight: over every sequence of events without a new
  submission and without a reopening, each interrupt that finds a status completes one command
  while there is one, so enough of them leave none, and as many completions are posted as commands
  left the flight.\<close>

theorem interrupts_drain:
  assumes "reach edu_init (edu_step D) e"
    and "list_all (\<lambda>ev. \<not> is_open ev \<and> \<not> is_enqueue ev) evs"
  shows "inflight_count (edu_events D evs e) = inflight_count e - run_irqs D evs e \<and>
    length (run_posts D evs e) = min (inflight_count e) (run_irqs D evs e)"
  using edu_sys.reach_inv[OF assms(1)] assms(2)
proof (induction evs arbitrary: e)
  case Nil
  then show ?case by simp
next
  case (Cons ev evs)
  then have "ring_inv (edu_do D ev e)" by (simp add: ring_inv_event)
  then show ?case
    using Cons.IH[of "edu_do D ev e"] Cons.prems drain_event[of e ev D] by auto
qed

theorem interrupts_drain_witness:
  "inflight_count (edu_events wit_dev [EvEnqueue (wit_req 7)] wit_edu) = 1 \<and>
    inflight_count (edu_events wit_dev [EvIrq, EvPoll, EvIrq] (edu_events wit_dev [EvEnqueue (wit_req 7)] wit_edu)) = 0 \<and>
    length (run_posts wit_dev [EvIrq, EvPoll, EvIrq] (edu_events wit_dev [EvEnqueue (wit_req 7)] wit_edu)) = 1"
proof -
  let ?e = "edu_events wit_dev [EvEnqueue (wit_req 7)] wit_edu"
  have r: "reach edu_init (edu_step wit_dev) ?e" by (rule reach_events[OF wit_init])
  have one: "inflight_count ?e = 1"
    using length_busy_slots[OF ring_invD(5)[OF edu_sys.reach_inv[OF r]]] unfolding wit_busy by simp
  have irqs: "run_irqs wit_dev [EvIrq, EvPoll, EvIrq] ?e = 2" by (simp del: edu_events_simps)
  have "list_all (\<lambda>ev. \<not> is_open ev \<and> \<not> is_enqueue ev) [EvIrq, EvPoll, EvIrq]" by simp
  from interrupts_drain[OF r this] show ?thesis unfolding one irqs by simp
qed

section \<open>What the counters count\<close>

fun is_reset :: "'h edu_event \<Rightarrow> bool" where
  "is_reset EvStatsReset = True"
| "is_reset _ = False"

lemma stats_enqueue [simp]:
  "stat_cq_posted (snd (edu_ring_enqueue r e)) = stat_cq_posted e"
  "stat_cq_consumed (snd (edu_ring_enqueue r e)) = stat_cq_consumed e"
  by (simp_all add: edu_ring_enqueue_def Let_def)

lemma stats_inject [simp]:
  "stat_cq_posted (snd (inject_fault_store p n e)) = stat_cq_posted e"
  "stat_cq_consumed (snd (inject_fault_store p n e)) = stat_cq_consumed e"
  "stat_sq_submitted (snd (inject_fault_store p n e)) = stat_sq_submitted e"
  by (simp_all add: inject_fault_store_def split: sum.splits)

lemma stats_signal [simp]:
  "stat_cq_posted (edu_irq_signal p e) = stat_cq_posted e"
  "stat_cq_consumed (edu_irq_signal p e) = stat_cq_consumed e"
  "stat_sq_submitted (edu_irq_signal p e) = stat_sq_submitted e"
  by (simp_all add: edu_irq_signal_def split: option.splits)

lemma stats_acked [simp]:
  "stat_cq_posted (irq_acked D e) = stat_cq_posted e"
  "stat_cq_consumed (irq_acked D e) = stat_cq_consumed e"
  "stat_sq_submitted (irq_acked D e) = stat_sq_submitted e"
  by (subst irq_acked_eq; simp)+

lemma stats_irq:
  assumes "ring_inv e"
  shows "stat_cq_posted (snd (edu_irq_handler D e)) =
      stat_cq_posted e + of_nat (length (event_posts D e EvIrq))"
    and "stat_cq_consumed (snd (edu_irq_handler D e)) = stat_cq_consumed e"
    and "stat_sq_submitted (snd (edu_irq_handler D e)) = stat_sq_submitted e"
    and "cq_count (snd (edu_irq_handler D e)) = cq_count e + length (event_posts D e EvIrq)"
proof -
  show "cq_count (snd (edu_irq_handler D e)) = cq_count e + length (event_posts D e EvIrq)"
    using arg_cong[OF cq_list_irq[OF assms, of D], of length]
    by (cases "irq_status D e = 0") (simp_all add: edu_irq_handler_spurious cq_count_def)
qed (cases "irq_status D e = 0"; auto simp: edu_irq_handler_spurious edu_irq_handler_real split: list.splits)+

text \<open>Completions posted and not consumed, and commands submitted and not consumed.\<close>

definition unread_by_stats :: "'h edu_dev \<Rightarrow> u64" where
  "unread_by_stats e = stat_cq_posted e - stat_cq_consumed e - of_nat (cq_count e)"

definition taken_by_stats :: "'h edu_dev \<Rightarrow> u64" where
  "taken_by_stats e = stat_sq_submitted e - stat_cq_consumed e - of_nat (outstanding e)"

lemma count_cong:
  "sq_tail e' = sq_tail e \<Longrightarrow> cq_tail e' = cq_tail e \<Longrightarrow> cq_head e' = cq_head e \<Longrightarrow>
    cq_count e' = cq_count e \<and> outstanding e' = outstanding e"
  by (simp add: cq_count_def outstanding_def)

lemma poll_counts:
  assumes inv: "ring_inv e" and "cq_head e \<noteq> cq_tail e"
  shows "Suc (cq_count (cq_advance e)) = cq_count e" "Suc (outstanding (cq_advance e)) = outstanding e"
proof -
  show c: "Suc (cq_count (cq_advance e)) = cq_count e"
    using assms ring_invD[OF inv] by (simp add: cq_count_advance cq_empty_def)
  then have "sq_tail e \<noteq> cq_head e"
    using ring_invD(6)[OF inv] by (auto simp: outstanding_def)
  then show "Suc (outstanding (cq_advance e)) = outstanding e"
    using ring_invD[OF inv] by (simp add: outstanding_def cq_advance_def ring_count_next_head)
qed

lemma stats_event:
  assumes inv: "ring_inv e" and "\<not> is_open ev" and "\<not> is_reset ev"
  shows "unread_by_stats (edu_do D ev e) = unread_by_stats e \<and>
    taken_by_stats (edu_do D ev e) = taken_by_stats e"
proof (cases ev)
  case EvIrq
  then show ?thesis
    using stats_irq[OF inv, of D] by (simp add: unread_by_stats_def taken_by_stats_def)
next
  case EvPoll
  show ?thesis
  proof (cases "cq_head e = cq_tail e")
    case True
    then show ?thesis using EvPoll by (simp add: edu_poll_cq_def)
  next
    case False
    have "of_nat (cq_count e) = (1 :: u64) + of_nat (cq_count (cq_advance e))"
      "of_nat (outstanding e) = (1 :: u64) + of_nat (outstanding (cq_advance e))"
      by (simp_all flip: poll_counts[OF inv False])
    then show ?thesis using EvPoll False
      by (simp add: edu_poll_cq_def Let_def unread_by_stats_def taken_by_stats_def)
        (simp add: cq_advance_def)
  qed
next
  case (EvEnqueue r)
  show ?thesis
  proof (cases "ring_full (sq_tail e) (cq_head e)")
    case True
    then show ?thesis using EvEnqueue by (simp add: edu_ring_enqueue_full)
  next
    case False
    have "outstanding (snd (edu_ring_enqueue r e)) = Suc (outstanding e)"
      using False ring_invD[OF inv] by (simp add: edu_ring_enqueue_room outstanding_def ring_count_next_tail)
    moreover have "cq_count (snd (edu_ring_enqueue r e)) = cq_count e"
      "stat_sq_submitted (snd (edu_ring_enqueue r e)) = stat_sq_submitted e + 1"
      using False by (simp_all add: edu_ring_enqueue_def cq_count_def Let_def)
    ultimately show ?thesis using EvEnqueue by (simp add: unread_by_stats_def taken_by_stats_def)
  qed
qed (use assms in \<open>simp_all add: unread_by_stats_def taken_by_stats_def cq_count_def outstanding_def\<close>)

text \<open>The debugfs counters account for the rings: after every sequence of events since the
  probe without a reopening and a reset of the counters, the completions posted less those consumed
  are the unread ones, and the submissions less the completions consumed are the slots taken.\<close>

lemma counters_account:
  assumes "list_all (\<lambda>ev. \<not> is_open ev \<and> \<not> is_reset ev) evs"
  shows "stat_cq_posted (edu_events D evs (edu_fresh h handle)) =
      stat_cq_consumed (edu_events D evs (edu_fresh h handle)) +
        of_nat (cq_count (edu_events D evs (edu_fresh h handle))) \<and>
    stat_sq_submitted (edu_events D evs (edu_fresh h handle)) =
      stat_cq_consumed (edu_events D evs (edu_fresh h handle)) +
        of_nat (outstanding (edu_events D evs (edu_fresh h handle)))"
proof -
  have "unread_by_stats (edu_events D evs e) = unread_by_stats e \<and>
      taken_by_stats (edu_events D evs e) = taken_by_stats e" if "ring_inv e" for e
    using that assms
    by (induction evs arbitrary: e) (simp_all add: stats_event ring_inv_event)
  then have "unread_by_stats (edu_events D evs (edu_fresh h handle)) = 0 \<and>
      taken_by_stats (edu_events D evs (edu_fresh h handle)) = 0"
    using ring_inv_fresh[of h handle]
    by (simp add: unread_by_stats_def taken_by_stats_def cq_count_def outstanding_def edu_fresh_def)
  then show ?thesis by (simp add: unread_by_stats_def taken_by_stats_def algebra_simps)
qed

text \<open>The line \<open>ring_inflight\<close> of the debugfs file counts the unread completions, not the
  commands in flight: submitting a command never changes it.\<close>

lemma ring_inflight_counts_unread:
  assumes "reach edu_init (edu_step D) e"
  shows "map_of (edu_dbgfs_stats_show e) ''ring_inflight'' = Some (int (cq_count e)) \<and>
    map_of (edu_dbgfs_stats_show (snd (edu_ring_submit D r e))) ''ring_inflight'' = Some (int (cq_count e))"
proof -
  have "uint ((cq_tail x - cq_head x) AND RING_MASK) = int (cq_count x)" for x :: "'a edu_dev"
    by (simp add: cq_count_def ring_count_def flip: uint_nat)
  moreover have "cq_tail (snd (edu_ring_submit D r e)) = cq_tail e"
    "cq_head (snd (edu_ring_submit D r e)) = cq_head e"
    by (auto simp: edu_ring_submit_def edu_ring_enqueue_def Let_def split: prod.splits sum.splits)
  ultimately show ?thesis by (simp add: edu_dbgfs_stats_show_def cq_count_def)
qed

end
