(* ===== verification/Edu_Hazards.thy ===== *)
theory Edu_Hazards
  imports Edu_Runs
begin

text \<open>
  Which command a completion is reported for. The handler knows no more than the first busy slot,
  so completions come in slot order: the properties here show the runs in which that is not the
  order, or not the command, userspace expects.
\<close>

section \<open>Slot order\<close>

lemma busy_slots_irq:
  assumes "ring_inv e" and "irq_status D e \<noteq> 0"
  shows "busy_slots (snd (edu_irq_handler D e)) = tl (busy_slots e)"
proof (cases "busy_slots e")
  case Nil
  then show ?thesis using assms(2)
    by (simp add: edu_irq_handler_real) (simp add: busy_slots_def)
next
  case (Cons i rest)
  let ?e = "snd (edu_irq_handler D e)"
  have "inflight ?e = (inflight e)[i := 0]"
    using Cons assms(2) by (simp add: edu_irq_handler_real)
  moreover have "i < length (inflight e)"
    using busy_slotsD[OF Cons] ring_invD(5)[OF assms(1)] by simp
  ultimately have "busy_slots ?e = filter (\<lambda>j. j \<noteq> i) (busy_slots e)"
    by (auto simp: busy_slots_def nth_list_update intro!: filter_cong)
  moreover have "distinct (busy_slots e)" by (simp add: busy_slots_def)
  ultimately show ?thesis using Cons by (auto simp: filter_id_conv)
qed

lemma sq_get_irq [simp]:
  assumes "i < RING_SIZE"
  shows "sq_get (dma_virt (snd (edu_irq_handler D e))) i = sq_get (dma_virt e) i"
  using assms
  by (cases "irq_status D e = 0") (auto simp: edu_irq_handler_spurious edu_irq_handler_real split: list.splits)

lemma busy_slots_less: "i \<in> set (busy_slots e) \<Longrightarrow> i < RING_SIZE"
  by (simp add: busy_slots_def)

lemma run_irqs_le: "run_irqs D evs e \<le> length evs"
proof (induction evs arbitrary: e)
  case (Cons ev evs)
  show ?case using Cons.IH[of "edu_do D ev e"] by simp
qed simp

text \<open>Interrupts report the commands in the order of their slots: when \<open>n\<close> interrupts in a
  row find a status, the tags posted are those stored in the first \<open>n\<close> busy slots of the ring,
  lowest index first.\<close>

lemma completions_in_slot_order:
  assumes "reach edu_init (edu_step D) e" and "run_irqs D (replicate n EvIrq) e = n"
  shows "map cq_tag (run_posts D (replicate n EvIrq) e) =
    map (\<lambda>i. sq_tag (sq_get (dma_virt e) i)) (take n (busy_slots e))"
  using edu_sys.reach_inv[OF assms(1)] assms(2)
proof (induction n arbitrary: e)
  case 0
  then show ?case by simp
next
  case (Suc n)
  let ?e = "snd (edu_irq_handler D e)"
  have bound: "run_irqs D (replicate n EvIrq) x \<le> n" for x
    using run_irqs_le[of D "replicate n EvIrq" x] by simp
  have st: "irq_status D e \<noteq> 0" and rest: "run_irqs D (replicate n EvIrq) ?e = n"
    using Suc.prems(2) bound[of ?e] by (auto split: if_splits)
  have "set (take n (busy_slots ?e)) \<subseteq> {i. i < RING_SIZE}"
    using busy_slots_less[of _ ?e] set_take_subset[of n "busy_slots ?e"] by blast
  then have IH: "map cq_tag (run_posts D (replicate n EvIrq) ?e) =
      map (\<lambda>i. sq_tag (sq_get (dma_virt e) i)) (take n (tl (busy_slots e)))"
    using Suc.IH[OF ring_inv_irq[OF Suc.prems(1)] rest]
    by (auto simp: busy_slots_irq[OF Suc.prems(1) st])
  show ?case
  proof (cases "busy_slots e")
    case Nil
    then show ?thesis using st IH by simp
  next
    case (Cons i rest)
    then show ?thesis using st IH by (simp add: completion_of_def)
  qed
qed

section \<open>The wrap of the ring\<close>

text \<open>Idle rings whose three indices are all at slot \<open>i\<close>, as after \<open>i\<close> complete round trips.\<close>

definition idle_at :: "nat \<Rightarrow> 'h edu_dev \<Rightarrow> bool" where
  "idle_at i e \<longleftrightarrow> ring_inv e \<and> unat (sq_tail e) = i \<and> cq_head e = sq_tail e \<and> cq_tail e = sq_tail e \<and>
     inflight_count e = 0"

lemma idle_at_open: "idle_at 0 (edu_open e)"
  using ring_inv_open[of e] by (simp add: idle_at_def) (simp add: edu_open_def inflight_count_def)

lemma idle_atD:
  assumes "idle_at i e"
  shows "ring_inv e" "unat (sq_tail e) = i" "inflight_count e = 0" "outstanding e = 0" "cq_list e = []"
    "\<not> ring_full (sq_tail e) (cq_head e)"
  using assms full_iff_outstanding[of e]
  by (auto simp: idle_at_def outstanding_def RING_SIZE_def cq_list_def cq_count_def)

text \<open>Two commands on idle rings.\<close>

lemma two_enqueues:
  assumes idle: "idle_at i e" and "sub_opcode r1 \<noteq> 0" and "sub_opcode r2 \<noteq> 0"
  defines "e2 \<equiv> snd (edu_ring_enqueue r2 (snd (edu_ring_enqueue r1 e)))"
  shows "busy_slots e2 = (if i + 1 < RING_SIZE then [i, i + 1] else [0, i])"
    and "sq_get (dma_virt e2) i = sq_entry_of r1"
    and "sq_get (dma_virt e2) ((i + 1) mod RING_SIZE) = sq_entry_of r2"
    and "ring_inv e2" and "cq_list e2 = []"
    and "sq_tail e2 = ring_next (ring_next (sq_tail e))" and "cq_head e2 = cq_head e"
proof -
  note I = idle_atD[OF idle]
  let ?e1 = "snd (edu_ring_enqueue r1 e)"
  have inv1: "ring_inv ?e1" by (rule ring_inv_enqueue[OF I(1)])
  have out1: "outstanding ?e1 = 1"
    using outstanding_enqueue[OF I(1), of r1] I(4) by (simp add: RING_SIZE_def)
  then have room1: "\<not> ring_full (sq_tail ?e1) (cq_head ?e1)"
    using full_iff_outstanding[OF inv1] by (simp add: RING_SIZE_def)
  have t1: "unat (sq_tail ?e1) = (i + 1) mod RING_SIZE"
    using I ring_invD[OF I(1)] by (simp add: edu_ring_enqueue_room unat_ring_next)
  have i: "i < RING_SIZE" using I(2) ring_invD(2)[OF I(1)] by simp
  have ne: "(i + 1) mod RING_SIZE \<noteq> i" using i by (auto simp: RING_SIZE_def mod_if)
  have lt: "(i + 1) mod RING_SIZE < RING_SIZE" by (simp add: RING_SIZE_def)
  have e1: "inflight ?e1 = (inflight e)[i := sub_opcode r1]" "dma_virt ?e1 = sq_put (dma_virt e) i (sq_entry_of r1)"
    using I ring_invD[OF I(1)] by (simp_all add: edu_ring_enqueue_room)
  have e2: "inflight e2 = ((inflight e)[i := sub_opcode r1])[(i + 1) mod RING_SIZE := sub_opcode r2]"
    "dma_virt e2 = sq_put (sq_put (dma_virt e) i (sq_entry_of r1)) ((i + 1) mod RING_SIZE) (sq_entry_of r2)"
    using room1 ring_invD[OF inv1] t1 e1 by (simp_all add: e2_def edu_ring_enqueue_room)
  have "{j. j < RING_SIZE \<and> inflight e2 ! j \<noteq> 0} = {i, (i + 1) mod RING_SIZE}"
    using assms(2,3) i lt ne ring_invD(5)[OF I(1)] inflight_idle[OF I(1,3)]
    by (auto simp: e2 nth_list_update split: if_splits)
  then have "busy_slots e2 = sorted_list_of_set {i, (i + 1) mod RING_SIZE}"
    by (simp add: busy_slots_sorted)
  then show "busy_slots e2 = (if i + 1 < RING_SIZE then [i, i + 1] else [0, i])"
    using i ne by (auto simp: mod_if)
  show "sq_get (dma_virt e2) i = sq_entry_of r1" "sq_get (dma_virt e2) ((i + 1) mod RING_SIZE) = sq_entry_of r2"
    using ne by (simp_all add: e2)
  show "ring_inv e2" "cq_list e2 = []"
    using inv1 I(1,5) by (simp_all add: e2_def ring_inv_enqueue)
  show "sq_tail e2 = ring_next (ring_next (sq_tail e))" "cq_head e2 = cq_head e"
    using room1 ring_invD[OF inv1] I(6) ring_invD[OF I(1)] by (simp_all add: e2_def edu_ring_enqueue_room)
qed

text \<open>Idle rings move on by one slot with every complete round trip.\<close>

definition round_trip :: "edu_submit_req \<Rightarrow> 'h edu_event list" where
  "round_trip r = [EvEnqueue r, EvIrq, EvPoll]"

lemma idle_at_round_trip:
  assumes idle: "idle_at i e" and "irq_status D (snd (edu_ring_enqueue r e)) \<noteq> 0" and "sub_opcode r \<noteq> 0"
  shows "idle_at ((i + 1) mod RING_SIZE) (edu_events D (round_trip r) e)"
proof -
  note I = idle_atD[OF idle]
  let ?e1 = "snd (edu_ring_enqueue r e)"
  let ?e2 = "snd (edu_irq_handler D ?e1)"
  let ?e3 = "snd (edu_poll_cq ?e2)"
  have inv1: "ring_inv ?e1" by (rule ring_inv_enqueue[OF I(1)])
  have inv2: "ring_inv ?e2" by (rule ring_inv_irq[OF inv1])
  have b: "busy_slots ?e1 = [unat (sq_tail e)]"
    using busy_slots_enqueue[OF I(1) I(3) I(6) assms(3)] .
  have s1: "sq_tail ?e1 = ring_next (sq_tail e)" "cq_tail ?e1 = cq_tail e" "cq_head ?e1 = cq_head e"
    using I ring_invD[OF I(1)] by (simp_all add: edu_ring_enqueue_room)
  have s2: "sq_tail ?e2 = ring_next (sq_tail e)" "cq_tail ?e2 = ring_next (cq_tail e)" "cq_head ?e2 = cq_head e"
    using b assms(2) s1 by (simp_all add: edu_irq_handler_real)
  have ne: "cq_head ?e2 \<noteq> cq_tail ?e2"
    using idle s2 ring_count_next_tail[of "cq_tail e" "cq_head e"] ring_invD[OF I(1)] I(6)
    by (auto simp: idle_at_def)
  have s3: "sq_tail ?e3 = ring_next (sq_tail e)" "cq_tail ?e3 = ring_next (cq_tail e)"
    "cq_head ?e3 = ring_next (cq_head e)" "inflight ?e3 = inflight ?e2"
    using ne s2 by (simp_all add: edu_poll_cq_def Let_def) (simp_all add: cq_advance_def)
  have "busy_slots ?e3 = []"
    using busy_slots_irq[OF inv1 assms(2)] b s3(4) by (simp add: busy_slots_def)
  moreover have inv3: "ring_inv ?e3" by (rule ring_inv_poll[OF inv2])
  ultimately have "inflight_count ?e3 = 0"
    using length_busy_slots[of ?e3] ring_invD(5)[OF inv3] by simp
  then show ?thesis using inv3 s3 idle by (simp add: idle_at_def round_trip_def unat_ring_next)
qed

text \<open>
  The interrupt status of a device in state \<open>h\<close>. A command is served when the driver has kicked it,
  the device has come to such a state \<open>h\<close>, the handler has run and the completion is polled: what the
  device does at the acknowledgement and at the kick is its own.
\<close>

definition dev_status :: "'h mmio \<Rightarrow> 'h \<Rightarrow> u32" where
  "dev_status D h = fst (io_readl D h EDU_REG_IRQ_STAT)"

lemma irq_status_bar0: "irq_status D e = dev_status D (bar0 e)"
  by (simp add: irq_status_def dev_status_def edu_readl_fst)

definition answered :: "'h \<Rightarrow> edu_submit_req \<Rightarrow> 'h edu_event list" where
  "answered h r = [EvKick r, EvDevice h, EvIrq, EvPoll]"

definition command_served :: "'h \<times> edu_submit_req \<Rightarrow> 'h edu_event list" where
  "command_served = (\<lambda>(h, r). EvEnqueue r # answered h r)"

lemma kick_bar0 [simp]: "(snd (edu_ring_kick D r e))\<lparr>bar0 := h\<rparr> = e\<lparr>bar0 := h\<rparr>"
  by (subst edu_ring_kick_snd) simp

lemma enqueue_bar0 [simp]:
  "snd (edu_ring_enqueue r (e\<lparr>bar0 := h\<rparr>)) = (snd (edu_ring_enqueue r e))\<lparr>bar0 := h\<rparr>"
  by (simp add: edu_ring_enqueue_def Let_def)

lemma events_answered: "edu_events D (answered h r) e = edu_events D [EvIrq, EvPoll] (e\<lparr>bar0 := h\<rparr>)"
  by (simp add: answered_def)

lemma run_answered:
  "run_reads D (answered h r) e = run_reads D [EvIrq, EvPoll] (e\<lparr>bar0 := h\<rparr>)"
  "run_irqs D (answered h r) e = (if dev_status D h \<noteq> 0 then 1 else 0)"
  by (simp_all add: answered_def irq_status_bar0)

lemma idle_at_bar0 [simp]: "idle_at i (e\<lparr>bar0 := h\<rparr>) = idle_at i e"
  by (simp add: idle_at_def inflight_count_def)

lemma idle_after_served:
  assumes "idle_at i e" and "dev_status D h \<noteq> 0" and "sub_opcode r \<noteq> 0"
  shows "idle_at ((i + 1) mod RING_SIZE) (edu_events D (command_served (h, r)) e)"
  using idle_at_round_trip[of i "e\<lparr>bar0 := h\<rparr>" D r] assms
  by (simp add: command_served_def events_answered round_trip_def irq_status_bar0)

lemma idle_at_rounds:
  assumes "dev_status D h \<noteq> 0" and "sub_opcode r \<noteq> 0"
  shows "n < RING_SIZE \<Longrightarrow>
    idle_at n (edu_events D (concat (replicate n (command_served (h, r)))) (edu_open e))"
proof (induction n)
  case 0
  then show ?case by (simp add: idle_at_open)
next
  case (Suc n)
  have "concat (replicate (Suc n) (command_served (h, r))) =
      concat (replicate n (command_served (h, r))) @ command_served (h, r)"
    by (simp flip: replicate_append_same)
  then show ?case
    using idle_after_served[OF _ assms, of n] Suc by (simp add: edu_events_append del: replicate.simps)
qed

section \<open>The wrap starves a slot\<close>

lemma run_reads_append: "run_reads D (xs @ ys) e = run_reads D xs e @ run_reads D ys (edu_events D xs e)"
  by (induction xs arbitrary: e) simp_all

text \<open>An interrupt with slot \<open>j\<close> the first busy one, and the poll of its completion.\<close>

lemma irq_then_poll:
  fixes D :: "'h mmio"
  assumes inv: "ring_inv e" and list: "cq_list e = []" and b: "busy_slots e = j # bs" and st: "irq_status D e \<noteq> 0"
  defines "e' \<equiv> edu_events D [EvIrq, EvPoll] e"
  shows "map cr_tag (run_reads D [EvIrq, EvPoll] e) = [sq_tag (sq_get (dma_virt e) j)]"
    and "ring_inv e'" "busy_slots e' = bs" "cq_list e' = []"
    and "sq_tail e' = sq_tail e" "cq_tail e' = ring_next (cq_tail e)" "cq_head e' = ring_next (cq_head e)"
    and "k < RING_SIZE \<Longrightarrow> sq_get (dma_virt e') k = sq_get (dma_virt e) k"
proof -
  let ?e2 = "snd (edu_irq_handler D e)"
  have inv2: "ring_inv ?e2" by (rule ring_inv_irq[OF inv])
  have l2: "cq_list ?e2 = [abs_completion (irq_fact D e) (sq_get (dma_virt e) j)]"
    using cq_list_irq_slot[OF inv st b] list by simp
  then have ne: "\<not> cq_empty ?e2" using cq.empty_iff[OF ring_invD(1)[OF inv2]] by simp
  then have poll: "edu_poll_cq ?e2 = (Inr (report (cq_front ?e2)), cq_advance ?e2)"
    by (simp add: edu_poll_cq_def cq_empty_def report_def Let_def)
  have front: "cq_front ?e2 = abs_completion (irq_fact D e) (sq_get (dma_virt e) j)"
    using cq_front_hd[OF ring_invD(1)[OF inv2] ne] l2 by simp
  have e': "e' = cq_advance ?e2" by (simp add: e'_def poll)
  show "map cr_tag (run_reads D [EvIrq, EvPoll] e) = [sq_tag (sq_get (dma_virt e) j)]"
    by (simp add: poll front report_def abs_completion_def)
  show "ring_inv e'" using ring_inv_poll[OF inv2] by (simp add: e' poll)
  show "cq_list e' = []" using cq_list_advance[OF ring_invD(1)[OF inv2] ne] l2 by (simp add: e')
  have "busy_slots (cq_advance x) = busy_slots x" for x :: "'h edu_dev" by (simp add: busy_slots_def cq_advance_def)
  then show "busy_slots e' = bs" using busy_slots_irq[OF inv st] b by (simp add: e')
  show "sq_tail e' = sq_tail e" "cq_tail e' = ring_next (cq_tail e)" "cq_head e' = ring_next (cq_head e)"
    using st b by (simp_all add: e' cq_advance_def edu_irq_handler_real)
  show "sq_get (dma_virt e') k = sq_get (dma_virt e) k" if "k < RING_SIZE"
    using sq_get_irq[OF that, of D e] by (simp add: e' cq_advance_def)
qed

text \<open>Slot 63 holds command \<open>r1\<close> in flight, although the slots taken are those from \<open>i - 1\<close> to \<open>i\<close>.\<close>

definition starved_at :: "edu_submit_req \<Rightarrow> nat \<Rightarrow> 'h edu_dev \<Rightarrow> bool" where
  "starved_at r1 i e \<longleftrightarrow> ring_inv e \<and> unat (sq_tail e) = i \<and> ring_next (cq_head e) = sq_tail e \<and>
     cq_list e = [] \<and> busy_slots e = [RING_SIZE - 1] \<and> sq_get (dma_virt e) (RING_SIZE - 1) = sq_entry_of r1"

lemma starvedD:
  assumes "starved_at r1 i e"
  shows "ring_inv e" "unat (sq_tail e) = i" "ring_next (cq_head e) = sq_tail e" "cq_list e = []"
    "busy_slots e = [RING_SIZE - 1]" "sq_get (dma_virt e) (RING_SIZE - 1) = sq_entry_of r1"
    "\<not> ring_full (sq_tail e) (cq_head e)"
proof -
  show inv: "ring_inv e" and "unat (sq_tail e) = i" and n: "ring_next (cq_head e) = sq_tail e" and "cq_list e = []"
    "busy_slots e = [RING_SIZE - 1]" "sq_get (dma_virt e) (RING_SIZE - 1) = sq_entry_of r1"
    using assms by (simp_all add: starved_at_def)
  have "unat (ring_next (ring_next (cq_head e))) \<noteq> unat (cq_head e)"
    using ring_invD(4)[OF inv] by (auto simp: unat_ring_next RING_SIZE_def mod_Suc split: if_splits)
  then show "\<not> ring_full (sq_tail e) (cq_head e)"
    using n ring_mask_id[OF ring_invD(4)[OF inv]] by (auto simp: ring_full_def)
qed

lemma starved_enqueue:
  assumes s: "starved_at r1 i e" and "sub_opcode r \<noteq> 0" and i: "i < RING_SIZE"
  defines "e1 \<equiv> snd (edu_ring_enqueue r e)"
  shows "ring_inv e1" "cq_list e1 = []" "sq_get (dma_virt e1) i = sq_entry_of r"
    "busy_slots e1 = (if i = RING_SIZE - 1 then [i] else [i, RING_SIZE - 1])"
    "sq_tail e1 = ring_next (sq_tail e)" "cq_head e1 = cq_head e"
    "i < RING_SIZE - 1 \<Longrightarrow> sq_get (dma_virt e1) (RING_SIZE - 1) = sq_entry_of r1"
proof -
  note S = starvedD[OF s]
  show "ring_inv e1" unfolding e1_def by (rule ring_inv_enqueue[OF S(1)])
  have q: "e1 = snd (edu_ring_enqueue r e)" by (simp add: e1_def)
  have busy: "inflight e ! j \<noteq> 0 \<longleftrightarrow> j = RING_SIZE - 1" if "j < RING_SIZE" for j
  proof -
    have "j \<in> set (busy_slots e) \<longleftrightarrow> inflight e ! j \<noteq> 0" using that by (simp add: busy_slots_def)
    then show ?thesis using S(5) by simp
  qed
  have last: "inflight e ! 63 \<noteq> 0" and zero: "j < 64 \<Longrightarrow> j \<noteq> 63 \<Longrightarrow> inflight e ! j = 0" for j
    using busy[of 63] busy[of j] by (auto simp: RING_SIZE_def)
  have "{j. j < RING_SIZE \<and> inflight e1 ! j \<noteq> 0} = {i, RING_SIZE - 1}"
    using S(2,7) assms(2) i zero last ring_invD(2,5)[OF S(1)]
    by (auto simp: q edu_ring_enqueue_room nth_list_update RING_SIZE_def split: if_splits)
  then have "busy_slots e1 = sorted_list_of_set {i, RING_SIZE - 1}" by (simp add: busy_slots_sorted)
  then show "busy_slots e1 = (if i = RING_SIZE - 1 then [i] else [i, RING_SIZE - 1])"
    using i by (auto simp: RING_SIZE_def)
  show "cq_list e1 = []" "sq_tail e1 = ring_next (sq_tail e)" "cq_head e1 = cq_head e"
    "sq_get (dma_virt e1) i = sq_entry_of r"
    using S ring_invD(2)[OF S(1)] by (simp_all add: q) (simp_all add: edu_ring_enqueue_room)
  show "sq_get (dma_virt e1) (RING_SIZE - 1) = sq_entry_of r1" if "i < RING_SIZE - 1"
    using that S ring_invD(2)[OF S(1)] by (simp add: q edu_ring_enqueue_room)
qed

lemma answered_effect:
  fixes D :: "'h mmio" and r :: edu_submit_req
  assumes inv: "ring_inv e" and list: "cq_list e = []" and b: "busy_slots e = j # bs" and st: "dev_status D h \<noteq> 0"
  defines "e' \<equiv> edu_events D (answered h r) e"
  shows "map cr_tag (run_reads D (answered h r) e) = [sq_tag (sq_get (dma_virt e) j)]"
    and "ring_inv e'" "busy_slots e' = bs" "cq_list e' = []"
    and "sq_tail e' = sq_tail e" "cq_tail e' = ring_next (cq_tail e)" "cq_head e' = ring_next (cq_head e)"
    and "k < RING_SIZE \<Longrightarrow> sq_get (dma_virt e') k = sq_get (dma_virt e) k"
  using irq_then_poll[where e = "e\<lparr>bar0 := h\<rparr>" and D = D and j = j and bs = bs] assms
  by (simp_all add: e'_def events_answered run_answered irq_status_bar0 busy_slots_def
      del: edu_events_simps run_reads.simps)

lemma starved_round:
  assumes s: "starved_at r1 i e" and "sub_opcode r \<noteq> 0" and i: "i < RING_SIZE - 1" and st: "dev_status D h \<noteq> 0"
  shows "map cr_tag (run_reads D (command_served (h, r)) e) = [sub_tag r]"
    and "starved_at r1 (Suc i) (edu_events D (command_served (h, r)) e)"
proof -
  have "i < RING_SIZE" using i by simp
  note Q = starved_enqueue[OF s assms(2) this]
  have b: "busy_slots (snd (edu_ring_enqueue r e)) = [i, RING_SIZE - 1]" using Q(4) i by simp
  note P = answered_effect[OF Q(1,2) b st, where r = r]
  show "map cr_tag (run_reads D (command_served (h, r)) e) = [sub_tag r]"
    using P(1) Q(3) by (simp add: command_served_def sq_entry_of_def)
  have "unat (ring_next (sq_tail e)) = Suc i" using starvedD(2)[OF s] i by (simp add: unat_ring_next)
  then show "starved_at r1 (Suc i) (edu_events D (command_served (h, r)) e)"
    using P(2-8) Q(5-7) starvedD(3)[OF s] i
    by (simp add: starved_at_def command_served_def)
qed

lemma starved_rounds:
  "starved_at r1 i e \<Longrightarrow> list_all (\<lambda>(h, r). dev_status D h \<noteq> 0 \<and> sub_opcode r \<noteq> 0) hrs \<Longrightarrow> i + length hrs < RING_SIZE \<Longrightarrow>
    map cr_tag (run_reads D (concat (map command_served hrs)) e) = map (sub_tag \<circ> snd) hrs \<and>
    starved_at r1 (i + length hrs) (edu_events D (concat (map command_served hrs)) e)"
proof (induction hrs arbitrary: i e)
  case Nil
  then show ?case by simp
next
  case (Cons hr hrs)
  obtain h r where hr: "hr = (h, r)" by (cases hr)
  have "i < RING_SIZE - 1" using Cons.prems(3) by simp
  with starved_round[OF Cons.prems(1), of r D h] Cons.prems
    Cons.IH[of "Suc i" "edu_events D (command_served (h, r)) e"]
  show ?case by (simp add: hr run_reads_append edu_events_append)
qed

text \<open>Two commands submitted in a row when the next slot is the last one: the interrupt is reported
  for the second, and the first starves.\<close>

definition two_submitted :: "edu_submit_req \<Rightarrow> edu_submit_req \<Rightarrow> 'h \<Rightarrow> 'h edu_event list" where
  "two_submitted r1 r2 h = [EvEnqueue r1, EvKick r1, EvEnqueue r2] @ answered h r2"

lemma starved_start:
  assumes idle: "idle_at (RING_SIZE - 1) e" and "sub_opcode r1 \<noteq> 0" and "sub_opcode r2 \<noteq> 0"
    and st: "dev_status D h \<noteq> 0"
  shows "map cr_tag (run_reads D (two_submitted r1 r2 h) e) = [sub_tag r2]"
    and "starved_at r1 1 (edu_events D (two_submitted r1 r2 h) e)"
proof -
  let ?e2 = "snd (edu_ring_enqueue r2 (snd (edu_ring_enqueue r1 e)))"
  let ?k = "snd (edu_ring_enqueue r2 (snd (edu_ring_kick D r1 (snd (edu_ring_enqueue r1 e)))))"
  have "?k = ?e2\<lparr>bar0 := bar0 (snd (edu_ring_kick D r1 (snd (edu_ring_enqueue r1 e))))\<rparr>"
    by (subst edu_ring_kick_snd) simp
  then obtain h' where k: "?k = ?e2\<lparr>bar0 := h'\<rparr>" by blast
  note I = idle_atD[OF idle]
  note two = two_enqueues[OF idle assms(2,3)]
  have b: "busy_slots ?e2 = [0, RING_SIZE - 1]" using two(1) by (simp add: RING_SIZE_def)
  note P = answered_effect[OF two(4,5) b st, where r = r2]
  have run: "edu_events D (two_submitted r1 r2 h) e = edu_events D (answered h r2) ?e2"
    "run_reads D (two_submitted r1 r2 h) e = run_reads D (answered h r2) ?e2"
    by (simp_all add: two_submitted_def k events_answered run_answered del: edu_ring_kick_fields)
  have head: "cq_head e = sq_tail e" using idle by (simp add: idle_at_def)
  have "ring_next (sq_tail e) = 0" using I(2) by (simp add: word_unat_eq_iff unat_ring_next RING_SIZE_def)
  then have t: "ring_next (sq_tail e) = 0" "sq_tail ?e2 = 1" "cq_head ?e2 = sq_tail e"
    using two(6,7) head by (simp_all add: ring_next_def RING_MASK_def RING_SIZE_def)
  show "map cr_tag (run_reads D (two_submitted r1 r2 h) e) = [sub_tag r2]"
    using P(1) two(3) unfolding run by (simp add: RING_SIZE_def sq_entry_of_def)
  have "ring_next 0 = 1" by (simp add: ring_next_def RING_MASK_def RING_SIZE_def)
  then show "starved_at r1 1 (edu_events D (two_submitted r1 r2 h) e)"
    using P(2-8) two(2) t unfolding run by (simp add: starved_at_def RING_SIZE_def)
qed

text \<open>An interrupt with nothing in flight, and the poll after it.\<close>

lemma irq_then_poll_idle:
  fixes D :: "'h mmio"
  assumes inv: "ring_inv e" and list: "cq_list e = []" and b: "busy_slots e = []" and st: "irq_status D e \<noteq> 0"
  defines "e' \<equiv> edu_events D [EvIrq, EvPoll] e"
  shows "run_reads D [EvIrq, EvPoll] e = []" and "ring_inv e'" "busy_slots e' = []" "cq_list e' = []"
    and "sq_tail e' = sq_tail e" "cq_head e' = cq_head e"
proof -
  let ?e2 = "snd (edu_irq_handler D e)"
  have inv2: "ring_inv ?e2" by (rule ring_inv_irq[OF inv])
  have l2: "cq_list ?e2 = []" using cq_list_irq[OF inv st] list b by simp
  then have "cq_empty ?e2" using cq.empty_iff[OF ring_invD(1)[OF inv2]] by simp
  then have poll: "edu_poll_cq ?e2 = (Inl EAGAIN, ?e2)" by (simp add: edu_poll_cq_def cq_empty_def)
  show "run_reads D [EvIrq, EvPoll] e = []" by (simp add: poll)
  have "e' = ?e2" by (simp add: e'_def poll)
  moreover have "sq_tail ?e2 = sq_tail e" "cq_head ?e2 = cq_head e" using b st by (simp_all add: edu_irq_handler_real)
  ultimately show "ring_inv e'" "busy_slots e' = []" "cq_list e' = []" "sq_tail e' = sq_tail e" "cq_head e' = cq_head e"
    using inv2 l2 busy_slots_irq[OF inv st] b by simp_all
qed

lemma run_irqs_append: "run_irqs D (xs @ ys) e = run_irqs D xs e + run_irqs D ys (edu_events D xs e)"
  by (induction xs arbitrary: e) simp_all

lemma run_irqs_rounds:
  "list_all (\<lambda>(h, r). dev_status D h \<noteq> 0 \<and> sub_opcode r \<noteq> 0) hrs \<Longrightarrow>
    run_irqs D (concat (map command_served hrs)) e = length hrs"
  by (induction hrs arbitrary: e) (auto simp: run_irqs_append run_answered command_served_def)

text \<open>C27. Around the wrap a command is lost. The next slot is the last one and two commands are
  submitted in a row; the device interrupts once for each of the 65 commands of the run, in states
  \<open>h\<close> of its own in which its status register is not 0. The first interrupt is reported for the second
  command and the first command stays in flight in slot 63, while the next 62 commands are each
  submitted, served and read. Then the ring has room, but the slot at its tail is still in flight,
  and the next submission overwrites it. Of 65 commands with 65 interrupts, 64 completions are
  read, none of the first command, and one slot stays taken with nothing in flight or unread.\<close>

theorem wrap_loses_command:
  assumes "reach edu_init (edu_step D) e" and "idle_at (RING_SIZE - 1) e"
    and "sub_opcode r1 \<noteq> 0" and "sub_opcode r2 \<noteq> 0" and "sub_opcode r \<noteq> 0"
    and "list_all (\<lambda>(h, r). dev_status D h \<noteq> 0 \<and> sub_opcode r \<noteq> 0) hrs" and "length hrs = 62"
    and "dev_status D h1 \<noteq> 0" and "dev_status D h2 \<noteq> 0" and "dev_status D h3 \<noteq> 0"
  shows "let evs = two_submitted r1 r2 h1 @ concat (map command_served hrs) @
        command_served (h2, r) @ [EvDevice h3, EvIrq, EvPoll]; e' = edu_events D evs e in
    map cr_tag (run_reads D evs e) = sub_tag r2 # map (sub_tag \<circ> snd) hrs @ [sub_tag r] \<and>
    run_irqs D evs e = 65 \<and> inflight_count e' = 0 \<and> cq_count e' = 0 \<and> outstanding e' = 1"
proof -
  let ?start = "two_submitted r1 r2 h1" and ?mid = "concat (map command_served hrs)"
    and ?last = "[EvDevice h3, EvIrq, EvPoll]"
  define e1 where "e1 = edu_events D ?start e"
  define e2 where "e2 = edu_events D ?mid e1"
  define e3 where "e3 = snd (edu_ring_enqueue r e2)"
  define e4 where "e4 = edu_events D (answered h2 r) e3"
  define e5 where "e5 = edu_events D [EvIrq, EvPoll] (e4\<lparr>bar0 := h3\<rparr>)"
  note S = starved_start[OF assms(2-4,8), folded e1_def]
  have M: "map cr_tag (run_reads D ?mid e1) = map (sub_tag \<circ> snd) hrs" "starved_at r1 63 e2"
    using starved_rounds[OF S(2) assms(6)] assms(7) by (simp_all add: RING_SIZE_def e2_def)
  have q: "ring_inv e3" "cq_list e3 = []" "sq_get (dma_virt e3) 63 = sq_entry_of r" "busy_slots e3 = [63]"
    "sq_tail e3 = ring_next (sq_tail e2)" "cq_head e3 = cq_head e2"
    using starved_enqueue[OF M(2) assms(5), folded e3_def] by (simp_all add: RING_SIZE_def)
  note P = answered_effect[OF q(1,2,4) assms(9), where r = r, folded e4_def]
  have idle4: "ring_inv (e4\<lparr>bar0 := h3\<rparr>)" "cq_list (e4\<lparr>bar0 := h3\<rparr>) = []" "busy_slots (e4\<lparr>bar0 := h3\<rparr>) = []"
    "irq_status D (e4\<lparr>bar0 := h3\<rparr>) \<noteq> 0"
    using P(2-4) assms(10) by (simp_all add: irq_status_bar0)
  note Z = irq_then_poll_idle[OF idle4, folded e5_def]
  have last_served: "command_served (h2, r) = EvEnqueue r # answered h2 r" by (simp add: command_served_def)
  have run: "edu_events D (?start @ ?mid @ command_served (h2, r) @ ?last) e = e5"
    by (simp add: edu_events_append last_served e5_def flip: e1_def e2_def e3_def e4_def)
  have reads: "map cr_tag (run_reads D (?start @ ?mid @ command_served (h2, r) @ ?last) e) =
      sub_tag r2 # map (sub_tag \<circ> snd) hrs @ [sub_tag r]"
    using S(1) M(1) P(1) Z(1) q(3)
    by (simp add: run_reads_append last_served sq_entry_of_def flip: e1_def e2_def e3_def e4_def)
  have "run_irqs D ?mid x = 62" for x using run_irqs_rounds[OF assms(6)] assms(7) by simp
  then have irqs: "run_irqs D (?start @ ?mid @ command_served (h2, r) @ ?last) e = 65"
    using assms(8-10)
    by (simp add: run_irqs_append two_submitted_def last_served run_answered irq_status_bar0)
  have "sq_tail e5 = ring_next (ring_next (cq_head e2))" "cq_head e5 = ring_next (cq_head e2)"
    using Z(5,6) P(5,7) q(5,6) starvedD(3)[OF M(2)] by simp_all
  moreover have "unat (ring_next (ring_next (cq_head e2))) = 0"
    using starvedD(2,3)[OF M(2)] by (simp add: unat_ring_next RING_SIZE_def)
  moreover have "unat (ring_next (cq_head e2)) = 63" using starvedD(2,3)[OF M(2)] by simp
  ultimately have "outstanding e5 = 1" by (simp add: outstanding_def ring_count_eq RING_SIZE_def)
  moreover have "inflight_count e5 = 0" "cq_count e5 = 0"
    using length_busy_slots[OF ring_invD(5)[OF Z(2)]] Z(3) arg_cong[OF Z(4), of length] by simp_all
  ultimately show ?thesis unfolding Let_def run reads irqs by simp
qed

text \<open>The witness is a device with one status register, which a write to the acknowledge register
  clears: its state is the value of that register.\<close>

definition wit_status_dev :: "u32 mmio" where
  "wit_status_dev = \<lparr>
     io_readl = (\<lambda>h r. (if r = EDU_REG_IRQ_STAT then h else if r = EDU_REG_FACT then 120 else 0, h)),
     io_writel = (\<lambda>h r v. if r = EDU_REG_IRQ_ACK then h AND NOT v else h),
     io_writeq = (\<lambda>h r v. h), io_msleep = (\<lambda>h n. h)\<rparr>"

theorem wrap_loses_command_witness:
  "\<exists>e. reach edu_init (edu_step wit_status_dev) e \<and>
    (let evs = two_submitted (wit_req 1) (wit_req 2) 1 @ concat (map command_served (replicate 62 (1, wit_req 3))) @
        command_served (1, wit_req 4) @ [EvDevice 1, EvIrq, EvPoll]
     in map cr_tag (run_reads wit_status_dev evs e) = 2 # replicate 62 3 @ [4])"
proof -
  let ?D = wit_status_dev
  let ?e = "edu_events ?D (EvOpen # concat (replicate 63 (command_served (1, wit_req 1)))) (edu_fresh 0 0x1000)"
  have st: "dev_status ?D 1 \<noteq> 0" by (simp add: dev_status_def wit_status_dev_def)
  have "edu_init (edu_fresh 0 0x1000 :: u32 edu_dev)" by (auto simp: edu_init_def)
  then have r: "reach edu_init (edu_step ?D) ?e" by (rule reach_events)
  have ops: "sub_opcode (wit_req t) \<noteq> 0" for t by (simp add: edu_ops)
  have idle: "idle_at (RING_SIZE - 1) ?e" using idle_at_rounds[OF st ops, of 63] by (simp add: RING_SIZE_def)
  have "list_all (\<lambda>(h, r). dev_status ?D h \<noteq> 0 \<and> sub_opcode r \<noteq> 0) (replicate 62 (1, wit_req 3))"
    using st ops by (simp add: list_all_iff del: wit_req_fields)
  from wrap_loses_command[OF r idle ops[of 1] ops[of 2] ops[of 4] this _ st st st] r
  show ?thesis by (intro exI[of _ ?e]) (simp add: Let_def del: edu_events_simps run_reads.simps run_irqs.simps)
qed

section \<open>Commands the device never saw\<close>

text \<open>C26. A refused command leaves its slot in flight, and the next interrupt is reported for it:
  after an open, a submission with an unknown opcode is answered \<open>EINVAL\<close>, a factorial behind it
  is accepted, and the factorial's interrupt posts the refused command's tag with result 0, while
  the factorial stays in flight.\<close>

theorem bad_opcode_steals_completion:
  assumes "sub_opcode r1 \<noteq> 0" and "sub_opcode r1 \<noteq> EDU_OP_FACTORIAL" and "sub_opcode r1 \<noteq> EDU_OP_DMA_TEST"
    and "sub_opcode r2 = EDU_OP_FACTORIAL"
    and "irq_status D ((snd (edu_ring_submit D r2 (snd (edu_ring_submit D r1 (edu_open e)))))\<lparr>bar0 := h\<rparr>) \<noteq> 0"
  shows "fst (edu_ring_submit D r1 (edu_open e)) = Inl EINVAL \<and>
    fst (edu_ring_submit D r2 (snd (edu_ring_submit D r1 (edu_open e)))) = ok \<and>
    (let e2 = (snd (edu_ring_submit D r2 (snd (edu_ring_submit D r1 (edu_open e)))))\<lparr>bar0 := h\<rparr>;
         e3 = snd (edu_irq_handler D e2) in
      fst (edu_poll_cq e3) = Inr \<lparr>cr_tag = sub_tag r1, cr_status = 0, cr_pad = 0, cr_result = 0\<rparr> \<and>
      busy_slots e3 = [1])"
proof -
  let ?n1 = "snd (edu_ring_enqueue r1 (edu_open e))"
  let ?s1 = "snd (edu_ring_submit D r1 (edu_open e))"
  let ?s2 = "snd (edu_ring_submit D r2 ?s1)"
  note I = idle_atD[OF idle_at_open[of e]]
  have s1: "?s1 = ?n1"
    using assms(2,3) edu_ring_submit_snd[OF I(6), of D r1] by (simp add: edu_ring_kick_def)
  have inv1: "ring_inv ?n1" by (rule ring_inv_enqueue[OF I(1)])
  have "outstanding ?n1 = 1"
    using outstanding_enqueue[OF I(1), of r1] I(4) by (simp add: RING_SIZE_def)
  then have room: "\<not> ring_full (sq_tail ?n1) (cq_head ?n1)"
    using full_iff_outstanding[OF inv1] by (simp add: RING_SIZE_def)
  have s2: "?s2 = snd (edu_ring_kick D r2 (snd (edu_ring_enqueue r2 ?n1)))"
    using edu_ring_submit_snd[OF room, of D r2] by (simp add: s1)
  have "sub_opcode r2 \<noteq> 0" using assms(4) by (simp add: edu_ops)
  note two = two_enqueues[OF idle_at_open assms(1) this, of e]
  have inv2: "ring_inv (?s2\<lparr>bar0 := h\<rparr>)" using two(4) by (simp add: s2)
  have busy: "busy_slots (?s2\<lparr>bar0 := h\<rparr>) = [0, 1]" using two(1) by (simp add: s2 RING_SIZE_def)
  have "cq_list (snd (edu_irq_handler D (?s2\<lparr>bar0 := h\<rparr>))) =
      [abs_completion (irq_fact D (?s2\<lparr>bar0 := h\<rparr>)) (sq_entry_of r1)]"
    using cq_list_irq_slot[OF inv2 assms(5) busy] two(2,5) by (simp add: s2)
  then have "fst (edu_poll_cq (snd (edu_irq_handler D (?s2\<lparr>bar0 := h\<rparr>)))) =
      Inr \<lparr>cr_tag = sub_tag r1, cr_status = 0, cr_pad = 0, cr_result = 0\<rparr>"
    using poll_after[OF ring_inv_irq[OF inv2, of D]] assms(2)
    by (simp add: report_def abs_completion_def sq_entry_of_def)
  moreover have "busy_slots (snd (edu_irq_handler D (?s2\<lparr>bar0 := h\<rparr>))) = [1]"
    using busy_slots_irq[OF inv2 assms(5)] busy by simp
  moreover have "fst (edu_ring_submit D r1 (edu_open e)) = Inl EINVAL" "fst (edu_ring_submit D r2 ?s1) = ok"
    using assms(2-4) I(6) edu_ring_submit_ret[of D r2 ?n1] room by (simp_all add: edu_ring_submit_ret s1)
  ultimately show ?thesis by (simp add: Let_def)
qed

theorem bad_opcode_steals_completion_witness:
  "fst (edu_poll_cq (snd (edu_irq_handler wit_dev ((snd (edu_ring_submit wit_dev (wit_req 2)
      (snd (edu_ring_submit wit_dev ((wit_req 1)\<lparr>sub_opcode := 0xFF\<rparr>) (edu_open wit_edu)))))\<lparr>bar0 := []\<rparr>)))) =
    Inr \<lparr>cr_tag = 1, cr_status = 0, cr_pad = 0, cr_result = 0\<rparr>"
  using bad_opcode_steals_completion[of "(wit_req 1)\<lparr>sub_opcode := 0xFF\<rparr>" "wit_req 2" wit_dev "[]" wit_edu]
  by (simp add: edu_ops Let_def)

text \<open>An open drops the commands in flight without telling the device: the interrupt of a
  command submitted before the open posts nothing, and if another command was submitted since, the
  interrupt is reported for that one.\<close>

lemma open_misattributes_interrupt:
  assumes "irq_status D (edu_open e) \<noteq> 0" and "sub_opcode r \<noteq> 0"
    and "irq_status D (snd (edu_ring_enqueue r (edu_open e))) \<noteq> 0"
  shows "run_posts D [EvOpen, EvIrq] e = [] \<and>
    map cq_tag (run_posts D [EvOpen, EvEnqueue r, EvIrq] e) = [sub_tag r]"
proof -
  note I = idle_atD[OF idle_at_open[of e]]
  have "busy_slots (snd (edu_ring_enqueue r (edu_open e))) = [0]"
    using busy_slots_enqueue[OF I(1) I(3) I(6) assms(2)] I(2) by simp
  moreover have "busy_slots (edu_open e) = []" using I(1,3) by (rule busy_slots_idle)
  moreover have "sq_tag (sq_get (dma_virt (snd (edu_ring_enqueue r (edu_open e)))) 0) = sub_tag r"
    using sq_get_enqueue[OF I(1,6), of r] I(2) by (simp add: sq_entry_of_def)
  ultimately show ?thesis using assms by (simp add: completion_of_def)
qed

end
