(* ===== verification/Edu_Blocking.thy ===== *)
theory Edu_Blocking
  imports Edu_Hazards
begin

text \<open>
  The blocking ioctls of the EDU driver: when they succeed and what they report, the fault
  injection, and how they interfere with the rings, which share the interrupt, the factorial
  register and the first bytes of the slab with them.
\<close>

section \<open>What the other contexts leave alone\<close>

lemma legacy_event [simp]:
  "last_fact_in (edu_do D ev e) = last_fact_in e"
  "last_fact_out (edu_do D ev e) = last_fact_out e"
  "dma_ok (edu_do D ev e) = dma_ok e"
proof -
  have irq: "last_fact_in (snd (edu_irq_handler D e)) = last_fact_in e \<and>
      last_fact_out (snd (edu_irq_handler D e)) = last_fact_out e \<and>
      dma_ok (snd (edu_irq_handler D e)) = dma_ok e" for e :: "'a edu_dev"
    by (cases "irq_status D e = 0")
      (auto simp: edu_irq_handler_spurious edu_irq_handler_real edu_irq_signal_def
        edu_post_completion_def edu_cqe_result_def edu_readl_def cq_push_def irq_acked_def edu_writel_def
        split_def Let_def split: list.splits option.splits)
  show "last_fact_in (edu_do D ev e) = last_fact_in e" "last_fact_out (edu_do D ev e) = last_fact_out e"
    "dma_ok (edu_do D ev e) = dma_ok e"
    by (cases ev; simp add: irq edu_ring_enqueue_def edu_poll_cq_def cq_advance_def edu_open_def
        edu_eventfd_defs inject_fault_store_def edu_dbgfs_stats_write_def edu_ring_kick_def
        edu_writel_def edu_writeq_def Let_def split: sum.split option.split)+
qed

lemma legacy_events [simp]:
  "last_fact_in (edu_events D evs e) = last_fact_in e"
  "last_fact_out (edu_events D evs e) = last_fact_out e"
  "dma_ok (edu_events D evs e) = dma_ok e"
  by (induction evs arbitrary: e) simp_all

section \<open>The factorial ioctl\<close>

lemma fact_started_fields [simp]:
  "last_fact_in (fact_started D before req e) = fr_input req"
  "last_fact_out (fact_started D before req e) = last_fact_out e"
  by (simp_all add: fact_started_def edu_writel_def)

text \<open>The factorial ioctl succeeds iff an interrupt with a status comes while it waits; it then
  returns the factorial register and the last interrupt's status and remembers the output; in every
  other interleaving it is \<open>ETIMEDOUT\<close> and the remembered output is the old one. The input is
  remembered in both.\<close>

lemma factorial_outcome:
  "let r = fst (edu_run_factorial D before during req e);
       e' = snd (edu_run_factorial D before during req e);
       s = fact_started D before req e
   in (if some_completes D s during
       then r = Inr (req\<lparr>fr_output := last_fact_out e', fr_irq_status := last_irq e'\<rparr>) \<and>
         last_fact_out e' = fst (edu_readl D EDU_REG_FACT (edu_events D during s))
       else r = Inl ETIMEDOUT \<and> last_fact_out e' = last_fact_out e) \<and>
     last_fact_in e' = fr_input req"
  by (simp add: edu_run_factorial_eq Let_def edu_readl_snd)

text \<open>A fast device's interrupt is lost: when it comes after the start of the device and
  before the wait, the handler acknowledges and counts it, and the factorial ioctl still ends in
  \<open>ETIMEDOUT\<close>.\<close>

lemma factorial_lost_wakeup:
  assumes "irq_status D (edu_writel D EDU_REG_FACT (fr_input req) (edu_writel D EDU_REG_STATUS EDU_STATUS_IRQ_EN
      (e\<lparr>last_fact_in := fr_input req, last_irq := 0, stat_factorial_ops := stat_factorial_ops e + 1\<rparr>))) \<noteq> 0"
  shows "fst (edu_run_factorial D [EvIrq] [] req e) = Inl ETIMEDOUT \<and>
    last_irq (snd (edu_run_factorial D [EvIrq] [] req e)) \<noteq> 0 \<and>
    stat_irq_total (snd (edu_run_factorial D [EvIrq] [] req e)) = stat_irq_total e + 1"
proof -
  have irq: "last_irq (snd (edu_irq_handler D x)) = irq_status D x \<and>
      stat_irq_total (snd (edu_irq_handler D x)) = stat_irq_total x + 1" if "irq_status D x \<noteq> 0" for x :: "'a edu_dev"
    using that
    by (auto simp: edu_irq_handler_real edu_irq_signal_def edu_post_completion_def edu_cqe_result_def
        edu_readl_def cq_push_def irq_acked_def irq_status_def edu_writel_def split_def Let_def
        split: list.splits option.splits)
  show ?thesis
    using irq[OF assms] assms by (simp add: edu_run_factorial_eq fact_started_def Let_def)
      (simp add: edu_writel_def)
qed

text \<open>One interrupt serves both paths: when it comes during a factorial ioctl while a command of
  the rings is in flight, the ioctl returns the factorial register and the rings post a completion
  for the first busy slot, and if that is a factorial, with the value of the same register.\<close>

lemma interrupt_serves_both:
  assumes "reach edu_init (edu_step D) e" and "busy_slots e = i # rest"
    and "irq_status D (fact_started D [] req e) \<noteq> 0"
  shows "(\<exists>out. fst (edu_run_factorial D [] [EvIrq] req e) = Inr out) \<and>
    cq_list (snd (edu_run_factorial D [] [EvIrq] req e)) =
      cq_list e @ [abs_completion (irq_fact D (fact_started D [] req e)) (sq_get (dma_virt e) i)]"
proof -
  let ?s = "fact_started D [] req e"
  have inv: "ring_inv e" using assms(1) by (rule edu_sys.reach_inv)
  have same: "ring_inv ?s" "busy_slots ?s = i # rest" "cq_list ?s = cq_list e" "dma_virt ?s = dma_virt e"
    using inv assms(2) by (simp_all add: fact_started_def edu_writel_def busy_slots_def)
  show ?thesis
    using cq_list_irq_slot[OF same(1) assms(3) same(2)] same(3,4) assms(3)
    by (simp add: edu_run_factorial_eq Let_def edu_readl_snd)
qed

section \<open>The DMA test\<close>

text \<open>The states in which the two waits start, and the one in which the bytes are compared.\<close>

definition dma_wait1 :: "'h mmio \<Rightarrow> 'h edu_event list \<times> 'h edu_event list \<Rightarrow> 'h edu_dev \<Rightarrow> 'h edu_dev" where
  "dma_wait1 D w1 e = (edu_events D (fst w1) (edu_dma_out D e))\<lparr>irq_done := False\<rparr>"

definition dma_wait2 :: "'h mmio \<Rightarrow> 'h edu_event list \<times> 'h edu_event list \<Rightarrow>
    'h edu_event list \<times> 'h edu_event list \<Rightarrow> 'h edu_dev \<Rightarrow> 'h edu_dev" where
  "dma_wait2 D w1 w2 e = (edu_events D (fst w2)
     (edu_dma_back D (edu_events D (snd w1) (dma_wait1 D w1 e))))\<lparr>irq_done := False\<rparr>"

definition dma_landed :: "'h mmio \<Rightarrow> 'h edu_event list \<times> 'h edu_event list \<Rightarrow>
    'h edu_event list \<times> 'h edu_event list \<Rightarrow> 'h edu_dev \<Rightarrow> 'h edu_dev" where
  "dma_landed D w1 w2 e = edu_events D (snd w2) (dma_wait2 D w1 w2 e)"

lemma edu_run_dma_test_eq:
  "edu_run_dma_test D w1 w2 e =
    (if \<not> some_completes D (dma_wait1 D w1 e) (snd w1) then
       (Inl ETIMEDOUT, edu_events D (snd w1) (dma_wait1 D w1 e))
     else if \<not> some_completes D (dma_wait2 D w1 w2 e) (snd w2) then
       (Inl ETIMEDOUT, dma_landed D w1 w2 e)
     else edu_dma_check (dma_landed D w1 w2 e))"
  by (simp add: edu_run_dma_test_def edu_wait_irq_eq dma_wait1_def dma_wait2_def dma_landed_def Let_def)

text \<open>C23. The DMA test passes, and only then sets \<open>dma_ok\<close>, iff both legs raise an interrupt in time,
  the bytes that came back are the pattern and no fault is armed; with the pattern back, an armed
  fault makes it fail with \<open>EIO\<close> once: it is disarmed and the error counted.\<close>

theorem dma_test_outcome:
  "let r = fst (edu_run_dma_test D w1 w2 e); e' = snd (edu_run_dma_test D w1 w2 e);
       f = dma_landed D w1 w2 e
   in if some_completes D (dma_wait1 D w1 e) (snd w1) \<and> some_completes D (dma_wait2 D w1 w2 e) (snd w2)
      then (if mem_read (dma_virt f) 0 EDU_DMA_TEST_LEN = edu_dma_pattern
            then (if inject_fault f = 1
                  then r = Inl EIO \<and> inject_fault e' = 0 \<and> stat_dma_errors e' = stat_dma_errors f + 1 \<and> dma_ok e' = dma_ok e
                  else r = ok \<and> inject_fault e' = inject_fault f \<and> stat_dma_errors e' = stat_dma_errors f \<and> dma_ok e' = 1)
            else r = Inl EIO \<and> stat_dma_errors e' = stat_dma_errors f + 1 \<and> dma_ok e' = dma_ok e)
      else r = Inl ETIMEDOUT \<and> dma_ok e' = dma_ok e"
proof -
  have "dma_ok (dma_wait1 D w1 e) = dma_ok e" "dma_ok (dma_landed D w1 w2 e) = dma_ok e"
    by (simp_all add: dma_wait1_def dma_wait2_def dma_landed_def edu_dma_out_def edu_dma_back_def
        edu_writel_def edu_writeq_def Let_def)
  then show ?thesis by (simp add: edu_run_dma_test_eq edu_dma_check_def Let_def)
qed

section \<open>The DMA test and the submission queue\<close>

lemma cq_list_write_below:
  assumes "off + length bs \<le> SQ_SIZE"
  shows "cq_list (e\<lparr>dma_virt := mem_write (dma_virt e) off bs\<rparr>) = cq_list e"
proof -
  have "cq_get (mem_write (dma_virt e) off bs) = cq_get (dma_virt e)"
    using assms by (auto simp: cq_get_write_below)
  then show ?thesis by (simp add: cq_list_def cq_count_def)
qed

lemma dma_legs_cq [simp]:
  "cq_list (edu_dma_out D e) = cq_list e" "cq_list (edu_dma_back D e) = cq_list e"
  "ring_inv (edu_dma_out D e) = ring_inv e" "ring_inv (edu_dma_back D e) = ring_inv e"
  "busy_slots (edu_dma_out D e) = busy_slots e" "busy_slots (edu_dma_back D e) = busy_slots e"
  using cq_list_write_below[of 0 edu_dma_pattern e] cq_list_write_below[of 0 "replicate EDU_DMA_TEST_LEN 0" e]
  by (simp_all add: edu_dma_out_def edu_dma_back_def mem_set_def edu_writel_def edu_writeq_def
      busy_slots_def Let_def layout_simps)

lemma pattern_slot_0: "sq_get (mem_write m 0 edu_dma_pattern) 0 =
    \<lparr>sq_tag = 0x4445, sq_opcode = 0x55, sq_flags = 0x20, sq_operand = 0x20414d44, sq_rsvd = 0x697274646e756f72\<rparr>"
proof -
  have "sq_get (mem_write m 0 edu_dma_pattern) 0 = sq_of_bytes (take ENTRY_SIZE edu_dma_pattern)"
    by (simp add: sq_get_def sq_off_def mem_read_write_prefix layout_simps)
  then show ?thesis
    by (simp add: edu_dma_pattern_def ENTRY_SIZE_def sq_of_bytes_def)
qed

lemma cq_list_irq_idle: "ring_inv e \<Longrightarrow> busy_slots e = [] \<Longrightarrow> cq_list (snd (edu_irq_handler D e)) = cq_list e"
  using cq_list_irq[of e D] by (cases "irq_status D e = 0") (simp_all add: edu_irq_handler_spurious)

lemma busy_slots_irq_nil: "ring_inv e \<Longrightarrow> busy_slots e = [] \<Longrightarrow> busy_slots (snd (edu_irq_handler D e)) = []"
  using busy_slots_irq[of e D] by (cases "irq_status D e = 0") (simp_all add: edu_irq_handler_spurious)

lemma busy_slots_done [simp]: "busy_slots (e\<lparr>irq_done := b\<rparr>) = busy_slots e"
  by (simp add: busy_slots_def)

lemma cq_list_dma_check [simp]: "cq_list (snd (edu_dma_check e)) = cq_list e"
  by (simp add: edu_dma_check_def)

text \<open>C29. The DMA test writes its pattern over the first slots of the submission queue: with a
  command in flight in slot 0, the test's own interrupt posts a completion whose tag is the
  pattern's first two bytes and whose result is 0, whatever was submitted.\<close>

theorem dma_test_corrupts_sq:
  assumes "reach edu_init (edu_step D) e" and "busy_slots e = [0]"
    and "irq_status D (dma_wait1 D ([], [EvIrq]) e) \<noteq> 0"
  shows "cq_list (snd (edu_run_dma_test D ([], [EvIrq]) ([], [EvIrq]) e)) =
    cq_list e @ [\<lparr>cq_tag = 0x4445, cq_status = 0, cq_flags = 0, cq_result = 0, cq_rsvd = 0\<rparr>]"
proof -
  let ?e1 = "dma_wait1 D ([], [EvIrq]) e"
  let ?e2 = "snd (edu_irq_handler D ?e1)"
  let ?e3 = "dma_wait2 D ([], [EvIrq]) ([], [EvIrq]) e"
  have inv: "ring_inv e" using assms(1) by (rule edu_sys.reach_inv)
  have one: "ring_inv ?e1" "busy_slots ?e1 = [0]" "cq_list ?e1 = cq_list e"
    "dma_virt ?e1 = mem_write (dma_virt e) 0 edu_dma_pattern"
    using inv assms(2) by (simp_all add: dma_wait1_def)
      (simp add: edu_dma_out_def edu_writel_def edu_writeq_def Let_def)
  have two: "cq_list ?e2 = cq_list e @ [\<lparr>cq_tag = 0x4445, cq_status = 0, cq_flags = 0, cq_result = 0, cq_rsvd = 0\<rparr>]"
    using cq_list_irq_slot[OF one(1) assms(3) one(2)] one(3,4)
    by (simp add: pattern_slot_0 abs_completion_def edu_ops)
  have "busy_slots ?e2 = []" using busy_slots_irq[OF one(1) assms(3)] one(2) by simp
  then have three: "ring_inv ?e3" "busy_slots ?e3 = []" "cq_list ?e3 = cq_list ?e2"
    using ring_inv_irq[OF one(1), of D] by (simp_all add: dma_wait2_def)
  have "cq_list (dma_landed D ([], [EvIrq]) ([], [EvIrq]) e) = cq_list ?e2"
    using cq_list_irq_idle[OF three(1,2), of D] three(3) by (simp add: dma_landed_def)
  then show ?thesis using two assms(3) by (simp add: edu_run_dma_test_eq)
qed

theorem dma_test_corrupts_sq_witness:
  "cq_list (snd (edu_run_dma_test wit_dev ([], [EvIrq]) ([], [EvIrq]) (edu_events wit_dev [EvEnqueue (wit_req 7)] wit_edu))) =
    cq_list (edu_events wit_dev [EvEnqueue (wit_req 7)] wit_edu) @
      [\<lparr>cq_tag = 0x4445, cq_status = 0, cq_flags = 0, cq_result = 0, cq_rsvd = 0\<rparr>]"
  by (rule dma_test_corrupts_sq[OF reach_events[OF wit_init] wit_busy]) simp

section \<open>The DMA test with a device\<close>

lemma read_below_cq [simp]:
  "i < RING_SIZE \<Longrightarrow> mem_read (cq_put m i c) 0 EDU_DMA_TEST_LEN = mem_read m 0 EDU_DMA_TEST_LEN"
  by (simp add: cq_put_def mem_read_write_disjoint layout_simps)

lemma read_below_irq [simp]:
  "mem_read (dma_virt (snd (edu_irq_handler D e))) 0 EDU_DMA_TEST_LEN = mem_read (dma_virt e) 0 EDU_DMA_TEST_LEN"
  by (cases "irq_status D e = 0")
    (auto simp: edu_irq_handler_spurious edu_irq_handler_real edu_post_completion_def cq_push_def
      ring_mask_less split_def Let_def split: list.split)

lemma inject_irq [simp]: "inject_fault (snd (edu_irq_handler D e)) = inject_fault e"
proof -
  have "inject_fault (irq_acked D e) = inject_fault e" by (subst irq_acked_eq) simp
  then show ?thesis
    by (cases "irq_status D e = 0")
      (auto simp: edu_irq_handler_spurious edu_irq_handler_real edu_irq_signal_def edu_post_completion_def
        edu_cqe_result_def edu_readl_def cq_push_def split_def Let_def split: list.split option.split)
qed

lemma inject_legs [simp]:
  "inject_fault (edu_dma_out D e) = inject_fault e" "inject_fault (edu_dma_back D e) = inject_fault e"
  by (simp_all add: edu_dma_out_def edu_dma_back_def edu_writel_def edu_writeq_def Let_def)

text \<open>C24. When both interrupts come and the device's second transfer stores 64 bytes at the start of
  the slab, the DMA test passes iff they are the pattern and no fault was armed: completions the two
  interrupts post to the rings do not disturb the comparison, and an armed fault is spent by a
  round trip that would have passed, not by one that fails by itself.\<close>

theorem dma_test_round_trip:
  assumes "length bs = EDU_DMA_TEST_LEN"
    and "irq_status D (dma_wait1 D ([], [EvIrq]) e) \<noteq> 0"
    and "irq_status D ((dma_wait2 D ([], [EvIrq]) ([], [EvStore 0 bs, EvIrq]) e)
      \<lparr>dma_virt := mem_write (dma_virt (dma_wait2 D ([], [EvIrq]) ([], [EvStore 0 bs, EvIrq]) e)) 0 bs\<rparr>) \<noteq> 0"
  shows "fst (edu_run_dma_test D ([], [EvIrq]) ([], [EvStore 0 bs, EvIrq]) e) =
      (if bs = edu_dma_pattern \<and> inject_fault e \<noteq> 1 then ok else Inl EIO) \<and>
    inject_fault (snd (edu_run_dma_test D ([], [EvIrq]) ([], [EvStore 0 bs, EvIrq]) e)) =
      (if bs = edu_dma_pattern \<and> inject_fault e = 1 then 0 else inject_fault e)"
proof -
  let ?f = "dma_landed D ([], [EvIrq]) ([], [EvStore 0 bs, EvIrq]) e"
  have "mem_read (dma_virt ?f) 0 EDU_DMA_TEST_LEN = bs"
    using assms(1) by (simp add: dma_landed_def)
  moreover have "inject_fault ?f = inject_fault e"
    by (simp add: dma_landed_def dma_wait2_def dma_wait1_def)
  moreover have "fst (edu_dma_check x) = (if bs = edu_dma_pattern \<and> inject_fault e \<noteq> 1 then ok else Inl EIO) \<and>
      inject_fault (snd (edu_dma_check x)) = (if bs = edu_dma_pattern \<and> inject_fault e = 1 then 0 else inject_fault e)"
    if "mem_read (dma_virt x) 0 EDU_DMA_TEST_LEN = bs" "inject_fault x = inject_fault e" for x :: "'a edu_dev"
    using that by (auto simp: edu_dma_check_def)
  moreover have "edu_run_dma_test D ([], [EvIrq]) ([], [EvStore 0 bs, EvIrq]) e = edu_dma_check ?f"
    using assms(2,3) by (simp add: edu_run_dma_test_eq)
  ultimately show ?thesis by simp
qed

theorem dma_test_round_trip_witness:
  "fst (edu_run_dma_test wit_dev ([], [EvIrq]) ([], [EvStore 0 edu_dma_pattern, EvIrq]) wit_edu) = ok"
  using dma_test_round_trip[of edu_dma_pattern wit_dev wit_edu] by (simp add: wit_edu_def edu_fresh_def)

section \<open>DMA on the ring path\<close>

text \<open>The register writes that start a transfer from the device to memory.\<close>

fun reads_back :: "access \<Rightarrow> bool" where
  "reads_back (Wr r v) = (r = EDU_REG_DMA_CMD \<and> v AND ucast EDU_DMA_CMD_DIR \<noteq> 0)"
| "reads_back _ = False"

fun is_device :: "'h edu_event \<Rightarrow> bool" where
  "is_device (EvDevice h) = True"
| "is_device _ = False"

lemma reads_back_irq:
  "filter reads_back (bar0 (snd (edu_irq_handler (log_mmio tbl) e))) = filter reads_back (bar0 e)"
  by (cases "irq_status (log_mmio tbl) e = 0")
    (auto simp: edu_irq_handler_spurious edu_irq_handler_real edu_irq_signal_def edu_post_completion_def
      edu_cqe_result_def edu_readl_def cq_push_def irq_acked_def edu_writel_def edu_regs
      split_def Let_def split: list.splits option.splits)

lemma reads_back_event:
  assumes "\<not> is_device ev"
  shows "filter reads_back (bar0 (edu_do (log_mmio tbl) ev e)) = filter reads_back (bar0 e)"
proof (cases ev)
  case EvIrq
  then show ?thesis by (simp add: reads_back_irq)
qed (use assms in \<open>simp_all add: edu_ring_enqueue_def edu_poll_cq_def cq_advance_def edu_open_def
    edu_eventfd_defs inject_fault_store_def edu_dbgfs_stats_write_def edu_ring_kick_def
    edu_writel_def edu_writeq_def edu_regs EDU_DMA_CMD_DIR_def EDU_DMA_CMD_START_def EDU_DMA_CMD_IRQ_def
    Let_def split: sum.split option.split\<close>)

text \<open>The ring path has only the first leg of the DMA round trip: a DMA submission on a ring with
  room programs one transfer from the slab to the device, and over no sequence of ring operations
  and interrupts does the driver start a transfer back.\<close>

lemma ring_dma_is_one_way:
  assumes "list_all (\<lambda>ev. \<not> is_device ev) evs" and "sub_opcode r = EDU_OP_DMA_TEST"
  shows "bar0 (snd (edu_ring_kick (log_mmio tbl) r e)) = bar0 e @
      [Wr EDU_REG_STATUS 0, Wr EDU_REG_DMA_SRC (dma_handle e), Wr EDU_REG_DMA_DST EDU_DMA_BUF_OFFSET,
       Wr EDU_REG_DMA_CNT 64, Wr EDU_REG_DMA_CMD 5] \<and>
    filter reads_back (bar0 (edu_events (log_mmio tbl) evs e)) = filter reads_back (bar0 e)"
proof
  show "bar0 (snd (edu_ring_kick (log_mmio tbl) r e)) = bar0 e @
      [Wr EDU_REG_STATUS 0, Wr EDU_REG_DMA_SRC (dma_handle e), Wr EDU_REG_DMA_DST EDU_DMA_BUF_OFFSET,
       Wr EDU_REG_DMA_CNT 64, Wr EDU_REG_DMA_CMD 5]"
    using assms(2) by (simp add: edu_ring_kick_def edu_ops edu_writel_def edu_writeq_def Let_def
        EDU_DMA_CMD_START_def EDU_DMA_CMD_IRQ_def EDU_DMA_TEST_LEN_def)
  show "filter reads_back (bar0 (edu_events (log_mmio tbl) evs e)) = filter reads_back (bar0 e)"
    using assms(1) by (induction evs arbitrary: e) (simp_all add: reads_back_event)
qed

end
