(* ===== verification/Edu_System.thy ===== *)
theory Edu_System
  imports Edu_Blocking
begin

text \<open>
  What holds of the EDU driver around the rings: the references on the registered eventfd, the
  bytes of the slab the driver may write, the answers of \<open>poll\<close> and of the ioctl dispatcher, the
  fault knob, and the resources of probe and remove.
\<close>

section \<open>The eventfd\<close>

text \<open>
  References taken are those dropped and the one registered; and every signal goes to a context
  that was, at that point of the log, taken more often than dropped.
\<close>

definition refs_balanced :: "'h edu_dev \<Rightarrow> bool" where
  "refs_balanced e \<longleftrightarrow> (\<forall>c. count_list (evt_log e) (EvtGet c) =
     count_list (evt_log e) (EvtPut c) + (if evt_ctx e = Some c then 1 else 0))"

fun signals_held :: "evt_op list \<Rightarrow> evt_op list \<Rightarrow> bool" where
  "signals_held p [] = True"
| "signals_held p (EvtSignal c # l) =
     (count_list p (EvtPut c) < count_list p (EvtGet c) \<and> signals_held (p @ [EvtSignal c]) l)"
| "signals_held p (x # l) = signals_held (p @ [x]) l"

lemma signals_held_append: "signals_held p (l @ m) \<longleftrightarrow> signals_held p l \<and> signals_held (p @ l) m"
  by (induction p l rule: signals_held.induct) auto

lemma count_list_snoc [simp]: "count_list (l @ [x]) y = count_list l y + (if x = y then 1 else 0)"
  by simp

fun is_registration :: "'h edu_event \<Rightarrow> bool" where
  "is_registration (EvEventfdPut c) = True"
| "is_registration (EvEventfdSet c) = True"
| "is_registration _ = False"

fun is_irq :: "'h edu_event \<Rightarrow> bool" where
  "is_irq EvIrq = True"
| "is_irq _ = False"

text \<open>Only the handler signals, and only the registered context; nothing else but a registration
  touches the references.\<close>

lemma evt_other:
  assumes "\<not> is_registration ev"
  shows "evt_ctx (edu_do D ev e) = evt_ctx e \<and>
    (evt_log (edu_do D ev e) = evt_log e \<or>
     is_irq ev \<and> (\<exists>c. evt_ctx e = Some c \<and> evt_log (edu_do D ev e) = evt_log e @ [EvtSignal c]))"
proof -
  have post: "evt_log (edu_post_completion D i x) = evt_log x" for i and x :: "'a edu_dev"
    by (simp add: edu_post_completion_def edu_cqe_result_def edu_readl_def cq_push_def split_def Let_def)
  have sig: "evt_log (edu_irq_signal p x) = evt_log x \<or>
      (\<exists>c. evt_ctx x = Some c \<and> evt_log (edu_irq_signal p x) = evt_log x @ [EvtSignal c])" for p and x :: "'a edu_dev"
    by (simp add: edu_irq_signal_def split: option.split)
  show ?thesis
  proof (cases ev)
    case EvIrq
    show ?thesis
    proof (cases "irq_status D e = 0")
      case True
      then show ?thesis using EvIrq by (simp add: edu_irq_handler_spurious)
    next
      case False
      then show ?thesis
        using EvIrq sig[of True "edu_post_completion D (hd (busy_slots e)) (irq_acked D e)"]
        by (cases "busy_slots e") (simp_all add: edu_irq_handler_real post)
    qed
  qed (use assms in \<open>simp_all add: edu_ring_enqueue_def edu_poll_cq_def cq_advance_def edu_open_def
      inject_fault_store_def edu_dbgfs_stats_write_def edu_ring_kick_def edu_writel_def edu_writeq_def Let_def
      split: sum.split\<close>)
qed

lemma evt_others:
  "list_all (\<lambda>ev. \<not> is_registration ev) evs \<Longrightarrow>
    evt_ctx (edu_events D evs e) = evt_ctx e \<and>
    (\<exists>l. evt_log (edu_events D evs e) = evt_log e @ l \<and> (\<forall>x\<in>set l. \<exists>c. x = EvtSignal c \<and> evt_ctx e = Some c) \<and>
      (list_all (\<lambda>ev. \<not> is_irq ev) evs \<longrightarrow> l = []))"
proof (induction evs arbitrary: e)
  case Nil
  then show ?case by simp
next
  case (Cons ev evs)
  let ?e = "edu_do D ev e"
  have ev: "\<not> is_registration ev" using Cons.prems by simp
  obtain l where l: "evt_ctx (edu_events D evs ?e) = evt_ctx ?e"
    "evt_log (edu_events D evs ?e) = evt_log ?e @ l" "\<forall>x\<in>set l. \<exists>c. x = EvtSignal c \<and> evt_ctx ?e = Some c"
    "list_all (\<lambda>ev. \<not> is_irq ev) evs \<longrightarrow> l = []"
    using Cons.IH[of ?e] Cons.prems by auto
  from evt_other[OF ev, of D e] obtain k where "evt_ctx ?e = evt_ctx e" "evt_log ?e = evt_log e @ k"
    "\<forall>x\<in>set k. \<exists>c. x = EvtSignal c \<and> evt_ctx e = Some c" "is_irq ev \<or> k = []"
    by (metis append_Nil2 empty_iff empty_set list.set_intros(1) set_ConsD)
  with l show ?case by (intro conjI exI[of _ "k @ l"]) auto
qed

text \<open>
  Registrations one at a time, each with its window between the two steps; \<open>calm\<close>: no interrupt in
  a window.
\<close>

inductive evt_step :: "'h mmio \<Rightarrow> bool \<Rightarrow> 'h edu_dev \<Rightarrow> 'h edu_dev \<Rightarrow> bool" for D :: "'h mmio" and calm :: bool where
  other: "\<not> is_registration ev \<Longrightarrow> evt_step D calm e (edu_do D ev e)"
| registered: "list_all (\<lambda>ev. \<not> is_registration ev) window \<Longrightarrow> calm \<longrightarrow> list_all (\<lambda>ev. \<not> is_irq ev) window \<Longrightarrow>
    evt_step D calm e (snd (edu_set_eventfd D window r e))"

definition evt_inv :: "bool \<Rightarrow> 'h edu_dev \<Rightarrow> bool" where
  "evt_inv calm e \<longleftrightarrow> refs_balanced e \<and> (calm \<longrightarrow> signals_held [] (evt_log e))"

lemma count_signals [simp]:
  assumes "\<forall>x\<in>set l. \<exists>c. x = EvtSignal c \<and> P c"
  shows "count_list l (EvtGet d) = 0" "count_list l (EvtPut d) = 0"
  using assms by (auto simp: count_list_0_iff)

lemma evt_inv_other:
  assumes "evt_inv calm e" and "\<not> is_registration ev"
  shows "evt_inv calm (edu_do D ev e)"
proof -
  have "count_list (evt_log e) (EvtPut c) < count_list (evt_log e) (EvtGet c)" if "evt_ctx e = Some c" for c
    using assms(1) that by (simp add: evt_inv_def refs_balanced_def)
  then show ?thesis
    using evt_other[OF assms(2), of D e] assms(1)
    by (auto simp: evt_inv_def refs_balanced_def signals_held_append)
qed

lemma evt_inv_registered:
  assumes inv: "evt_inv calm e" and window: "list_all (\<lambda>ev. \<not> is_registration ev) window"
    and quiet: "calm \<longrightarrow> list_all (\<lambda>ev. \<not> is_irq ev) window"
  shows "evt_inv calm (snd (edu_set_eventfd D window r e))"
proof (cases r)
  case (Inl err)
  then show ?thesis using inv by (simp add: edu_set_eventfd_def)
next
  case (Inr ctx)
  let ?p = "edu_eventfd_put ctx e"
  obtain l where l: "evt_log (edu_events D window ?p) = evt_log ?p @ l"
    "\<forall>x\<in>set l. \<exists>c. x = EvtSignal c \<and> evt_ctx ?p = Some c" "calm \<longrightarrow> l = []"
    using evt_others[OF window, of D ?p] quiet by blast
  have p: "evt_log ?p = evt_log e @ EvtGet ctx # (case evt_ctx e of Some old \<Rightarrow> [EvtPut old] | None \<Rightarrow> [])"
    by (simp add: edu_eventfd_put_def Let_def split: option.split)
  show ?thesis
    using inv l count_signals[OF l(2)]
    by (auto simp: Inr edu_set_eventfd_def evt_inv_def refs_balanced_def p signals_held_append split: option.splits)
qed

lemma evt_inv_fresh: "evt_inv calm (edu_fresh h handle)"
  by (simp add: edu_fresh_def evt_inv_def refs_balanced_def)

lemma evt_inv_step: "evt_step D calm e e' \<Longrightarrow> evt_inv calm e \<Longrightarrow> evt_inv calm e'"
  by (induction rule: evt_step.induct) (simp_all add: evt_inv_other evt_inv_registered)

interpretation evt_sys: inductive_invariant edu_init "evt_step D calm" "evt_inv calm" for D calm
  by unfold_locales (auto simp: edu_init_def evt_inv_fresh evt_inv_step)

text \<open>Replacing an eventfd is not atomic with the handler: an interrupt that completes a command
  after the old context's reference is dropped and before the new context is stored signals the
  old one.\<close>

lemma eventfd_replace_race:
  assumes "evt_ctx e = Some old" and "busy_slots e = i # rest" and "dev_status D h \<noteq> 0"
  shows "evt_log (snd (edu_set_eventfd D [EvDevice h, EvIrq] (Inr ctx) e)) =
    evt_log e @ [EvtGet ctx, EvtPut old, EvtSignal old]"
proof -
  let ?p = "(edu_eventfd_put ctx e)\<lparr>bar0 := h\<rparr>"
  have "busy_slots ?p = i # rest" "evt_ctx ?p = Some old" "evt_log ?p = evt_log e @ [EvtGet ctx, EvtPut old]"
    using assms(1,2) by (simp_all add: busy_slots_def) (simp add: edu_eventfd_put_def)
  moreover have "evt_log (edu_post_completion D i x) = evt_log x" for x :: "'a edu_dev"
    by (simp add: edu_post_completion_def edu_cqe_result_def edu_readl_def cq_push_def split_def Let_def)
  ultimately show ?thesis
    using assms(3) by (simp add: edu_set_eventfd_def edu_irq_handler_real edu_irq_signal_def irq_status_bar0)
qed

text \<open>Two registrations that overlap both find the old context and put it twice.\<close>

lemma eventfd_double_put:
  assumes "evt_ctx e = Some old"
  shows "evt_log (edu_events D [EvEventfdPut a, EvEventfdPut b, EvEventfdSet a, EvEventfdSet b] e) =
    evt_log e @ [EvtGet a, EvtPut old, EvtGet b, EvtPut old]"
  using assms by (simp add: edu_eventfd_put_def)

text \<open>C11. While eventfds are registered one at a time, the driver holds exactly one reference on the
  registered context and none on any other, in every reachable state and whatever happens between
  the two steps of a registration. Every context it signalled was held at that moment, if no
  interrupt comes between the two steps. Nothing keeps interrupts and other registrations out,
  though: an interrupt there that completes a command signals the context whose reference has just
  been dropped, and two registrations that overlap drop the same reference twice.\<close>

theorem eventfd_references:
  assumes "reach edu_init (evt_step D calm) e"
  shows "refs_balanced e \<and> (calm \<longrightarrow> signals_held [] (evt_log e)) \<and>
    (\<forall>old ctx h. evt_ctx e = Some old \<and> ctx \<noteq> old \<and> busy_slots e \<noteq> [] \<and> dev_status D h \<noteq> 0 \<longrightarrow>
      \<not> signals_held [] (evt_log (snd (edu_set_eventfd D [EvDevice h, EvIrq] (Inr ctx) e)))) \<and>
    (\<forall>old a b. evt_ctx e = Some old \<and> a \<noteq> old \<and> b \<noteq> old \<longrightarrow>
      count_list (evt_log (edu_events D [EvEventfdPut a, EvEventfdPut b, EvEventfdSet a, EvEventfdSet b] e)) (EvtPut old) =
      Suc (count_list (evt_log (edu_events D [EvEventfdPut a, EvEventfdPut b, EvEventfdSet a, EvEventfdSet b] e)) (EvtGet old)))"
proof (intro conjI allI impI)
  note inv = evt_sys.reach_inv[OF assms]
  show "signals_held [] (evt_log e)" if calm using inv that by (simp add: evt_inv_def)
  show "refs_balanced e" using inv by (simp add: evt_inv_def)
  then have one: "count_list (evt_log e) (EvtGet c) = Suc (count_list (evt_log e) (EvtPut c))" if "evt_ctx e = Some c" for c
    using that by (simp add: refs_balanced_def)
  show "\<not> signals_held [] (evt_log (snd (edu_set_eventfd D [EvDevice h, EvIrq] (Inr ctx) e)))"
    if "evt_ctx e = Some old \<and> ctx \<noteq> old \<and> busy_slots e \<noteq> [] \<and> dev_status D h \<noteq> 0" for old ctx h
  proof -
    from that obtain i rest where "busy_slots e = i # rest" by (cases "busy_slots e") auto
    with that show ?thesis
      using one[of old] by (simp add: eventfd_replace_race signals_held_append)
  qed
  show "count_list (evt_log (edu_events D [EvEventfdPut a, EvEventfdPut b, EvEventfdSet a, EvEventfdSet b] e)) (EvtPut old) =
      Suc (count_list (evt_log (edu_events D [EvEventfdPut a, EvEventfdPut b, EvEventfdSet a, EvEventfdSet b] e)) (EvtGet old))"
    if "evt_ctx e = Some old \<and> a \<noteq> old \<and> b \<noteq> old" for old a b
    using that one[of old] by (simp only: eventfd_double_put) simp
qed

theorem eventfd_references_witness:
  "signals_held [] (evt_log (edu_do wit_dev EvIrq (edu_do wit_dev (EvEnqueue (wit_req 7))
      (snd (edu_set_eventfd wit_dev [EvDevice []] (Inr 3) wit_edu)))))"
proof -
  let ?e = "snd (edu_set_eventfd wit_dev [EvDevice []] (Inr 3) wit_edu)"
  have "evt_step wit_dev True wit_edu ?e" by (rule registered) simp_all
  then have r1: "reach edu_init (evt_step wit_dev True) ?e" by (rule reach_step[OF reach_init[where init = edu_init, OF wit_init]])
  have r2: "reach edu_init (evt_step wit_dev True) (edu_do wit_dev (EvEnqueue (wit_req 7)) ?e)"
    by (rule reach_step[OF r1 evt_step.other]) simp
  have "reach edu_init (evt_step wit_dev True) (edu_do wit_dev EvIrq (edu_do wit_dev (EvEnqueue (wit_req 7)) ?e))"
    by (rule reach_step[OF r2 evt_step.other]) simp
  from eventfd_references[OF this] show ?thesis by simp
qed

section \<open>The slab\<close>

lemma slab_above:
  assumes "SQ_SIZE + CQ_SIZE \<le> a"
  shows "i < RING_SIZE \<Longrightarrow> cq_put m i c a = m a" "i < RING_SIZE \<Longrightarrow> sq_put m i s a = m a"
  using assms by (auto simp: cq_put_def sq_put_def mem_write_outside layout_simps)

text \<open>An event leaves out byte \<open>a\<close> unless it is a store, of the device or of a user's mapping, to it.\<close>

fun misses :: "nat \<Rightarrow> 'h edu_event \<Rightarrow> bool" where
  "misses a (EvStore off bs) = apart a 1 off bs"
| "misses a _ = True"

lemma slab_event:
  assumes "SQ_SIZE + CQ_SIZE \<le> a" and "misses a ev"
  shows "dma_virt (edu_do D ev e) a = dma_virt e a"
proof (cases ev)
  case EvIrq
  then show ?thesis
    by (cases "irq_status D e = 0")
      (auto simp: edu_irq_handler_spurious edu_irq_handler_real edu_post_completion_def cq_push_def
        slab_above[OF assms(1)] ring_mask_less split_def Let_def split: list.split)
qed (use assms in \<open>simp_all add: edu_ring_enqueue_def edu_poll_cq_def cq_advance_def edu_open_def
    edu_dbgfs_stats_write_def slab_above[OF assms(1)] ring_mask_less mem_write_outside apart_def Suc_le_eq Let_def\<close>)

lemma slab_events:
  "SQ_SIZE + CQ_SIZE \<le> a \<Longrightarrow> list_all (misses a) evs \<Longrightarrow>
    dma_virt (edu_events D evs e) a = dma_virt e a"
  by (induction evs arbitrary: e) (simp_all add: slab_event)

lemma slab_dma_legs:
  assumes "SQ_SIZE + CQ_SIZE \<le> a"
  shows "dma_virt (edu_dma_out D e) a = dma_virt e a" "dma_virt (edu_dma_back D e) a = dma_virt e a"
  using assms by (simp_all add: edu_dma_out_def edu_dma_back_def edu_writel_def edu_writeq_def
      mem_set_def mem_write_outside layout_simps Let_def)

lemma slab_dma_test:
  assumes "SQ_SIZE + CQ_SIZE \<le> a"
    and "list_all (misses a) (fst w1 @ snd w1 @ fst w2 @ snd w2)"
  shows "dma_virt (snd (edu_run_dma_test D w1 w2 e)) a = dma_virt e a"
proof -
  have "dma_virt (snd (edu_dma_check x)) = dma_virt x" for x :: "'a edu_dev"
    by (simp add: edu_dma_check_def)
  then show ?thesis
    using assms by (simp add: edu_run_dma_test_eq dma_landed_def dma_wait1_def dma_wait2_def
        slab_events slab_dma_legs)
qed

lemma slab_set_eventfd:
  assumes "SQ_SIZE + CQ_SIZE \<le> a" and "list_all (misses a) w"
  shows "dma_virt (snd (edu_set_eventfd D w r e)) a = dma_virt e a"
  using assms by (cases r) (simp_all add: edu_set_eventfd_def slab_events)

lemma slab_ioctl:
  assumes a: "SQ_SIZE + CQ_SIZE \<le> a"
    and "list_all (misses a) (fst (u_wait1 u) @ snd (u_wait1 u) @ fst (u_wait2 u) @ snd (u_wait2 u))"
  shows "dma_virt (snd (snd (edu_ioctl D u cmd e))) a = dma_virt e a"
proof (cases "cmd \<in> set edu_commands")
  case False
  then show ?thesis by (simp add: edu_ioctl_unknown)
next
  case True
  have sub: "dma_virt (snd (edu_ring_submit D r x)) a = dma_virt x a" for r and x :: "'a edu_dev"
    using slab_event[OF a, of "EvEnqueue r" D x]
    by (auto simp: edu_ring_submit_def split: prod.split sum.split)
  have poll: "dma_virt (snd (edu_poll_cq x)) a = dma_virt x a" for x :: "'a edu_dev"
    using slab_event[OF a, of EvPoll D x] by simp
  have fct: "dma_virt (snd (edu_run_factorial D b d r x)) a = dma_virt x a"
    if "list_all (misses a) (b @ d)" for b d r and x :: "'a edu_dev"
    using that
    by (simp add: edu_run_factorial_eq fact_started_def slab_events[OF a] edu_writel_def edu_readl_snd Let_def)
  from True consider "cmd = EDU_IOC_RUN_FACTORIAL" | "cmd = EDU_IOC_RUN_DMA_TEST"
    | "cmd = EDU_IOC_GET_STATE" | "cmd = EDU_IOC_SUBMIT" | "cmd = EDU_IOC_POLL_CQ"
    | "cmd = EDU_IOC_SET_EVENTFD"
    by (auto simp: edu_commands_def)
  then show ?thesis
    by cases (use assms in \<open>simp_all add: edu_ioctl_cmds split_def fct sub poll slab_dma_test slab_set_eventfd
        Let_def split: option.split sum.split\<close>)
qed

text \<open>C20. The driver writes inside its slab: the two queues fit in the 4096 bytes allocated, and
  the driver's own writes never go behind the completion queue: over any run of events and an ioctl
  after it, with any events of other contexts inside the ioctl, a byte there keeps its value unless
  one of these events is a store to that very byte, by the device's DMA or through a user's mapping.
  And \<open>mmap\<close> never asks for more pages than the slab has: what \<open>remap_pfn_range\<close> would do with a
  larger size makes no difference.\<close>

theorem slab_bounds:
  "SQ_SIZE + CQ_SIZE \<le> DMA_BUF_TOTAL \<and>
    edu_mmap (\<lambda>at pf n. if n \<le> of_nat DMA_BUF_TOTAL then remap at pf n else overrun at pf n) pfn vm_start vm_end =
      edu_mmap remap pfn vm_start vm_end \<and>
    (\<forall>a\<ge>SQ_SIZE + CQ_SIZE.
      list_all (misses a) (evs @ fst (u_wait1 u) @ snd (u_wait1 u) @ fst (u_wait2 u) @ snd (u_wait2 u)) \<longrightarrow>
      dma_virt (snd (snd (edu_ioctl D u cmd (edu_events D evs e)))) a = dma_virt e a)"
proof (intro conjI allI impI)
  show "SQ_SIZE + CQ_SIZE \<le> DMA_BUF_TOTAL" by (simp add: layout_simps)
  show "edu_mmap (\<lambda>at pf n. if n \<le> of_nat DMA_BUF_TOTAL then remap at pf n else overrun at pf n) pfn vm_start vm_end =
      edu_mmap remap pfn vm_start vm_end"
    by (auto simp: edu_mmap_def Let_def)
  fix a
  assume "SQ_SIZE + CQ_SIZE \<le> a"
    and "list_all (misses a) (evs @ fst (u_wait1 u) @ snd (u_wait1 u) @ fst (u_wait2 u) @ snd (u_wait2 u))"
  then show "dma_virt (snd (snd (edu_ioctl D u cmd (edu_events D evs e)))) a = dma_virt e a"
    by (simp add: slab_ioctl slab_events)
qed

definition wit_user :: "access list edu_user" where
  "wit_user = \<lparr>u_fact = Some \<lparr>fr_input = 5, fr_output = 0, fr_irq_status = 0\<rparr>, u_submit = Some (wit_req 7),
     u_fd = Some 3, u_writable = False, u_fdget = (\<lambda>fd. Inr (nat fd)),
     u_wait1 = ([], [EvIrq]), u_wait2 = ([], [EvIrq])\<rparr>"

theorem slab_bounds_witness:
  "dma_virt (snd (snd (edu_ioctl wit_dev wit_user EDU_IOC_RUN_DMA_TEST
      (edu_events wit_dev [EvEnqueue (wit_req 7), EvStore (SQ_SIZE + CQ_SIZE + 6) [9]] wit_edu))))
      (SQ_SIZE + CQ_SIZE + 5) = 0"
  using slab_bounds[where evs = "[EvEnqueue (wit_req 7), EvStore (SQ_SIZE + CQ_SIZE + 6) [9]]" and u = wit_user
      and D = wit_dev and cmd = EDU_IOC_RUN_DMA_TEST and e = wit_edu]
  by (simp add: wit_user_def wit_edu_def edu_fresh_def apart_def del: edu_events_simps)

section \<open>The file interfaces\<close>

text \<open>\<open>poll\<close> reports the device readable iff \<open>EDU_IOC_POLL_CQ\<close> will not answer \<open>EAGAIN\<close>, and it
  is readable after every interrupt that finds a status and a command in flight.\<close>

lemma poll_readiness:
  assumes "reach edu_init (edu_step D) e"
  shows "(edu_poll e = EPOLLIN OR EPOLLRDNORM \<longleftrightarrow> fst (edu_ioctl D u EDU_IOC_POLL_CQ e) \<noteq> Inl EAGAIN) \<and>
    (edu_poll e = 0 \<longleftrightarrow> fst (edu_ioctl D u EDU_IOC_POLL_CQ e) = Inl EAGAIN) \<and>
    (if irq_status D e \<noteq> 0 \<and> busy_slots e \<noteq> []
     then edu_poll (snd (edu_irq_handler D e)) = EPOLLIN OR EPOLLRDNORM
     else edu_poll (snd (edu_irq_handler D e)) = edu_poll e)"
proof -
  have inv: "ring_inv e" using assms by (rule edu_sys.reach_inv)
  have p: "edu_poll x = (if cq_list x = [] then 0 else EPOLLIN OR EPOLLRDNORM)" if "ring_inv x" for x :: "'a edu_dev"
    using cq.empty_iff[OF ring_invD(1)[OF that]] by (simp add: edu_poll_def cq_empty_def Let_def)
  have b: "edu_poll (e\<lparr>bar0 := h\<rparr>) = edu_poll e" for h by (simp add: edu_poll_def)
  have nz: "EPOLLIN OR EPOLLRDNORM \<noteq> 0" by (simp add: EPOLLIN_def EPOLLRDNORM_def)
  have q: "fst (edu_ioctl D u EDU_IOC_POLL_CQ e) = Inl EAGAIN \<longleftrightarrow> cq_list e = []"
    by (auto simp: edu_ioctl_poll edu_poll_cq_spec[OF ring_invD(1)[OF inv]] split: list.split)
  show ?thesis
    using cq_list_irq[OF inv, of D] nz
    by (cases "irq_status D e = 0"; cases "busy_slots e")
      (auto simp: q b p[OF inv] p[OF ring_inv_irq[OF inv]] edu_irq_handler_spurious)
qed

text \<open>A completion is lost when the caller's buffer faults: \<open>EDU_IOC_POLL_CQ\<close> answers \<open>EFAULT\<close>
  after it has consumed the oldest completion, which no later poll returns.\<close>

lemma poll_fault_loses_completion:
  assumes "reach edu_init (edu_step D) e" and "cq_list e = c # cs" and "\<not> u_writable u"
  shows "fst (edu_ioctl D u EDU_IOC_POLL_CQ e) = Inl EFAULT \<and>
    fst (snd (edu_ioctl D u EDU_IOC_POLL_CQ e)) = OutNone \<and>
    cq_list (snd (snd (edu_ioctl D u EDU_IOC_POLL_CQ e))) = cs"
proof -
  have wf: "cq_wf e" using edu_sys.reach_inv[OF assms(1)] by (rule ring_invD(1))
  then have "\<not> cq_empty e" using cq.empty_iff[OF wf] assms(2) by simp
  then have "cq_list (cq_advance e) = cs" using cq.pop_contents[OF wf] assms(2) by simp
  then show ?thesis using assms(2,3) by (simp add: edu_ioctl_poll edu_poll_cq_spec[OF wf])
qed

text \<open>Every ioctl keeps the rings consistent, whatever the other contexts do while it waits, and
  a command number that is not one of the six is \<open>ENOTTY\<close> and changes nothing.\<close>

lemma ioctl_keeps_rings:
  assumes "reach edu_init (edu_step D) e"
  shows "ring_inv (snd (snd (edu_ioctl D u cmd e))) \<and>
    (if cmd \<in> set edu_commands then True else edu_ioctl D u cmd e = (Inl ENOTTY, OutNone, e))"
  using ring_inv_ioctl[OF edu_sys.reach_inv[OF assms]] by (simp add: edu_ioctl_unknown)

section \<open>Probe and remove\<close>

text \<open>C14. A probe that fails gives back everything it took, in the reverse order of taking it, and
  sets up no device state; a probe that succeeds took everything the interrupt handler and the
  file operations need, and leaves an initial state of the driver.\<close>

theorem probe_unwinds:
  "if fst (edu_probe env h handle) = ok
   then set fops_needs \<subseteq> set (the (holds [] (fst (snd (edu_probe env h handle))))) \<and>
     (\<exists>e. snd (snd (edu_probe env h handle)) = Some (e, pe_debugfs env) \<and> edu_init e)
   else lifo [] (fst (snd (edu_probe env h handle))) = Some [] \<and>
     sorted_wrt (>) (released (fst (snd (edu_probe env h handle)))) \<and>
     snd (snd (edu_probe env h handle)) = None"
proof (cases "fst (edu_probe env h handle) = ok")
  case True
  have "edu_init (edu_fresh h handle)" by (auto simp: edu_init_def)
  then show ?thesis using edu_probe_ok[OF True] by (simp add: fops_needs_def isr_needs_def)
next
  case False
  moreover have "snd (snd (edu_probe env h handle)) = None"
    using False by (auto simp: edu_probe_defs)
  ultimately show ?thesis by (simp add: edu_probe_fail_lifo edu_probe_fail_sorted)
qed

text \<open>C15. After a successful probe, remove gives back exactly what is held, the registered eventfd
  included, and frees the interrupt before anything its handler touches; but if the sysfs group
  could not be created, which the probe only warns about, remove removes a group that is not there.\<close>

theorem remove_balances:
  assumes "fst (edu_probe env h handle) = ok"
  shows "holds [] (fst (snd (edu_probe env h handle)) @ evt_held e @ edu_remove (pe_debugfs env) e) =
      (if pe_sysfs env = 0 then Some [] else None) \<and>
    guarded R_irq isr_needs [] (fst (snd (edu_probe env h handle)) @ evt_held e @ edu_remove (pe_debugfs env) e)"
  by (simp add: edu_probe_ok[OF assms] edu_remove_def edu_debugfs_remove_def evt_held_def
      isr_needs_def split: option.split)

definition wit_env :: edu_probe_env where
  "wit_env = \<lparr>pe_kzalloc = True, pe_enable = 0, pe_regions = 0, pe_mask = 0, pe_iomap = True, pe_dma = True,
     pe_vectors = 1, pe_request_irq = 0, pe_misc = 0, pe_debugfs = True, pe_sysfs = 0\<rparr>"

theorem remove_balances_witness:
  "holds [] (fst (snd (edu_probe wit_env ([] :: access list) 0x1000)) @ evt_held wit_edu @ edu_remove True wit_edu) = Some []"
  using remove_balances[of wit_env "[] :: access list" "0x1000" wit_edu]
  by (simp add: edu_probe_ret_cases wit_env_def)

end
