(* ===== verification/Proto_Base.thy ===== *)
theory Proto_Base
  imports Fifo_Ring
begin

text \<open>
  The basic driver, \<open>pcie_prototype/kernel/proto_pcie.c\<close> and its header: the ioctl structures and
  numbers, the register map, the device state, the interrupt handler and the ioctl dispatcher. The
  state is a record the other two \<open>proto_pcie\<close> drivers extend, and the functions here apply to the
  extended records as well, so the hardware paths of the three drivers can be compared.
\<close>

section \<open>The ioctl interface\<close>

definition PROTO_PCIE_MAX_PAYLOAD :: u32 where "PROTO_PCIE_MAX_PAYLOAD = 256"

record proto_pcie_info =
  info_bar0_len :: u32
  info_irq :: u32
  info_ring_entries :: u32
  info_ring_entry_size :: u32

record proto_pcie_command =
  cmd_opcode :: u32
  cmd_length :: u32
  cmd_payload :: "u8 list"

text \<open>\<open>payload\<close> is an array of 256 bytes.\<close>

definition command_wf :: "proto_pcie_command \<Rightarrow> bool" where
  "command_wf c \<longleftrightarrow> length (cmd_payload c) = unat PROTO_PCIE_MAX_PAYLOAD"

definition PROTO_PCIE_IOC_MAGIC :: u32 where "PROTO_PCIE_IOC_MAGIC = 0x50"
definition PROTO_PCIE_IOC_GET_INFO :: u32 where
  "PROTO_PCIE_IOC_GET_INFO = IOR PROTO_PCIE_IOC_MAGIC 1 16"
definition PROTO_PCIE_IOC_RESET :: u32 where
  "PROTO_PCIE_IOC_RESET = IO PROTO_PCIE_IOC_MAGIC 2"
definition PROTO_PCIE_IOC_SEND_CMD :: u32 where
  "PROTO_PCIE_IOC_SEND_CMD = IOW PROTO_PCIE_IOC_MAGIC 3 264"
definition PROTO_PCIE_IOC_GET_STATUS :: u32 where
  "PROTO_PCIE_IOC_GET_STATUS = IOR PROTO_PCIE_IOC_MAGIC 4 4"

lemmas proto_iocs = PROTO_PCIE_IOC_GET_INFO_def PROTO_PCIE_IOC_RESET_def
  PROTO_PCIE_IOC_SEND_CMD_def PROTO_PCIE_IOC_GET_STATUS_def PROTO_PCIE_IOC_MAGIC_def

lemma proto_ioc_values:
  "PROTO_PCIE_IOC_GET_INFO = 0x80105001" "PROTO_PCIE_IOC_RESET = 0x5002"
  "PROTO_PCIE_IOC_SEND_CMD = 0x41085003" "PROTO_PCIE_IOC_GET_STATUS = 0x80045004"
  by (simp_all add: proto_iocs ioc_defs)

lemma proto_ioc_types [simp]:
  "IOC_TYPE PROTO_PCIE_IOC_GET_INFO = PROTO_PCIE_IOC_MAGIC"
  "IOC_TYPE PROTO_PCIE_IOC_RESET = PROTO_PCIE_IOC_MAGIC"
  "IOC_TYPE PROTO_PCIE_IOC_SEND_CMD = PROTO_PCIE_IOC_MAGIC"
  "IOC_TYPE PROTO_PCIE_IOC_GET_STATUS = PROTO_PCIE_IOC_MAGIC"
  by (simp_all add: proto_ioc_values IOC_TYPE_def PROTO_PCIE_IOC_MAGIC_def)

section \<open>Registers\<close>

definition REG_CTRL :: u32 where "REG_CTRL = 0x00"
definition REG_STATUS :: u32 where "REG_STATUS = 0x04"
definition REG_DOORBELL :: u32 where "REG_DOORBELL = 0x08"
definition REG_IRQ_ACK :: u32 where "REG_IRQ_ACK = 0x0C"
definition REG_DMA_LO :: u32 where "REG_DMA_LO = 0x10"
definition REG_DMA_HI :: u32 where "REG_DMA_HI = 0x14"
definition REG_DMA_LEN :: u32 where "REG_DMA_LEN = 0x18"
definition REG_VERSION :: u32 where "REG_VERSION = 0x1C"

definition CTRL_RESET :: u32 where "CTRL_RESET = 1"
definition CTRL_START :: u32 where "CTRL_START = 2"
definition STATUS_READY :: u32 where "STATUS_READY = 1"
definition STATUS_DONE :: u32 where "STATUS_DONE = 2"
definition STATUS_ERROR :: u32 where "STATUS_ERROR = 4"

lemmas proto_regs = REG_CTRL_def REG_STATUS_def REG_DOORBELL_def REG_IRQ_ACK_def REG_DMA_LO_def
  REG_DMA_HI_def REG_DMA_LEN_def REG_VERSION_def
lemmas proto_bits = CTRL_RESET_def CTRL_START_def STATUS_READY_def STATUS_DONE_def STATUS_ERROR_def

section \<open>State and register access\<close>

text \<open>
  A null \<open>dma_buf\<close> is \<open>None\<close>; \<open>the\<close> of it stands where the code dereferences the pointer.
\<close>

record 'h proto_dev =
  p_bar0 :: 'h
  bar0_len :: u64
  irq_no :: u32
  dma_buf :: "store option"
  p_dma_handle :: u64
  dma_len :: u64
  last_status :: u32

definition proto_readl :: "'h mmio \<Rightarrow> u32 \<Rightarrow> ('h, 'x) proto_dev_scheme \<Rightarrow> u32 \<times> ('h, 'x) proto_dev_scheme" where
  "proto_readl D off d = (case io_readl D (p_bar0 d) off of (v, h) \<Rightarrow> (v, d\<lparr>p_bar0 := h\<rparr>))"

definition proto_writel :: "'h mmio \<Rightarrow> u32 \<Rightarrow> u32 \<Rightarrow> ('h, 'x) proto_dev_scheme \<Rightarrow> ('h, 'x) proto_dev_scheme" where
  "proto_writel D off val d = d\<lparr>p_bar0 := io_writel D (p_bar0 d) off val\<rparr>"

definition proto_msleep :: "'h mmio \<Rightarrow> nat \<Rightarrow> ('h, 'x) proto_dev_scheme \<Rightarrow> ('h, 'x) proto_dev_scheme" where
  "proto_msleep D ms d = d\<lparr>p_bar0 := io_msleep D (p_bar0 d) ms\<rparr>"

text \<open>\<open>d->last_status = proto_readl(d, REG_STATUS)\<close>\<close>

definition latch_status :: "'h mmio \<Rightarrow> ('h, 'x) proto_dev_scheme \<Rightarrow> ('h, 'x) proto_dev_scheme" where
  "latch_status D d = (let (s, d) = proto_readl D REG_STATUS d in d\<lparr>last_status := s\<rparr>)"

lemmas proto_mmio = proto_readl_def proto_writel_def proto_msleep_def latch_status_def

definition proto_irq_handler :: "'h mmio \<Rightarrow> ('h, 'x) proto_dev_scheme \<Rightarrow> irqreturn \<times> ('h, 'x) proto_dev_scheme" where
  "proto_irq_handler D d =
     (let (status, d) = proto_readl D REG_STATUS d;
          d = d\<lparr>last_status := status\<rparr>;
          d = proto_writel D REG_IRQ_ACK status d
      in (IRQ_HANDLED, d))"

section \<open>The ioctl dispatcher\<close>

text \<open>
  The caller's memory: the command \<open>copy_from_user\<close> would read (none: it faults), and whether
  \<open>copy_to_user\<close> would succeed. What is copied out is a result.
\<close>

record proto_user =
  pu_cmd :: "proto_pcie_command option"
  pu_writable :: bool

datatype 'r proto_out = PoutNone | PoutInfo proto_pcie_info | PoutStatus u32 | PoutRing 'r

definition reply :: "proto_user \<Rightarrow> 'r proto_out \<Rightarrow> ret \<times> 'r proto_out" where
  "reply u out = (if pu_writable u then (ok, out) else (Inl EFAULT, PoutNone))"

text \<open>\<open>min_t(u32, cmdbuf.length, PROTO_PCIE_MAX_PAYLOAD)\<close>\<close>

definition clamp_len :: "proto_pcie_command \<Rightarrow> u32" where
  "clamp_len c = min (cmd_length c) PROTO_PCIE_MAX_PAYLOAD"

definition base_reset :: "'h mmio \<Rightarrow> ('h, 'x) proto_dev_scheme \<Rightarrow> ('h, 'x) proto_dev_scheme" where
  "base_reset D d =
     (let d = proto_writel D REG_CTRL CTRL_RESET d;
          d = proto_msleep D 20 d;
          d = proto_writel D REG_CTRL 0 d
      in latch_status D d)"

definition base_send_cmd :: "'h mmio \<Rightarrow> proto_pcie_command \<Rightarrow> ('h, 'x) proto_dev_scheme \<Rightarrow> ('h, 'x) proto_dev_scheme" where
  "base_send_cmd D cmdbuf d =
     (let n = clamp_len cmdbuf;
          d = (if n > 0
               then d\<lparr>dma_buf := Some (mem_write (the (dma_buf d)) 0 (take (unat n) (cmd_payload cmdbuf)))\<rparr>
               else d);
          d = d\<lparr>dma_len := ucast n\<rparr>;
          d = proto_writel D REG_DMA_LO (ucast (p_dma_handle d)) d;
          d = proto_writel D REG_DMA_HI (ucast (drop_bit 32 (p_dma_handle d))) d;
          d = proto_writel D REG_DMA_LEN n d;
          d = proto_writel D REG_DOORBELL (cmd_opcode cmdbuf) d;
          d = proto_writel D REG_CTRL CTRL_START d
      in latch_status D d)"

definition base_proto_ioctl ::
    "'h mmio \<Rightarrow> proto_user \<Rightarrow> u32 \<Rightarrow> ('h, 'x) proto_dev_scheme \<Rightarrow>
      ret \<times> 'r proto_out \<times> ('h, 'x) proto_dev_scheme" where
  "base_proto_ioctl D u cmd d =
     (if IOC_TYPE cmd \<noteq> PROTO_PCIE_IOC_MAGIC then (Inl ENOTTY, PoutNone, d)
      else if cmd = PROTO_PCIE_IOC_GET_INFO then
        (let (ret, out) = reply u (PoutInfo \<lparr>info_bar0_len = ucast (bar0_len d), info_irq = irq_no d,
                            info_ring_entries = 64, info_ring_entry_size = 64\<rparr>)
         in (ret, out, d))
      else if cmd = PROTO_PCIE_IOC_RESET then (ok, PoutNone, base_reset D d)
      else if cmd = PROTO_PCIE_IOC_SEND_CMD then
        (case pu_cmd u of
           None \<Rightarrow> (Inl EFAULT, PoutNone, d)
         | Some cmdbuf \<Rightarrow> (ok, PoutNone, base_send_cmd D cmdbuf d))
      else if cmd = PROTO_PCIE_IOC_GET_STATUS then
        (let (ret, out) = reply u (PoutStatus (last_status d)) in (ret, out, d))
      else (Inl ENOTTY, PoutNone, d))"

lemma clamp_len_le: "unat (clamp_len c) \<le> 256"
  by (simp add: clamp_len_def PROTO_PCIE_MAX_PAYLOAD_def min_def word_le_nat_alt)

lemma unat_clamp_len: "unat (clamp_len c) = min (unat (cmd_length c)) 256"
  by (simp add: clamp_len_def PROTO_PCIE_MAX_PAYLOAD_def min_def word_le_nat_alt)

text \<open>The registers a command writes, in order, ending with the read of the status.\<close>

lemma base_send_cmd_log:
  "p_bar0 (base_send_cmd (log_mmio tbl) c d) = p_bar0 d @
    [Wr REG_DMA_LO (take_bit 32 (p_dma_handle d)), Wr REG_DMA_HI (drop_bit 32 (p_dma_handle d)),
     Wr REG_DMA_LEN (ucast (clamp_len c)), Wr REG_DOORBELL (ucast (cmd_opcode c)),
     Wr REG_CTRL (ucast CTRL_START), Rd REG_STATUS]"
  by (simp add: base_send_cmd_def proto_mmio Let_def)

end
