(* ===== verification/Proto_Sim.thy ===== *)
theory Proto_Sim
  imports Proto_Base Resources
begin

text \<open>
  The simulated driver, \<open>pcie_prototype_sim/kernel/proto_pcie.c\<close>: the basic driver with a
  simulation mode, and the life cycle of its device, from the two probe functions to the common
  teardown. What the kernel answers to the probe functions is an argument, the log of what they
  acquire and release a result.
\<close>

record 'h sim_dev = "'h proto_dev" +
  has_pdev :: bool
  simulated :: bool
  misc_registered :: bool
  device_enabled :: bool
  regions_requested :: bool
  bar_mapped :: bool
  irq_vectors_allocated :: bool
  irq_requested :: bool

section \<open>Operations\<close>

definition sim_finish_reset :: "'h mmio \<Rightarrow> ('h, 'x) sim_dev_scheme \<Rightarrow> ('h, 'x) sim_dev_scheme" where
  "sim_finish_reset D d =
     (if simulated d then
        d\<lparr>dma_buf := Some (mem_set (the (dma_buf d)) 0 0 (unat (dma_len d))),
          last_status := STATUS_READY\<rparr>
      else
        let d = proto_writel D REG_CTRL CTRL_RESET d;
            d = proto_msleep D 20 d;
            d = proto_writel D REG_CTRL 0 d
        in latch_status D d)"

definition sim_submit_command :: "'h mmio \<Rightarrow> proto_pcie_command \<Rightarrow> ('h, 'x) sim_dev_scheme \<Rightarrow> ('h, 'x) sim_dev_scheme" where
  "sim_submit_command D cmdbuf d =
     (let n = clamp_len cmdbuf;
          d = (if n > 0
               then d\<lparr>dma_buf := Some (mem_write (the (dma_buf d)) 0 (take (unat n) (cmd_payload cmdbuf)))\<rparr>
               else d);
          d = d\<lparr>dma_len := ucast n\<rparr>
      in if simulated d then d\<lparr>last_status := STATUS_READY OR STATUS_DONE\<rparr>
         else
           let d = proto_writel D REG_DMA_LO (ucast (p_dma_handle d)) d;
               d = proto_writel D REG_DMA_HI (ucast (drop_bit 32 (p_dma_handle d))) d;
               d = proto_writel D REG_DMA_LEN n d;
               d = proto_writel D REG_DOORBELL (cmd_opcode cmdbuf) d;
               d = proto_writel D REG_CTRL CTRL_START d
           in latch_status D d)"

definition sim_proto_irq_handler :: "'h mmio \<Rightarrow> ('h, 'x) sim_dev_scheme \<Rightarrow> irqreturn \<times> ('h, 'x) sim_dev_scheme" where
  "sim_proto_irq_handler D d =
     (let (status, d) = proto_readl D REG_STATUS d;
          d = d\<lparr>last_status := status\<rparr>;
          d = proto_writel D REG_IRQ_ACK status d
      in (IRQ_HANDLED, d))"

definition sim_proto_ioctl ::
    "'h mmio \<Rightarrow> proto_user \<Rightarrow> u32 \<Rightarrow> ('h, 'x) sim_dev_scheme \<Rightarrow>
      ret \<times> 'r proto_out \<times> ('h, 'x) sim_dev_scheme" where
  "sim_proto_ioctl D u cmd d =
     (if IOC_TYPE cmd \<noteq> PROTO_PCIE_IOC_MAGIC then (Inl ENOTTY, PoutNone, d)
      else if cmd = PROTO_PCIE_IOC_GET_INFO then
        (let (ret, out) = reply u (PoutInfo \<lparr>info_bar0_len = ucast (bar0_len d), info_irq = irq_no d,
                            info_ring_entries = 64, info_ring_entry_size = 64\<rparr>)
         in (ret, out, d))
      else if cmd = PROTO_PCIE_IOC_RESET then (ok, PoutNone, sim_finish_reset D d)
      else if cmd = PROTO_PCIE_IOC_SEND_CMD then
        (case pu_cmd u of
           None \<Rightarrow> (Inl EFAULT, PoutNone, d)
         | Some cmdbuf \<Rightarrow> (ok, PoutNone, sim_submit_command D cmdbuf d))
      else if cmd = PROTO_PCIE_IOC_GET_STATUS then
        (let (ret, out) = reply u (PoutStatus (last_status d)) in (ret, out, d))
      else (Inl ENOTTY, PoutNone, d))"

section \<open>Life cycle\<close>

text \<open>
  \<open>P_dma n\<close> is a coherent allocation of \<open>n\<close> bytes: giving it back takes the same size. The last
  four are plain allocations.
\<close>

datatype proto_res =
    P_dev | P_enable | P_regions | P_iomap | P_dma u64 | P_vectors | P_irq | P_misc
  | P_buf | P_cmd_ring | P_comp_ring | P_payloads

definition when_held :: "bool \<Rightarrow> 'r \<Rightarrow> 'r rop list" where
  "when_held b r = (if b then [Release r] else [])"

definition dma_release :: "('h, 'x) sim_dev_scheme \<Rightarrow> proto_res rop list" where
  "dma_release d =
     (if dma_buf d \<noteq> None then
        if simulated d then [Release P_buf]
        else if has_pdev d then [Release (P_dma (dma_len d))] else []
      else [])"

text \<open>A null device is \<open>None\<close>; the \<open>int\<close> comparison \<open>d->irq > 0\<close> is signed.\<close>

definition sim_destroy_device :: "'h sim_dev option \<Rightarrow> proto_res rop list" where
  "sim_destroy_device dev =
     (case dev of
        None \<Rightarrow> []
      | Some d \<Rightarrow>
          when_held (misc_registered d) P_misc @
          when_held (irq_requested d \<and> sint (irq_no d) > 0) P_irq @
          when_held (irq_vectors_allocated d \<and> has_pdev d) P_vectors @
          dma_release d @
          when_held (bar_mapped d) P_iomap @
          when_held (regions_requested d \<and> has_pdev d) P_regions @
          when_held (device_enabled d \<and> has_pdev d) P_enable @
          [Release P_dev])"

text \<open>The structure \<open>kzalloc\<close> returns.\<close>

definition sim_zeroed :: "'h \<Rightarrow> 'h sim_dev" where
  "sim_zeroed h = \<lparr>p_bar0 = h, bar0_len = 0, irq_no = 0, dma_buf = None, p_dma_handle = 0,
     dma_len = 0, last_status = 0, has_pdev = False, simulated = False, misc_registered = False,
     device_enabled = False, regions_requested = False, bar_mapped = False,
     irq_vectors_allocated = False, irq_requested = False\<rparr>"

record sim_probe_env =
  sp_kzalloc :: bool
  sp_buf :: bool
  sp_misc :: int

definition sim_sim_probe :: "sim_probe_env \<Rightarrow> 'h \<Rightarrow> ret \<times> proto_res rop list \<times> 'h sim_dev option" where
  "sim_sim_probe env h =
    (if \<not> sp_kzalloc env then (Inl ENOMEM, [], None)
     else let l = [Acquire P_dev];
         d = (sim_zeroed h)\<lparr>simulated := True, bar0_len := 0x1000, irq_no := 0, dma_len := 4096,
               dma_buf := (if sp_buf env then Some (\<lambda>_. 0) else None), last_status := STATUS_READY\<rparr>;
         l = (if sp_buf env then l @ [Acquire P_buf] else l) in
     if dma_buf d = None then (Inl ENOMEM, l @ [Release P_dev], None)
     else if sp_misc env \<noteq> 0 then (Inl (Kerr (sp_misc env)), l @ [Release P_buf, Release P_dev], None)
     else (ok, l @ [Acquire P_misc], Some (d\<lparr>misc_registered := True\<rparr>)))"

text \<open>\<open>proto_sim_remove\<close> destroys the device of the global variable and clears it.\<close>

definition sim_sim_remove :: "'h sim_dev option \<Rightarrow> proto_res rop list \<times> 'h sim_dev option" where
  "sim_sim_remove gdev = (sim_destroy_device gdev, None)"

text \<open>
  Loading and unloading the module: \<open>simulate\<close> is its parameter, \<open>reg\<close> the answer of
  \<open>pci_register_driver\<close>, after which the bus calls probe and remove.
\<close>

definition sim_proto_init :: "bool \<Rightarrow> ret \<Rightarrow> sim_probe_env \<Rightarrow> 'h \<Rightarrow> ret \<times> proto_res rop list \<times> 'h sim_dev option" where
  "sim_proto_init simulate reg env h = (if simulate then sim_sim_probe env h else (reg, [], None))"

definition sim_proto_exit :: "bool \<Rightarrow> 'h sim_dev option \<Rightarrow> proto_res rop list \<times> 'h sim_dev option" where
  "sim_proto_exit simulate gdev = (if simulate then sim_sim_remove gdev else ([], gdev))"

record pci_probe_env =
  pp_kzalloc :: bool
  pp_enable :: int
  pp_regions :: int
  pp_bar_len :: u64
  pp_iomap :: bool
  pp_mask64 :: int
  pp_mask32 :: int
  pp_dma :: bool
  pp_handle :: u64
  pp_vectors :: int
  pp_irq :: u32
  pp_request_irq :: int
  pp_misc :: int

definition sim_pci_probe :: "pci_probe_env \<Rightarrow> 'h \<Rightarrow> ret \<times> proto_res rop list \<times> 'h sim_dev option" where
  "sim_pci_probe env h =
    (if \<not> pp_kzalloc env then (Inl ENOMEM, [], None)
     else let l = [Acquire P_dev]; d = (sim_zeroed h)\<lparr>has_pdev := True\<rparr> in
     if pp_enable env \<noteq> 0 then (Inl (Kerr (pp_enable env)), l @ [Release P_dev], None)
     else let l = l @ [Acquire P_enable]; d = d\<lparr>device_enabled := True\<rparr> in
     if pp_regions env \<noteq> 0 then (Inl (Kerr (pp_regions env)), l @ sim_destroy_device (Some d), None)
     else let l = l @ [Acquire P_regions]; d = d\<lparr>regions_requested := True, bar0_len := pp_bar_len env\<rparr> in
     if \<not> pp_iomap env then (Inl ENOMEM, l @ sim_destroy_device (Some d), None)
     else let l = l @ [Acquire P_iomap]; d = d\<lparr>bar_mapped := True\<rparr>;
         err = (if pp_mask64 env \<noteq> 0 then pp_mask32 env else 0) in
     if err \<noteq> 0 then (Inl (Kerr err), l @ sim_destroy_device (Some d), None)
     else let d = d\<lparr>dma_len := 4096\<rparr> in
     if \<not> pp_dma env then (Inl ENOMEM, l @ sim_destroy_device (Some d), None)
     else let l = l @ [Acquire (P_dma (dma_len d))];
         d = d\<lparr>dma_buf := Some (\<lambda>_. 0), p_dma_handle := pp_handle env\<rparr> in
     if pp_vectors env < 0 then (Inl (Kerr (pp_vectors env)), l @ sim_destroy_device (Some d), None)
     else let l = l @ [Acquire P_vectors]; d = d\<lparr>irq_vectors_allocated := True, irq_no := pp_irq env\<rparr> in
     if pp_request_irq env \<noteq> 0 then (Inl (Kerr (pp_request_irq env)), l @ sim_destroy_device (Some d), None)
     else let l = l @ [Acquire P_irq]; d = d\<lparr>irq_requested := True\<rparr> in
     if pp_misc env \<noteq> 0 then (Inl (Kerr (pp_misc env)), l @ sim_destroy_device (Some d), None)
     else (ok, l @ [Acquire P_misc], Some (d\<lparr>misc_registered := True\<rparr>)))"

definition sim_pci_remove :: "'h sim_dev option \<Rightarrow> proto_res rop list" where
  "sim_pci_remove dev = (if dev = None then [] else sim_destroy_device dev)"

section \<open>The hardware path is the basic driver\<close>

lemma sim_reset_hw: "\<not> simulated d \<Longrightarrow> sim_finish_reset D d = base_reset D d"
  by (simp add: sim_finish_reset_def base_reset_def)

lemma sim_submit_hw: "\<not> simulated d \<Longrightarrow> sim_submit_command D c d = base_send_cmd D c d"
  by (simp add: sim_submit_command_def base_send_cmd_def Let_def)

lemma sim_irq_hw: "sim_proto_irq_handler D d = proto_irq_handler D d"
  by (simp add: sim_proto_irq_handler_def proto_irq_handler_def)

lemma sim_ioctl_hw: "\<not> simulated d \<Longrightarrow> sim_proto_ioctl D u cmd d = base_proto_ioctl D u cmd d"
  by (simp add: sim_proto_ioctl_def base_proto_ioctl_def sim_reset_hw sim_submit_hw cong: option.case_cong)

section \<open>Balance of the life cycle\<close>

lemma sim_sim_probe_fail: "fst (sim_sim_probe env h) \<noteq> ok \<Longrightarrow>
    holds [] (fst (snd (sim_sim_probe env h))) = Some [] \<and> snd (snd (sim_sim_probe env h)) = None"
  by (auto simp: sim_sim_probe_def Let_def)

lemma sim_pci_probe_fail:
  assumes "fst (sim_pci_probe env h) \<noteq> ok" and "sint (pp_irq env) > 0"
  shows "lifo [] (fst (snd (sim_pci_probe env h))) = Some []"
  using assms
  by (auto simp: sim_pci_probe_def Let_def sim_destroy_device_def when_held_def dma_release_def
      sim_zeroed_def)

end
