(* ===== verification/Proto_Ring.thy ===== *)
theory Proto_Ring
  imports Proto_Sim
begin

text \<open>
  The ring driver, \<open>pcie_prototype_ring/kernel/proto_pcie.c\<close>: the simulated driver with a command
  ring that \<open>SEND_CMD\<close> fills and \<open>PROCESS_PENDING\<close> drains into a completion ring. A null ring is the
  empty list, a null payload area \<open>None\<close>; the payload area is one byte store of 256 bytes a slot.
\<close>

section \<open>Data\<close>

definition PROTO_SIM_PAYLOAD_PREVIEW :: nat where "PROTO_SIM_PAYLOAD_PREVIEW = 48"
definition PROTO_PCIE_SIM_RING_ENTRIES :: u32 where "PROTO_PCIE_SIM_RING_ENTRIES = 64"
definition PROTO_PCIE_SIM_RING_ENTRY_SIZE :: u32 where "PROTO_PCIE_SIM_RING_ENTRY_SIZE = 64"

lemmas ring_consts = PROTO_SIM_PAYLOAD_PREVIEW_def PROTO_PCIE_SIM_RING_ENTRIES_def
  PROTO_PCIE_SIM_RING_ENTRY_SIZE_def PROTO_PCIE_MAX_PAYLOAD_def

record proto_sim_ring_entry =
  re_opcode :: u32
  re_length :: u32
  re_seqno :: u32
  re_checksum :: u32
  re_preview :: "u8 list"

record proto_sim_completion_entry =
  ce_opcode :: u32
  ce_status :: u32
  ce_length :: u32
  ce_seqno :: u32
  ce_reserved :: "u8 list"

record proto_pcie_ring_state =
  rs_cmd_head :: u32
  rs_cmd_tail :: u32
  rs_cmd_pending :: u32
  rs_comp_head :: u32
  rs_comp_tail :: u32
  rs_comp_pending :: u32
  rs_completed_total :: u32
  rs_last_opcode :: u32
  rs_last_length :: u32
  rs_last_status :: u32
  rs_next_seqno :: u32

definition PROTO_PCIE_IOC_PROCESS_PENDING :: u32 where
  "PROTO_PCIE_IOC_PROCESS_PENDING = IO PROTO_PCIE_IOC_MAGIC 5"
definition PROTO_PCIE_IOC_GET_RING_STATE :: u32 where
  "PROTO_PCIE_IOC_GET_RING_STATE = IOR PROTO_PCIE_IOC_MAGIC 6 44"

lemma ring_ioc_values:
  "PROTO_PCIE_IOC_PROCESS_PENDING = 0x5005" "PROTO_PCIE_IOC_GET_RING_STATE = 0x802C5006"
  by (simp_all add: PROTO_PCIE_IOC_PROCESS_PENDING_def PROTO_PCIE_IOC_GET_RING_STATE_def
      PROTO_PCIE_IOC_MAGIC_def ioc_defs)

record 'h ring_dev = "'h sim_dev" +
  ring_entries :: u32
  ring_entry_size :: u32
  cmd_ring :: "proto_sim_ring_entry list"
  comp_ring :: "proto_sim_completion_entry list"
  cmd_payloads :: "store option"
  cmd_head :: u32
  cmd_tail :: u32
  cmd_pending :: u32
  comp_head :: u32
  comp_tail :: u32
  comp_pending :: u32
  completed_total :: u32
  last_opcode :: u32
  last_length :: u32
  next_seqno :: u32

section \<open>Operations\<close>

lemma unat_plus_1: "i < (len :: u32) \<Longrightarrow> unat (i + 1) = Suc (unat i)"
  using unsigned_less[of len, where 'a = nat] by (simp add: word_less_nat_alt unat_word_ariths)

function checksum_loop :: "u8 list \<Rightarrow> u32 \<Rightarrow> u32 \<Rightarrow> u32 \<Rightarrow> u32" where
  "checksum_loop buf len i s =
     (if i < len then checksum_loop buf len (i + 1) (s + ucast (buf ! unat i)) else s)"
  by pat_completeness auto
termination
proof (relation "measure (\<lambda>(buf, len, i, s). unat len - unat i)", goal_cases)
  case (2 buf len i s)
  then show ?case using unat_plus_1[of i len] by (simp add: word_less_nat_alt)
qed simp

declare checksum_loop.simps [simp del]

definition proto_checksum :: "u8 list \<Rightarrow> u32 \<Rightarrow> u32" where
  "proto_checksum buf len = checksum_loop buf len 0 0"

text \<open>What \<open>memset\<close> leaves in an entry.\<close>

definition zero_ring_entry :: proto_sim_ring_entry where
  "zero_ring_entry = \<lparr>re_opcode = 0, re_length = 0, re_seqno = 0, re_checksum = 0,
     re_preview = replicate PROTO_SIM_PAYLOAD_PREVIEW 0\<rparr>"

definition zero_completion :: proto_sim_completion_entry where
  "zero_completion = \<lparr>ce_opcode = 0, ce_status = 0, ce_length = 0, ce_seqno = 0,
     ce_reserved = replicate PROTO_SIM_PAYLOAD_PREVIEW 0\<rparr>"

definition proto_sim_clear_rings :: "'h ring_dev \<Rightarrow> 'h ring_dev" where
  "proto_sim_clear_rings d =
     (let d = (if cmd_ring d \<noteq> [] then d\<lparr>cmd_ring := replicate (unat (ring_entries d)) zero_ring_entry\<rparr> else d);
          d = (if comp_ring d \<noteq> [] then d\<lparr>comp_ring := replicate (unat (ring_entries d)) zero_completion\<rparr> else d);
          d = (case cmd_payloads d of
                 None \<Rightarrow> d
               | Some m \<Rightarrow> d\<lparr>cmd_payloads := Some (mem_set m 0 0 (unat (ring_entries d) * unat PROTO_PCIE_MAX_PAYLOAD))\<rparr>)
      in d\<lparr>cmd_head := 0, cmd_tail := 0, cmd_pending := 0, comp_head := 0, comp_tail := 0, comp_pending := 0,
           completed_total := 0, last_opcode := 0, last_length := 0, next_seqno := 1\<rparr>)"

definition ring_finish_reset :: "'h mmio \<Rightarrow> 'h ring_dev \<Rightarrow> 'h ring_dev" where
  "ring_finish_reset D d =
     (if simulated d then
        let d = d\<lparr>dma_buf := Some (mem_set (the (dma_buf d)) 0 0 (unat (dma_len d)))\<rparr>;
            d = proto_sim_clear_rings d
        in d\<lparr>last_status := STATUS_READY\<rparr>
      else
        let d = proto_writel D REG_CTRL CTRL_RESET d;
            d = proto_msleep D 20 d;
            d = proto_writel D REG_CTRL 0 d
        in latch_status D d)"

definition proto_sim_store_completion :: "u32 \<Rightarrow> u32 \<Rightarrow> u32 \<Rightarrow> u32 \<Rightarrow> 'h ring_dev \<Rightarrow> 'h ring_dev" where
  "proto_sim_store_completion opcode status len seqno d =
     (let d = d\<lparr>comp_ring := (comp_ring d)[unat (comp_tail d) :=
                 \<lparr>ce_opcode = opcode, ce_status = status, ce_length = len, ce_seqno = seqno,
                  ce_reserved = replicate PROTO_SIM_PAYLOAD_PREVIEW 0\<rparr>]\<rparr>;
          d = d\<lparr>comp_tail := (comp_tail d + 1) mod ring_entries d\<rparr>
      in if comp_pending d < ring_entries d then d\<lparr>comp_pending := comp_pending d + 1\<rparr> else d)"

text \<open>The bytes of a slot after \<open>memset\<close> to 0 and \<open>memcpy\<close> of \<open>bs\<close> into a buffer of \<open>n\<close> bytes.\<close>

definition padded :: "nat \<Rightarrow> u8 list \<Rightarrow> u8 list" where
  "padded n bs = take n (bs @ replicate n 0)"

definition proto_sim_enqueue_command :: "proto_pcie_command \<Rightarrow> 'h ring_dev \<Rightarrow> ret \<times> 'h ring_dev" where
  "proto_sim_enqueue_command cmdbuf d =
     (if cmd_pending d \<ge> ring_entries d then (Inl ENOSPC, d)
      else
        let slot = cmd_tail d;
            off = unat slot * unat PROTO_PCIE_MAX_PAYLOAD;
            n = clamp_len cmdbuf;
            seqno = next_seqno d;
            d = d\<lparr>next_seqno := next_seqno d + 1\<rparr>;
            d = d\<lparr>cmd_ring := (cmd_ring d)[unat slot :=
                  \<lparr>re_opcode = cmd_opcode cmdbuf, re_length = n, re_seqno = seqno,
                   re_checksum = proto_checksum (cmd_payload cmdbuf) n,
                   re_preview = padded PROTO_SIM_PAYLOAD_PREVIEW
                     (take (unat (min n (of_nat PROTO_SIM_PAYLOAD_PREVIEW))) (cmd_payload cmdbuf))\<rparr>]\<rparr>;
            m = mem_set (the (cmd_payloads d)) off 0 (unat PROTO_PCIE_MAX_PAYLOAD);
            d = d\<lparr>cmd_payloads := Some (mem_write m off (take (unat n) (cmd_payload cmdbuf)))\<rparr>;
            d = d\<lparr>cmd_tail := (cmd_tail d + 1) mod ring_entries d\<rparr>;
            d = d\<lparr>cmd_pending := cmd_pending d + 1\<rparr>
        in (ok, d\<lparr>last_status := STATUS_READY\<rparr>))"

text \<open>One round of the loop of \<open>proto_sim_process_pending\<close>, and the loop.\<close>

definition process_one :: "'h ring_dev \<Rightarrow> 'h ring_dev" where
  "process_one d =
     (let entry = cmd_ring d ! unat (cmd_head d);
          off = unat (cmd_head d) * unat PROTO_PCIE_MAX_PAYLOAD;
          n = re_length entry;
          copied = min n (ucast (dma_len d));
          m = mem_set (the (dma_buf d)) 0 0 (unat (dma_len d));
          d = d\<lparr>dma_buf := Some (mem_write m 0 (mem_read (the (cmd_payloads d)) off (unat copied)))\<rparr>;
          d = d\<lparr>last_opcode := re_opcode entry\<rparr>;
          d = d\<lparr>last_length := n\<rparr>;
          d = d\<lparr>last_status := STATUS_READY OR STATUS_DONE\<rparr>;
          d = d\<lparr>completed_total := completed_total d + 1\<rparr>;
          d = proto_sim_store_completion (re_opcode entry) (last_status d) n (re_seqno entry) d;
          d = d\<lparr>cmd_head := (cmd_head d + 1) mod ring_entries d\<rparr>
      in d\<lparr>cmd_pending := cmd_pending d - 1\<rparr>)"

lemma cmd_pending_process_one [simp]: "cmd_pending (process_one d) = cmd_pending d - 1"
  by (simp add: process_one_def proto_sim_store_completion_def Let_def)

function proto_sim_process_pending :: "'h ring_dev \<Rightarrow> ret \<times> 'h ring_dev" where
  "proto_sim_process_pending d =
     (if cmd_pending d > 0 then proto_sim_process_pending (process_one d) else (ok, d))"
  by pat_completeness auto
termination
  by (relation "measure (\<lambda>d. unat (cmd_pending d))") (auto simp: measure_unat)

declare proto_sim_process_pending.simps [simp del]

definition proto_sim_get_ring_state :: "'h ring_dev \<Rightarrow> proto_pcie_ring_state" where
  "proto_sim_get_ring_state d = \<lparr>rs_cmd_head = cmd_head d, rs_cmd_tail = cmd_tail d,
     rs_cmd_pending = cmd_pending d, rs_comp_head = comp_head d, rs_comp_tail = comp_tail d,
     rs_comp_pending = comp_pending d, rs_completed_total = completed_total d,
     rs_last_opcode = last_opcode d, rs_last_length = last_length d, rs_last_status = last_status d,
     rs_next_seqno = next_seqno d\<rparr>"

definition ring_irq_handler :: "'h mmio \<Rightarrow> 'h ring_dev \<Rightarrow> irqreturn \<times> 'h ring_dev" where
  "ring_irq_handler D d =
     (let (status, d) = proto_readl D REG_STATUS d;
          d = d\<lparr>last_status := status\<rparr>;
          d = proto_writel D REG_IRQ_ACK status d
      in (IRQ_HANDLED, d))"

definition ring_hw_send :: "'h mmio \<Rightarrow> proto_pcie_command \<Rightarrow> 'h ring_dev \<Rightarrow> 'h ring_dev" where
  "ring_hw_send D cmdbuf d =
     (case dma_buf d of
        None \<Rightarrow> d
      | Some buf \<Rightarrow>
          (let n = clamp_len cmdbuf;
               d = d\<lparr>dma_buf := Some (mem_write buf 0 (take (unat n) (cmd_payload cmdbuf)))\<rparr>;
               d = d\<lparr>dma_len := ucast n\<rparr>;
               d = proto_writel D REG_DMA_LO (ucast (p_dma_handle d)) d;
               d = proto_writel D REG_DMA_HI (ucast (drop_bit 32 (p_dma_handle d))) d;
               d = proto_writel D REG_DMA_LEN n d;
               d = proto_writel D REG_DOORBELL (cmd_opcode cmdbuf) d;
               d = proto_writel D REG_CTRL CTRL_START d
           in latch_status D d))"

definition ring_proto_ioctl ::
    "'h mmio \<Rightarrow> proto_user \<Rightarrow> u32 \<Rightarrow> 'h ring_dev \<Rightarrow> ret \<times> proto_pcie_ring_state proto_out \<times> 'h ring_dev" where
  "ring_proto_ioctl D u cmd d =
     (if IOC_TYPE cmd \<noteq> PROTO_PCIE_IOC_MAGIC then (Inl ENOTTY, PoutNone, d)
      else if cmd = PROTO_PCIE_IOC_GET_INFO then
        (let (ret, out) = reply u (PoutInfo \<lparr>info_bar0_len = ucast (bar0_len d), info_irq = irq_no d,
                            info_ring_entries = ring_entries d, info_ring_entry_size = ring_entry_size d\<rparr>)
         in (ret, out, d))
      else if cmd = PROTO_PCIE_IOC_RESET then (ok, PoutNone, ring_finish_reset D d)
      else if cmd = PROTO_PCIE_IOC_SEND_CMD then
        (case pu_cmd u of
           None \<Rightarrow> (Inl EFAULT, PoutNone, d)
         | Some cmdbuf \<Rightarrow>
             if simulated d then
               (let (ret, d) = proto_sim_enqueue_command cmdbuf d in (ret, PoutNone, d))
             else (ok, PoutNone, ring_hw_send D cmdbuf d))
      else if cmd = PROTO_PCIE_IOC_PROCESS_PENDING then
        (if simulated d then
           (let (ret, d) = proto_sim_process_pending d in (ret, PoutNone, d))
         else (ok, PoutNone, d))
      else if cmd = PROTO_PCIE_IOC_GET_STATUS then
        (let (ret, out) = reply u (PoutStatus (last_status d)) in (ret, out, d))
      else if cmd = PROTO_PCIE_IOC_GET_RING_STATE then
        (if \<not> simulated d then (Inl ENOTSUPP, PoutNone, d)
         else (let (ret, out) = reply u (PoutRing (proto_sim_get_ring_state d)) in (ret, out, d)))
      else (Inl ENOTTY, PoutNone, d))"

section \<open>Life cycle\<close>

definition ring_destroy_device :: "'h ring_dev option \<Rightarrow> proto_res rop list" where
  "ring_destroy_device dev =
     (case dev of
        None \<Rightarrow> []
      | Some d \<Rightarrow>
          when_held (misc_registered d) P_misc @
          when_held (irq_requested d \<and> sint (irq_no d) > 0) P_irq @
          when_held (irq_vectors_allocated d \<and> has_pdev d) P_vectors @
          dma_release d @
          when_held (cmd_ring d \<noteq> []) P_cmd_ring @
          when_held (comp_ring d \<noteq> []) P_comp_ring @
          when_held (cmd_payloads d \<noteq> None) P_payloads @
          when_held (bar_mapped d) P_iomap @
          when_held (regions_requested d \<and> has_pdev d) P_regions @
          when_held (device_enabled d \<and> has_pdev d) P_enable @
          [Release P_dev])"

definition ring_zeroed :: "'h \<Rightarrow> 'h ring_dev" where
  "ring_zeroed h = \<lparr>p_bar0 = h, bar0_len = 0, irq_no = 0, dma_buf = None, p_dma_handle = 0,
     dma_len = 0, last_status = 0, has_pdev = False, simulated = False, misc_registered = False,
     device_enabled = False, regions_requested = False, bar_mapped = False,
     irq_vectors_allocated = False, irq_requested = False,
     ring_entries = 0, ring_entry_size = 0, cmd_ring = [], comp_ring = [], cmd_payloads = None,
     cmd_head = 0, cmd_tail = 0, cmd_pending = 0, comp_head = 0, comp_tail = 0, comp_pending = 0,
     completed_total = 0, last_opcode = 0, last_length = 0, next_seqno = 0\<rparr>"

record ring_probe_env =
  rp_kzalloc :: bool
  rp_buf :: bool
  rp_cmd_ring :: bool
  rp_comp_ring :: bool
  rp_payloads :: bool
  rp_misc :: int

definition acquired :: "bool \<Rightarrow> 'r \<Rightarrow> 'r rop list" where
  "acquired b r = (if b then [Acquire r] else [])"

text \<open>\<open>kfree\<close> of a null pointer does nothing.\<close>

definition ring_err_free :: "ring_probe_env \<Rightarrow> proto_res rop list" where
  "ring_err_free env = when_held (rp_buf env) P_buf @ when_held (rp_cmd_ring env) P_cmd_ring @
     when_held (rp_comp_ring env) P_comp_ring @ when_held (rp_payloads env) P_payloads @ [Release P_dev]"

definition ring_sim_probe :: "ring_probe_env \<Rightarrow> 'h \<Rightarrow> ret \<times> proto_res rop list \<times> 'h ring_dev option" where
  "ring_sim_probe env h =
    (if \<not> rp_kzalloc env then (Inl ENOMEM, [], None)
     else let l = [Acquire P_dev];
         d = (ring_zeroed h)\<lparr>simulated := True, ring_entries := PROTO_PCIE_SIM_RING_ENTRIES,
               ring_entry_size := PROTO_PCIE_SIM_RING_ENTRY_SIZE, bar0_len := 0x1000, irq_no := 0, dma_len := 4096\<rparr>;
         d = d\<lparr>dma_buf := (if rp_buf env then Some (\<lambda>_. 0) else None)\<rparr>;
         d = d\<lparr>cmd_ring := (if rp_cmd_ring env then replicate (unat (ring_entries d)) zero_ring_entry else [])\<rparr>;
         d = d\<lparr>comp_ring := (if rp_comp_ring env then replicate (unat (ring_entries d)) zero_completion else [])\<rparr>;
         d = d\<lparr>cmd_payloads := (if rp_payloads env then Some (\<lambda>_. 0) else None)\<rparr>;
         d = d\<lparr>last_status := STATUS_READY\<rparr>;
         l = l @ acquired (rp_buf env) P_buf @ acquired (rp_cmd_ring env) P_cmd_ring @
               acquired (rp_comp_ring env) P_comp_ring @ acquired (rp_payloads env) P_payloads in
     if dma_buf d = None \<or> cmd_ring d = [] \<or> comp_ring d = [] \<or> cmd_payloads d = None then
       (Inl ENOMEM, l @ ring_err_free env, None)
     else let d = proto_sim_clear_rings d in
     if rp_misc env \<noteq> 0 then (Inl (Kerr (rp_misc env)), l @ ring_err_free env, None)
     else (ok, l @ [Acquire P_misc], Some (d\<lparr>misc_registered := True\<rparr>)))"

definition ring_sim_remove :: "'h ring_dev option \<Rightarrow> proto_res rop list \<times> 'h ring_dev option" where
  "ring_sim_remove gdev = (ring_destroy_device gdev, None)"

definition ring_proto_init :: "bool \<Rightarrow> ret \<Rightarrow> ring_probe_env \<Rightarrow> 'h \<Rightarrow> ret \<times> proto_res rop list \<times> 'h ring_dev option" where
  "ring_proto_init simulate reg env h = (if simulate then ring_sim_probe env h else (reg, [], None))"

definition ring_proto_exit :: "bool \<Rightarrow> 'h ring_dev option \<Rightarrow> proto_res rop list \<times> 'h ring_dev option" where
  "ring_proto_exit simulate gdev = (if simulate then ring_sim_remove gdev else ([], gdev))"

definition ring_pci_probe :: "pci_probe_env \<Rightarrow> 'h \<Rightarrow> ret \<times> proto_res rop list \<times> 'h ring_dev option" where
  "ring_pci_probe env h =
    (if \<not> pp_kzalloc env then (Inl ENOMEM, [], None)
     else let l = [Acquire P_dev];
         d = (ring_zeroed h)\<lparr>has_pdev := True, ring_entries := PROTO_PCIE_SIM_RING_ENTRIES,
               ring_entry_size := PROTO_PCIE_SIM_RING_ENTRY_SIZE\<rparr> in
     if pp_enable env \<noteq> 0 then (Inl (Kerr (pp_enable env)), l @ [Release P_dev], None)
     else let l = l @ [Acquire P_enable]; d = d\<lparr>device_enabled := True\<rparr> in
     if pp_regions env \<noteq> 0 then (Inl (Kerr (pp_regions env)), l @ ring_destroy_device (Some d), None)
     else let l = l @ [Acquire P_regions]; d = d\<lparr>regions_requested := True, bar0_len := pp_bar_len env\<rparr> in
     if \<not> pp_iomap env then (Inl ENOMEM, l @ ring_destroy_device (Some d), None)
     else let l = l @ [Acquire P_iomap]; d = d\<lparr>bar_mapped := True\<rparr>;
         err = (if pp_mask64 env \<noteq> 0 then pp_mask32 env else 0) in
     if err \<noteq> 0 then (Inl (Kerr err), l @ ring_destroy_device (Some d), None)
     else let d = d\<lparr>dma_len := 4096\<rparr> in
     if \<not> pp_dma env then (Inl ENOMEM, l @ ring_destroy_device (Some d), None)
     else let l = l @ [Acquire (P_dma (dma_len d))];
         d = d\<lparr>dma_buf := Some (\<lambda>_. 0), p_dma_handle := pp_handle env\<rparr> in
     if pp_vectors env < 0 then (Inl (Kerr (pp_vectors env)), l @ ring_destroy_device (Some d), None)
     else let l = l @ [Acquire P_vectors]; d = d\<lparr>irq_vectors_allocated := True, irq_no := pp_irq env\<rparr> in
     if pp_request_irq env \<noteq> 0 then (Inl (Kerr (pp_request_irq env)), l @ ring_destroy_device (Some d), None)
     else let l = l @ [Acquire P_irq]; d = d\<lparr>irq_requested := True\<rparr> in
     if pp_misc env \<noteq> 0 then (Inl (Kerr (pp_misc env)), l @ ring_destroy_device (Some d), None)
     else (ok, l @ [Acquire P_misc], Some (d\<lparr>misc_registered := True\<rparr>)))"

definition ring_pci_remove :: "'h ring_dev option \<Rightarrow> proto_res rop list" where
  "ring_pci_remove dev = (case dev of None \<Rightarrow> [] | Some d \<Rightarrow> ring_destroy_device (Some d))"

section \<open>The hardware path is the basic driver\<close>

lemma ring_reset_hw: "\<not> simulated d \<Longrightarrow> ring_finish_reset D d = base_reset D d"
  by (simp add: ring_finish_reset_def base_reset_def)

lemma ring_irq_hw: "ring_irq_handler D d = proto_irq_handler D d"
  by (simp add: ring_irq_handler_def proto_irq_handler_def)

lemma ring_hw_send_base: "dma_buf d \<noteq> None \<Longrightarrow> ring_hw_send D c d = base_send_cmd D c d"
proof -
  assume "dma_buf d \<noteq> None"
  then obtain m where m: "dma_buf d = Some m" by auto
  show ?thesis
  proof (cases "clamp_len c = 0")
    case True
    have "d\<lparr>dma_buf := Some m\<rparr> = d" using m by simp
    then have same: "d\<lparr>dma_buf := Some m, dma_len := 0\<rparr> = d\<lparr>dma_len := 0\<rparr>" by (simp only:)
    show ?thesis using m True by (simp add: ring_hw_send_def base_send_cmd_def same)
  next
    case False
    then show ?thesis using m by (simp add: ring_hw_send_def base_send_cmd_def word_gt_0 Let_def)
  qed
qed

section \<open>Balance of the life cycle\<close>

lemmas ring_life_defs = Let_def ring_destroy_device_def when_held_def dma_release_def ring_zeroed_def
  acquired_def ring_err_free_def

lemma ring_sim_probe_fail: "fst (ring_sim_probe env h) \<noteq> ok \<Longrightarrow>
    holds [] (fst (snd (ring_sim_probe env h))) = Some [] \<and> snd (snd (ring_sim_probe env h)) = None"
  by (auto simp: ring_sim_probe_def ring_life_defs)

lemma ring_pci_probe_fail:
  assumes "fst (ring_pci_probe env h) \<noteq> ok" and "sint (pp_irq env) > 0"
  shows "lifo [] (fst (snd (ring_pci_probe env h))) = Some [] \<and> snd (snd (ring_pci_probe env h)) = None"
  using assms by (auto simp: ring_pci_probe_def ring_life_defs)

end
