(* ===== verification/Ring_Queue.thy ===== *)
theory Ring_Queue
  imports Proto_Ring
begin

text \<open>
  The rings of the ring driver as queues: the commands waiting, first in first out, and the last 64
  completions. The invariant relates the indices, the counters and the sequence numbers; the
  command ring is interpreted as a bounded queue, and the invariant as one of the system whose
  steps are the ioctls.
\<close>

section \<open>Indices\<close>

lemma unat_inc_mod: "unat (x :: u32) < 64 \<Longrightarrow> unat ((x + 1) mod 64) = (unat x + 1) mod 64"
  by (simp add: unat_mod unat_word_ariths)

lemma unat_inc_total: "unat ((x :: u32) + 1) mod 64 = (unat x + 1) mod 64"
  by (simp add: unat_word_ariths mod_mod_cancel)

definition last_n :: "nat \<Rightarrow> 'a list \<Rightarrow> 'a list" where
  "last_n n xs = drop (length xs - n) xs"

lemma last_n_short: "length xs \<le> n \<Longrightarrow> last_n n xs = xs"
  by (simp add: last_n_def)

lemma last_n_last_n: "last_n n (last_n n xs @ ys) = last_n n (xs @ ys)"
proof (cases "length xs \<le> n")
  case True
  then show ?thesis by (simp add: last_n_short)
next
  case False
  then show ?thesis by (simp add: last_n_def drop_append min_def add.commute)
qed

section \<open>The queues\<close>

text \<open>What the queue keeps of a command: opcode, clamped length and the 256 bytes of its slot.\<close>

type_synonym queued = "u32 \<times> u32 \<times> u8 list"

definition slot_cmd :: "proto_sim_ring_entry list \<Rightarrow> store option \<Rightarrow> nat \<Rightarrow> queued" where
  "slot_cmd ring m i = (re_opcode (ring ! i), re_length (ring ! i), mem_read (the m) (i * 256) 256)"

definition queue :: "'h ring_dev \<Rightarrow> queued list" where
  "queue d = ring_list 64 (slot_cmd (cmd_ring d) (cmd_payloads d)) (unat (cmd_head d)) (unat (cmd_pending d))"

definition queued_of :: "proto_pcie_command \<Rightarrow> queued" where
  "queued_of c = (cmd_opcode c, clamp_len c, padded 256 (take (unat (clamp_len c)) (cmd_payload c)))"

text \<open>The completions the ring still holds, oldest first.\<close>

definition comp_list :: "'h ring_dev \<Rightarrow> proto_sim_completion_entry list" where
  "comp_list d = ring_list 64 (\<lambda>i. comp_ring d ! i)
     ((unat (comp_tail d) + 64 - unat (comp_pending d)) mod 64) (unat (comp_pending d))"

definition ring_ok :: "'h ring_dev \<Rightarrow> bool" where
  "ring_ok d \<longleftrightarrow> simulated d \<and> ring_entries d = 64 \<and> length (cmd_ring d) = 64 \<and> length (comp_ring d) = 64 \<and>
     cmd_payloads d \<noteq> None \<and> dma_buf d \<noteq> None \<and> dma_len d = 4096 \<and>
     unat (cmd_head d) < 64 \<and> unat (cmd_pending d) \<le> 64 \<and>
     unat (cmd_tail d) = (unat (cmd_head d) + unat (cmd_pending d)) mod 64 \<and>
     comp_head d = 0 \<and> unat (comp_pending d) \<le> 64 \<and> unat (comp_tail d) = unat (completed_total d) mod 64 \<and>
     next_seqno d = completed_total d + cmd_pending d + 1 \<and>
     (\<forall>k < unat (cmd_pending d). let i = (unat (cmd_head d) + k) mod 64 in
       unat (re_length (cmd_ring d ! i)) \<le> 256 \<and> re_seqno (cmd_ring d ! i) = completed_total d + of_nat k + 1)"

lemma ring_okD:
  assumes "ring_ok d"
  shows "simulated d" "ring_entries d = 64" "length (cmd_ring d) = 64" "length (comp_ring d) = 64"
    "cmd_payloads d \<noteq> None" "dma_buf d \<noteq> None" "dma_len d = 4096" "unat (cmd_head d) < 64"
    "unat (cmd_pending d) \<le> 64" "unat (cmd_tail d) = (unat (cmd_head d) + unat (cmd_pending d)) mod 64"
    "comp_head d = 0" "unat (comp_pending d) \<le> 64" "unat (comp_tail d) = unat (completed_total d) mod 64"
    "next_seqno d = completed_total d + cmd_pending d + 1" "unat (comp_tail d) < 64" "unat (cmd_tail d) < 64"
    "\<And>k. k < unat (cmd_pending d) \<Longrightarrow> unat (re_length (cmd_ring d ! ((unat (cmd_head d) + k) mod 64))) \<le> 256"
    "\<And>k. k < unat (cmd_pending d) \<Longrightarrow>
      re_seqno (cmd_ring d ! ((unat (cmd_head d) + k) mod 64)) = completed_total d + of_nat k + 1"
  using assms unfolding ring_ok_def Let_def by auto

lemma length_queue [simp]: "length (queue d) = unat (cmd_pending d)"
  by (simp add: queue_def)

lemma length_comp_list [simp]: "length (comp_list d) = unat (comp_pending d)"
  by (simp add: comp_list_def)

section \<open>Enqueue\<close>

lemma mem_read_padded:
  "length bs \<le> 256 \<Longrightarrow> mem_read (mem_write (mem_set m off 0 256) off bs) off 256 = padded 256 bs"
  by (rule nth_equalityI) (auto simp: mem_read_def mem_write_def mem_set_eq padded_def nth_append)

lemma mem_read_other_slot:
  "i \<noteq> j \<Longrightarrow> length bs \<le> 256 \<Longrightarrow>
    mem_read (mem_write (mem_set m (j * 256) 0 256) (j * 256) bs) (i * 256) 256 = mem_read m (i * 256) 256"
  by (rule mem_read_cong) (auto simp: mem_write_def mem_set_eq)

lemma enqueue_full_iff: "ring_ok d \<Longrightarrow> cmd_pending d \<ge> ring_entries d \<longleftrightarrow> unat (cmd_pending d) = 64"
  using ring_okD[of d] by (auto simp: word_le_nat_alt)

lemma enqueue_fields:
  assumes "ring_ok d" and "unat (cmd_pending d) < 64"
  shows "cmd_head (snd (proto_sim_enqueue_command c d)) = cmd_head d"
    "unat (cmd_pending (snd (proto_sim_enqueue_command c d))) = Suc (unat (cmd_pending d))"
    "cmd_pending (snd (proto_sim_enqueue_command c d)) = cmd_pending d + 1"
    "cmd_tail (snd (proto_sim_enqueue_command c d)) = (cmd_tail d + 1) mod 64"
    "next_seqno (snd (proto_sim_enqueue_command c d)) = next_seqno d + 1"
    "comp_list (snd (proto_sim_enqueue_command c d)) = comp_list d"
    "completed_total (snd (proto_sim_enqueue_command c d)) = completed_total d"
    "fst (proto_sim_enqueue_command c d) = ok"
  using assms ring_okD[OF assms(1)] enqueue_full_iff[OF assms(1)]
  by (simp_all add: proto_sim_enqueue_command_def Let_def comp_list_def unat_word_ariths)

lemma enqueue_cmd_ring:
  assumes "ring_ok d" and "unat (cmd_pending d) < 64"
  shows "\<exists>s p. cmd_ring (snd (proto_sim_enqueue_command c d)) = (cmd_ring d)[unat (cmd_tail d) :=
      \<lparr>re_opcode = cmd_opcode c, re_length = clamp_len c, re_seqno = next_seqno d, re_checksum = s, re_preview = p\<rparr>]"
    and "cmd_payloads (snd (proto_sim_enqueue_command c d)) =
      Some (mem_write (mem_set (the (cmd_payloads d)) (unat (cmd_tail d) * 256) 0 256) (unat (cmd_tail d) * 256)
        (take (unat (clamp_len c)) (cmd_payload c)))"
  using assms enqueue_full_iff[OF assms(1)]
  by (auto simp: proto_sim_enqueue_command_def Let_def PROTO_PCIE_MAX_PAYLOAD_def)

lemma queue_enqueue:
  assumes ok: "ring_ok d" and room: "unat (cmd_pending d) < 64"
  shows "queue (snd (proto_sim_enqueue_command c d)) = queue d @ [queued_of c]"
proof -
  note D = ring_okD[OF ok]
  let ?e = "snd (proto_sim_enqueue_command c d)"
  let ?t = "unat (cmd_tail d)"
  obtain s p where ring: "cmd_ring ?e = (cmd_ring d)[?t := \<lparr>re_opcode = cmd_opcode c,
      re_length = clamp_len c, re_seqno = next_seqno d, re_checksum = s, re_preview = p\<rparr>]"
    using enqueue_cmd_ring(1)[OF assms] by blast
  note pay = enqueue_cmd_ring(2)[OF assms]
  have len: "length (take (unat (clamp_len c)) (cmd_payload c)) \<le> 256" using clamp_len_le[of c] by simp
  have "ring_list 64 (slot_cmd (cmd_ring ?e) (cmd_payloads ?e)) (unat (cmd_head d)) (Suc (unat (cmd_pending d))) =
      queue d @ [queued_of c]"
    unfolding queue_def
  proof (rule ring_list_push[OF room])
    show "slot_cmd (cmd_ring ?e) (cmd_payloads ?e) ((unat (cmd_head d) + unat (cmd_pending d)) mod 64) = queued_of c"
      using D(3,16) len by (simp add: slot_cmd_def queued_of_def ring pay mem_read_padded flip: D(10))
    fix i :: nat assume "i \<noteq> (unat (cmd_head d) + unat (cmd_pending d)) mod 64"
    then show "slot_cmd (cmd_ring ?e) (cmd_payloads ?e) i = slot_cmd (cmd_ring d) (cmd_payloads d) i"
      using len by (simp add: slot_cmd_def ring pay mem_read_other_slot flip: D(10))
  qed
  then show ?thesis using enqueue_fields[OF assms] by (simp add: queue_def)
qed

lemma ring_ok_enqueue:
  assumes ok: "ring_ok d"
  shows "ring_ok (snd (proto_sim_enqueue_command c d))"
proof (cases "unat (cmd_pending d) = 64")
  case True
  then show ?thesis using ok enqueue_full_iff[OF ok] by (simp add: proto_sim_enqueue_command_def)
next
  case False
  note D = ring_okD[OF ok]
  from False D(9) have room: "unat (cmd_pending d) < 64" by simp
  let ?e = "snd (proto_sim_enqueue_command c d)"
  let ?h = "unat (cmd_head d)" and ?p = "unat (cmd_pending d)"
  note F = enqueue_fields[OF ok room, of c]
  obtain s p where ring: "cmd_ring ?e = (cmd_ring d)[unat (cmd_tail d) := \<lparr>re_opcode = cmd_opcode c,
      re_length = clamp_len c, re_seqno = next_seqno d, re_checksum = s, re_preview = p\<rparr>]"
    using enqueue_cmd_ring(1)[OF ok room] by blast
  have same: "simulated ?e" "ring_entries ?e = 64" "length (comp_ring ?e) = 64" "cmd_payloads ?e \<noteq> None"
    "dma_buf ?e \<noteq> None" "dma_len ?e = 4096" "comp_head ?e = 0" "comp_pending ?e = comp_pending d"
    "comp_tail ?e = comp_tail d"
    using D room enqueue_full_iff[OF ok] by (simp_all add: proto_sim_enqueue_command_def Let_def)
  have new: "unat (re_length (cmd_ring ?e ! ((?h + k) mod 64))) \<le> 256 \<and>
      re_seqno (cmd_ring ?e ! ((?h + k) mod 64)) = completed_total d + of_nat k + 1" if "k < Suc ?p" for k
  proof (cases "k = ?p")
    case True
    then show ?thesis
      using D(3,14,16) clamp_len_le[of c] by (simp add: ring flip: D(10))
  next
    case False
    then have "(?h + k) mod 64 \<noteq> unat (cmd_tail d)"
      using that room mod_distinct[of k 64 ?p ?h] by (auto simp: D(10))
    then show ?thesis using that False D(17,18)[of k] by (simp add: ring)
  qed
  have "unat (cmd_tail ?e) = (?h + Suc ?p) mod 64"
    using unat_inc_mod[OF D(16)] by (simp add: F D(10) mod_simps)
  then show ?thesis
    using same F D new room by (simp add: ring_ok_def Let_def ring)
qed

section \<open>Process pending\<close>

lemma comp_start: "t < 64 \<Longrightarrow> p < 64 \<Longrightarrow> ((t + 1) mod 64 + 64 - Suc p) mod 64 = (t + 64 - p) mod (64 :: nat)"
  by (cases "t = 63") (auto simp: mod_if)

lemma store_completion_list:
  assumes "length (comp_ring d) = 64" and "ring_entries d = 64" and "unat (comp_tail d) < 64"
    and "unat (comp_pending d) \<le> 64"
  shows "comp_list (proto_sim_store_completion op st n sq d) = last_n 64 (comp_list d @
      [\<lparr>ce_opcode = op, ce_status = st, ce_length = n, ce_seqno = sq,
        ce_reserved = replicate PROTO_SIM_PAYLOAD_PREVIEW 0\<rparr>])"
proof -
  let ?c = "\<lparr>ce_opcode = op, ce_status = st, ce_length = n, ce_seqno = sq,
        ce_reserved = replicate PROTO_SIM_PAYLOAD_PREVIEW 0\<rparr>"
  let ?e = "proto_sim_store_completion op st n sq d"
  let ?t = "unat (comp_tail d)" and ?p = "unat (comp_pending d)"
  let ?f = "\<lambda>i. comp_ring d ! i" and ?g = "\<lambda>i. ((comp_ring d)[?t := ?c]) ! i"
  have t': "unat (comp_tail ?e) = (?t + 1) mod 64"
    using assms(2) unat_inc_mod[OF assms(3)] by (simp add: proto_sim_store_completion_def Let_def)
  have r': "comp_ring ?e = (comp_ring d)[?t := ?c]"
    by (simp add: proto_sim_store_completion_def Let_def)
  show ?thesis
  proof (cases "?p < 64")
    case True
    then have p': "unat (comp_pending ?e) = Suc ?p"
      using assms(2) by (simp add: proto_sim_store_completion_def Let_def word_less_nat_alt unat_word_ariths)
    have start: "(unat (comp_tail ?e) + 64 - Suc ?p) mod 64 = (?t + 64 - ?p) mod 64"
      using comp_start[OF assms(3) True] by (simp add: t')
    have slot: "((?t + 64 - ?p) mod 64 + ?p) mod 64 = ?t"
      using True assms(3) by (simp add: mod_simps)
    have "ring_list 64 ?g ((?t + 64 - ?p) mod 64) (Suc ?p) = comp_list d @ [?c]"
      unfolding comp_list_def by (rule ring_list_push[OF True]) (use assms(1,3) in \<open>auto simp: slot\<close>)
    moreover have "comp_list ?e = ring_list 64 ?g ((?t + 64 - ?p) mod 64) (Suc ?p)"
      by (simp only: comp_list_def p' start r')
    ultimately show ?thesis using True by (simp add: last_n_short)
  next
    case False
    then have p: "?p = 64" using assms(4) by simp
    then have p': "unat (comp_pending ?e) = 64"
      using assms(2) by (simp add: proto_sim_store_completion_def Let_def word_less_nat_alt)
    have slot: "(Suc ?t mod 64 + 63) mod 64 = ?t"
      using assms(3) by (cases "?t = 63") auto
    have "ring_list 64 ?g ((?t + 1) mod 64) (Suc 63) = ring_list 64 ?f ((?t + 1) mod 64) 63 @ [?c]"
      by (rule ring_list_push) (use assms(1,3) in \<open>auto simp: slot\<close>)
    also have "ring_list 64 ?f ((?t + 1) mod 64) 63 = tl (comp_list d)"
      using ring_list_pop[of 64 ?f ?t 63] assms(3) by (simp add: comp_list_def p)
    finally have "ring_list 64 ?g ((?t + 1) mod 64) 64 = tl (comp_list d) @ [?c]" by simp
    then show ?thesis
      using p by (simp add: last_n_def drop_Suc) (simp add: comp_list_def p' t' r')
  qed
qed

text \<open>The completion of a command with sequence number \<open>s\<close>.\<close>

definition completion_for :: "u32 \<Rightarrow> queued \<Rightarrow> proto_sim_completion_entry" where
  "completion_for s q = (case q of (op, n, bs) \<Rightarrow>
     \<lparr>ce_opcode = op, ce_status = STATUS_READY OR STATUS_DONE, ce_length = n, ce_seqno = s,
      ce_reserved = replicate PROTO_SIM_PAYLOAD_PREVIEW 0\<rparr>)"

lemma process_one_fields:
  assumes "ring_entries d = 64"
  shows "cmd_head (process_one d) = (cmd_head d + 1) mod 64"
    "cmd_tail (process_one d) = cmd_tail d" "next_seqno (process_one d) = next_seqno d"
    "completed_total (process_one d) = completed_total d + 1"
    "cmd_ring (process_one d) = cmd_ring d" "cmd_payloads (process_one d) = cmd_payloads d"
    "simulated (process_one d) = simulated d" "ring_entries (process_one d) = 64"
    "dma_len (process_one d) = dma_len d" "dma_buf (process_one d) \<noteq> None"
    "comp_head (process_one d) = comp_head d" "length (comp_ring (process_one d)) = length (comp_ring d)"
    "comp_tail (process_one d) = (comp_tail d + 1) mod 64"
    "last_status (process_one d) = STATUS_READY OR STATUS_DONE"
    "last_opcode (process_one d) = re_opcode (cmd_ring d ! unat (cmd_head d))"
    "last_length (process_one d) = re_length (cmd_ring d ! unat (cmd_head d))"
    "comp_pending (process_one d) = (if comp_pending d < 64 then comp_pending d + 1 else comp_pending d)"
  using assms by (simp_all add: process_one_def proto_sim_store_completion_def Let_def)

lemma unat_pending_process_one:
  "cmd_pending d \<noteq> 0 \<Longrightarrow> Suc (unat (cmd_pending (process_one d))) = unat (cmd_pending d)"
  using unat_gt_0[of "cmd_pending d"] by (simp add: unat_minus_one)

lemma queue_process_one:
  assumes ok: "ring_ok d" and ne: "cmd_pending d \<noteq> 0"
  shows "queue (process_one d) = tl (queue d)"
proof -
  have "unat (cmd_head (process_one d)) = (unat (cmd_head d) + 1) mod 64"
    using process_one_fields(1)[OF ring_okD(2)[OF ok]] unat_inc_mod[OF ring_okD(8)[OF ok]] by simp
  then show ?thesis
    using ring_list_pop[of 64 "slot_cmd (cmd_ring d) (cmd_payloads d)" "unat (cmd_head d)" "unat (cmd_pending (process_one d))"]
      unat_pending_process_one[OF ne] process_one_fields[OF ring_okD(2)[OF ok]]
    by (simp add: queue_def)
qed

lemma queue_hd:
  assumes ok: "ring_ok d" and ne: "cmd_pending d \<noteq> 0"
  shows "hd (queue d) = slot_cmd (cmd_ring d) (cmd_payloads d) (unat (cmd_head d))"
proof -
  obtain n where "unat (cmd_pending d) = Suc n"
    using ne by (metis old.nat.exhaust unat_eq_zero)
  then show ?thesis using ring_okD(8)[OF ok] by (simp add: queue_def ring_list_hd)
qed

lemma ring_ok_process_one:
  assumes ok: "ring_ok d" and ne: "cmd_pending d \<noteq> 0"
  shows "ring_ok (process_one d)"
proof -
  note D = ring_okD[OF ok]
  note F = process_one_fields[OF D(2)]
  note P = unat_pending_process_one[OF ne]
  let ?h = "unat (cmd_head d)"
  have h: "unat (cmd_head (process_one d)) = (?h + 1) mod 64" using F(1) unat_inc_mod[OF D(8)] by simp
  have slot: "(Suc ?h mod 64 + k) mod 64 = (?h + Suc k) mod 64" for k by (simp add: mod_simps)
  have q: "unat (re_length (cmd_ring (process_one d) ! ((unat (cmd_head (process_one d)) + k) mod 64))) \<le> 256 \<and>
      re_seqno (cmd_ring (process_one d) ! ((unat (cmd_head (process_one d)) + k) mod 64)) =
        completed_total (process_one d) + of_nat k + 1"
    if "k < unat (cmd_pending (process_one d))" for k
  proof -
    have "Suc k < unat (cmd_pending d)" using that P by simp
    moreover have "(unat (cmd_head (process_one d)) + k) mod 64 = (?h + Suc k) mod 64"
      unfolding h using slot[of k] by simp
    ultimately show ?thesis using D(17,18)[of "Suc k"] by (simp only: F(4,5)) simp
  qed
  have p64: "unat (cmd_pending (process_one d)) \<le> 64" using P D(9) by linarith
  have hd64: "unat (cmd_head (process_one d)) < 64" by (simp add: h)
  have cp: "unat (comp_pending (process_one d)) \<le> 64"
    using D(12) F(17) by (auto simp: word_less_nat_alt unat_word_ariths)
  have ct: "unat (comp_tail (process_one d)) = unat (completed_total (process_one d)) mod 64"
    using F(4,13) unat_inc_mod[OF D(15)] unat_inc_total[of "completed_total d"] by (simp add: D(13) mod_simps)
  have tl: "unat (cmd_tail (process_one d)) = (unat (cmd_head (process_one d)) + unat (cmd_pending (process_one d))) mod 64"
  proof -
    have "unat (cmd_tail (process_one d)) = (?h + Suc (unat (cmd_pending (process_one d)))) mod 64"
      using F(2) D(10) by (simp only: P)
    also have "\<dots> = (Suc ?h mod 64 + unat (cmd_pending (process_one d))) mod 64" by (rule slot[symmetric])
    finally show ?thesis by (simp only: h Suc_eq_plus1)
  qed
  have sq: "next_seqno (process_one d) = completed_total (process_one d) + cmd_pending (process_one d) + 1"
    using F(3,4) D(14) by simp
  show ?thesis
    unfolding ring_ok_def Let_def
  proof (intro conjI allI impI)
    fix k assume "k < unat (cmd_pending (process_one d))"
    then show "unat (re_length (cmd_ring (process_one d) ! ((unat (cmd_head (process_one d)) + k) mod 64))) \<le> 256"
      "re_seqno (cmd_ring (process_one d) ! ((unat (cmd_head (process_one d)) + k) mod 64)) =
        completed_total (process_one d) + of_nat k + 1"
      using q by simp_all
  qed (use D(1-7,11) F hd64 p64 tl cp ct sq in simp_all)
qed

text \<open>The buffer the commands are delivered in.\<close>

definition delivered :: "'h ring_dev \<Rightarrow> u8 list" where
  "delivered d = mem_read (the (dma_buf d)) 0 4096"

definition image_of :: "queued \<Rightarrow> u8 list" where
  "image_of q = (case q of (op, n, bs) \<Rightarrow> padded 4096 (take (unat n) bs))"

lemma mem_read_set_write_padded:
  "length bs \<le> n \<Longrightarrow> mem_read (mem_write (mem_set m 0 0 n) 0 bs) 0 n = padded n bs"
  by (rule nth_equalityI) (auto simp: mem_read_def mem_write_def mem_set_eq padded_def nth_append)

lemma take_mem_read: "n \<le> m \<Longrightarrow> take n (mem_read s off m) = mem_read s off n"
  by (simp add: mem_read_def take_map)

lemma process_one_effect:
  assumes ok: "ring_ok d" and ne: "cmd_pending d \<noteq> 0"
  shows "comp_list (process_one d) = last_n 64 (comp_list d @ [completion_for (completed_total d + 1) (hd (queue d))])"
    and "delivered (process_one d) = image_of (hd (queue d))"
    and "last_opcode (process_one d) = fst (hd (queue d))" "last_length (process_one d) = fst (snd (hd (queue d)))"
proof -
  note D = ring_okD[OF ok]
  note F = process_one_fields[OF D(2)]
  let ?r = "cmd_ring d ! unat (cmd_head d)"
  have p: "0 < unat (cmd_pending d)" using ne by (simp add: unat_gt_0)
  have r: "unat (re_length ?r) \<le> 256" "re_seqno ?r = completed_total d + 1"
    using D(17,18)[OF p] D(8) by simp_all
  have "re_length ?r \<le> 4096" using r(1) by (simp add: word_le_nat_alt)
  then have "min (re_length ?r) (ucast (dma_len d)) = re_length ?r" by (simp add: D(7) min_def)
  then have "delivered (process_one d) = padded 4096 (mem_read (the (cmd_payloads d)) (unat (cmd_head d) * 256) (unat (re_length ?r)))"
    using r(1) by (simp add: delivered_def process_one_def proto_sim_store_completion_def Let_def
        D(7) PROTO_PCIE_MAX_PAYLOAD_def mem_read_set_write_padded)
  then show "delivered (process_one d) = image_of (hd (queue d))"
    using r(1) by (simp add: queue_hd[OF ok ne] slot_cmd_def image_of_def take_mem_read)
  show "last_opcode (process_one d) = fst (hd (queue d))" "last_length (process_one d) = fst (snd (hd (queue d)))"
    using F by (simp_all add: queue_hd[OF ok ne] slot_cmd_def)
  let ?d = "d\<lparr>last_status := STATUS_READY OR STATUS_DONE\<rparr>"
  have "comp_list (process_one d) = comp_list (proto_sim_store_completion (re_opcode ?r)
      (STATUS_READY OR STATUS_DONE) (re_length ?r) (re_seqno ?r) d)"
    by (simp add: process_one_def proto_sim_store_completion_def Let_def comp_list_def)
  then show "comp_list (process_one d) = last_n 64 (comp_list d @ [completion_for (completed_total d + 1) (hd (queue d))])"
    using store_completion_list[OF D(4) D(2) D(15) D(12)]
    by (simp add: queue_hd[OF ok ne] slot_cmd_def completion_for_def r(2))
qed

end
