(* ===== verification/Ring_Claims.thy ===== *)
theory Ring_Claims
  imports Ring_Queue
begin

text \<open>
  What the ring driver guarantees: its system of ioctls keeps the invariant of the rings, a batch of
  commands is completed in the order it was sent, and what userspace reads of the rings; and the
  properties the ring driver shares with the two drivers it grew out of.
\<close>

section \<open>Draining\<close>

text \<open>The completions of a queue, numbered from the total before it.\<close>

fun completions_from :: "u32 \<Rightarrow> queued list \<Rightarrow> proto_sim_completion_entry list" where
  "completions_from t [] = []"
| "completions_from t (q # qs) = completion_for (t + 1) q # completions_from (t + 1) qs"

lemma queue_Nil_iff: "queue d = [] \<longleftrightarrow> cmd_pending d = 0"
  by (simp add: unat_eq_zero flip: length_0_conv)

lemma process_pending_effect:
  "ring_ok d \<Longrightarrow> ring_ok (snd (proto_sim_process_pending d)) \<and>
    fst (proto_sim_process_pending d) = ok \<and>
    queue (snd (proto_sim_process_pending d)) = [] \<and>
    comp_list (snd (proto_sim_process_pending d)) =
      last_n 64 (comp_list d @ completions_from (completed_total d) (queue d)) \<and>
    completed_total (snd (proto_sim_process_pending d)) = completed_total d + cmd_pending d \<and>
    delivered (snd (proto_sim_process_pending d)) =
      (if queue d = [] then delivered d else image_of (last (queue d))) \<and>
    last_status (snd (proto_sim_process_pending d)) =
      (if queue d = [] then last_status d else STATUS_READY OR STATUS_DONE)"
proof (induction d rule: proto_sim_process_pending.induct)
  case (1 d)
  show ?case
  proof (cases "cmd_pending d = 0")
    case True
    then have "proto_sim_process_pending d = (ok, d)" "queue d = []"
      by (simp_all add: queue_Nil_iff proto_sim_process_pending.simps[of d])
    then show ?thesis using 1(2) ring_okD(12)[OF 1(2)] True by (simp add: last_n_short)
  next
    case False
    then have gt: "cmd_pending d > 0" by (simp add: word_gt_0)
    note ok' = ring_ok_process_one[OF 1(2) False]
    note IH = 1(1)[OF gt ok']
    note E = process_one_effect[OF 1(2) False] process_one_fields[OF ring_okD(2)[OF 1(2)]]
    have q: "queue d = hd (queue d) # queue (process_one d)"
      using queue_process_one[OF 1(2) False] False queue_Nil_iff[of d] by simp
    have step: "proto_sim_process_pending d = proto_sim_process_pending (process_one d)"
      using gt by (subst proto_sim_process_pending.simps) simp
    have cl: "completions_from (completed_total d) (queue d) =
        completion_for (completed_total d + 1) (hd (queue d)) #
          completions_from (completed_total (process_one d)) (queue (process_one d))"
      by (subst q) (simp add: E(8))
    have la: "last (queue d) = (if queue (process_one d) = [] then hd (queue d) else last (queue (process_one d)))"
      by (subst q) simp
    have ne: "queue d \<noteq> []" using False by (simp add: queue_Nil_iff)
    show ?thesis
      using IH E ne by (simp add: step cl la last_n_last_n)
  qed
qed

section \<open>The command ring is a bounded queue\<close>

definition ring_full_cmd :: "'h ring_dev \<Rightarrow> bool" where
  "ring_full_cmd d \<longleftrightarrow> cmd_pending d \<ge> ring_entries d"

interpretation cmdq: bounded_fifo queue ring_ok 64 queued_of "\<lambda>c d. snd (proto_sim_enqueue_command c d)"
  process_one "\<lambda>d. slot_cmd (cmd_ring d) (cmd_payloads d) (unat (cmd_head d))" ring_full_cmd "\<lambda>d. cmd_pending d = 0"
proof unfold_locales
  fix d :: "'a ring_dev" and c :: proto_pcie_command
  assume ok: "ring_ok d"
  show full: "ring_full_cmd d \<longleftrightarrow> 64 \<le> length (queue d)"
    using enqueue_full_iff[OF ok] ring_okD(9)[OF ok] by (auto simp: ring_full_cmd_def)
  show "cmd_pending d = 0 \<longleftrightarrow> queue d = []" by (simp add: queue_Nil_iff)
  show "\<not> ring_full_cmd d \<Longrightarrow> ring_ok (snd (proto_sim_enqueue_command c d))"
    using ok by (rule ring_ok_enqueue)
  show "\<not> ring_full_cmd d \<Longrightarrow> queue (snd (proto_sim_enqueue_command c d)) = queue d @ [queued_of c]"
    using full by (intro queue_enqueue[OF ok]) simp
  show "\<not> cmd_pending d = 0 \<Longrightarrow> ring_ok (process_one d)" by (rule ring_ok_process_one[OF ok])
  show "\<not> cmd_pending d = 0 \<Longrightarrow> queue (process_one d) = tl (queue d)" by (rule queue_process_one[OF ok])
  show "\<not> cmd_pending d = 0 \<Longrightarrow> slot_cmd (cmd_ring d) (cmd_payloads d) (unat (cmd_head d)) = hd (queue d)"
    using queue_hd[OF ok] by simp
qed

section \<open>The system of ioctls\<close>

definition ring_init :: "'h ring_dev \<Rightarrow> bool" where
  "ring_init d \<longleftrightarrow> (\<exists>env h l. ring_sim_probe env h = (ok, l, Some d))"

inductive ring_step :: "'h mmio \<Rightarrow> 'h ring_dev \<Rightarrow> 'h ring_dev \<Rightarrow> bool" for D :: "'h mmio" where
  ring_step: "ring_step D d (snd (snd (ring_proto_ioctl D u cmd d)))"

inductive_cases ring_stepE: "ring_step D d d'"

lemma clear_rings_ok:
  assumes "simulated d" "ring_entries d = 64" "cmd_ring d \<noteq> []" "comp_ring d \<noteq> []" "cmd_payloads d \<noteq> None"
    "dma_buf d \<noteq> None" "dma_len d = 4096"
  shows "ring_ok (proto_sim_clear_rings d)" "queue (proto_sim_clear_rings d) = []"
    "comp_list (proto_sim_clear_rings d) = []" "delivered (proto_sim_clear_rings d) = delivered d"
    "completed_total (proto_sim_clear_rings d) = 0" "next_seqno (proto_sim_clear_rings d) = 1"
  using assms
  by (auto simp: proto_sim_clear_rings_def Let_def ring_ok_def queue_def comp_list_def delivered_def split: option.split)

lemma ring_ok_probe:
  assumes "ring_sim_probe env h = (ok, l, Some d)"
  shows "ring_ok d"
proof -
  have misc: "ring_ok (x\<lparr>misc_registered := True\<rparr>) = ring_ok x" for x :: "'a ring_dev"
    by (simp add: ring_ok_def Let_def)
  show ?thesis
    using assms
    by (auto simp: ring_sim_probe_def Let_def ring_zeroed_def misc PROTO_PCIE_SIM_RING_ENTRIES_def
        split: if_splits intro!: clear_rings_ok)
qed

lemma ring_reset_effect:
  assumes "ring_ok d"
  shows "ring_ok (ring_finish_reset D d)" "queue (ring_finish_reset D d) = []" "comp_list (ring_finish_reset D d) = []"
    "delivered (ring_finish_reset D d) = replicate 4096 0" "completed_total (ring_finish_reset D d) = 0"
proof -
  note R = ring_okD[OF assms]
  let ?d = "d\<lparr>dma_buf := Some (mem_set (the (dma_buf d)) 0 0 (unat (dma_len d)))\<rparr>"
  have "cmd_ring ?d \<noteq> []" "comp_ring ?d \<noteq> []" using R(3,4) by auto
  then have C: "ring_ok (proto_sim_clear_rings ?d)" "queue (proto_sim_clear_rings ?d) = []"
    "comp_list (proto_sim_clear_rings ?d) = []" "delivered (proto_sim_clear_rings ?d) = delivered ?d"
    "completed_total (proto_sim_clear_rings ?d) = 0"
    using R by (simp_all add: clear_rings_ok)
  have st: "ring_ok (x\<lparr>last_status := s\<rparr>) = ring_ok x" "queue (x\<lparr>last_status := s\<rparr>) = queue x"
    "comp_list (x\<lparr>last_status := s\<rparr>) = comp_list x" "delivered (x\<lparr>last_status := s\<rparr>) = delivered x" for x :: "'a ring_dev" and s
    by (simp_all add: ring_ok_def Let_def queue_def comp_list_def delivered_def)
  show "ring_ok (ring_finish_reset D d)" "queue (ring_finish_reset D d) = []" "comp_list (ring_finish_reset D d) = []"
    "delivered (ring_finish_reset D d) = replicate 4096 0" "completed_total (ring_finish_reset D d) = 0"
    using R(1,7) C by (simp_all add: ring_finish_reset_def st) (simp add: delivered_def)
qed

lemma ring_ok_ioctl: "ring_ok d \<Longrightarrow> ring_ok (snd (snd (ring_proto_ioctl D u cmd d)))"
  using ring_reset_effect(1)[of d D] process_pending_effect[of d] ring_ok_enqueue[of d] ring_okD(1)[of d]
  by (auto simp: ring_proto_ioctl_def Let_def split_def split: option.split)

interpretation ring_sys: inductive_invariant ring_init "ring_step D" ring_ok for D
  by unfold_locales (auto simp: ring_init_def ring_ok_probe ring_ok_ioctl elim!: ring_stepE)

section \<open>A device to evaluate at\<close>

definition wit_renv :: ring_probe_env where
  "wit_renv = \<lparr>rp_kzalloc = True, rp_buf = True, rp_cmd_ring = True, rp_comp_ring = True, rp_payloads = True, rp_misc = 0\<rparr>"

definition wit_ring :: "access list ring_dev" where
  "wit_ring = the (snd (snd (ring_sim_probe wit_renv [])))"

definition wit_rdev :: "access list mmio" where
  "wit_rdev = log_mmio (\<lambda>_. 1)"

definition wit_cmd :: "u32 \<Rightarrow> proto_pcie_command" where
  "wit_cmd n = \<lparr>cmd_opcode = 9, cmd_length = n, cmd_payload = replicate 256 7\<rparr>"

lemma wit_ring_init: "ring_init wit_ring"
proof -
  have "\<exists>l d. ring_sim_probe wit_renv [] = (ok, l, Some (d :: access list ring_dev))"
    by (simp add: ring_sim_probe_def wit_renv_def Let_def PROTO_PCIE_SIM_RING_ENTRIES_def)
  then obtain l d where e: "ring_sim_probe wit_renv [] = (ok, l, Some (d :: access list ring_dev))" by blast
  then have "wit_ring = d" by (simp add: wit_ring_def)
  then show ?thesis unfolding ring_init_def using e by blast
qed

lemma wit_ring_reach [simp]: "reach ring_init (ring_step D) wit_ring"
  by (rule reach_init[where init = ring_init, OF wit_ring_init])

lemma wit_ring_ok [simp]: "ring_ok wit_ring"
  by (rule ring_sys.reach_inv[OF wit_ring_reach])

lemma wit_ring_empty [simp]:
  "cmd_pending wit_ring = 0" "comp_pending wit_ring = 0" "completed_total wit_ring = 0" "cmd_tail wit_ring = 0"
  by (simp_all add: wit_ring_def ring_sim_probe_def wit_renv_def proto_sim_clear_rings_def Let_def
      PROTO_PCIE_SIM_RING_ENTRIES_def)

lemma wit_ring_lists [simp]: "queue wit_ring = []" "comp_list wit_ring = []"
  by (simp_all add: queue_Nil_iff comp_list_def)

section \<open>Batches of commands\<close>

definition sending :: "proto_pcie_command \<Rightarrow> proto_user" where
  "sending c = \<lparr>pu_cmd = Some c, pu_writable = True\<rparr>"

text \<open>The ioctls of a client that sends a batch.\<close>

definition send_all :: "'h mmio \<Rightarrow> proto_pcie_command list \<Rightarrow> 'h ring_dev \<Rightarrow> 'h ring_dev" where
  "send_all D cs d = fold (\<lambda>c d. snd (snd (ring_proto_ioctl D (sending c) PROTO_PCIE_IOC_SEND_CMD d))) cs d"

lemma ring_ioctl_send:
  "simulated d \<Longrightarrow> ring_proto_ioctl D (sending c) PROTO_PCIE_IOC_SEND_CMD d =
    (fst (proto_sim_enqueue_command c d), PoutNone, snd (proto_sim_enqueue_command c d))"
  by (simp add: ring_proto_ioctl_def proto_ioc_values ring_ioc_values sending_def split_def Let_def IOC_TYPE_def
      PROTO_PCIE_IOC_MAGIC_def)

lemma ring_ioctl_process:
  "simulated d \<Longrightarrow> ring_proto_ioctl D u PROTO_PCIE_IOC_PROCESS_PENDING d =
    (fst (proto_sim_process_pending d), PoutNone, snd (proto_sim_process_pending d))"
  by (simp add: ring_proto_ioctl_def proto_ioc_values ring_ioc_values split_def Let_def IOC_TYPE_def
      PROTO_PCIE_IOC_MAGIC_def)

lemma enqueue_same [simp]:
  "completed_total (snd (proto_sim_enqueue_command c d)) = completed_total d"
  "comp_list (snd (proto_sim_enqueue_command c d)) = comp_list d"
  "delivered (snd (proto_sim_enqueue_command c d)) = delivered d"
  by (simp_all add: proto_sim_enqueue_command_def comp_list_def delivered_def Let_def)

lemma fold_enqueue_same [simp]:
  "comp_list (fold (\<lambda>c d. snd (proto_sim_enqueue_command c d)) cs d) = comp_list d"
  "completed_total (fold (\<lambda>c d. snd (proto_sim_enqueue_command c d)) cs d) = completed_total d"
  by (induction cs arbitrary: d) simp_all

lemma send_all_fold:
  "ring_ok d \<Longrightarrow> send_all D cs d = fold (\<lambda>c d. snd (proto_sim_enqueue_command c d)) cs d"
proof (induction cs arbitrary: d)
  case Nil
  then show ?case by (simp add: send_all_def)
next
  case (Cons c cs)
  then show ?case
    using Cons.IH[OF ring_ok_enqueue[OF Cons.prems, of c]] ring_okD(1)[OF Cons.prems]
    by (simp add: send_all_def ring_ioctl_send)
qed

lemma send_all_effect:
  assumes ok: "ring_ok d" and "queue d = []" and "length cs \<le> 64"
  shows "ring_ok (send_all D cs d)" "queue (send_all D cs d) = map queued_of cs"
    "comp_list (send_all D cs d) = comp_list d" "completed_total (send_all D cs d) = completed_total d"
  using cmdq.push_all[OF ok, of cs] send_all_fold[OF ok, of D cs] assms(2,3)
  by (simp_all flip: length_queue)

lemma length_completions_from [simp]: "length (completions_from t qs) = length qs"
  by (induction qs arbitrary: t) simp_all

text \<open>C8. A batch of at most 64 commands sent to an empty ring is completed in the order it was sent:
  after \<open>PROCESS_PENDING\<close> nothing is pending, the completion ring holds the last 64 of the earlier
  completions followed by those of the batch, each with its command's opcode and clamped length and
  the next sequence number, and the buffer holds the last command's payload, zero-padded.\<close>

theorem commands_complete_in_order:
  assumes "reach ring_init (ring_step D) d" and "queue d = []" and "length cs \<le> 64"
  shows "let r = ring_proto_ioctl D u PROTO_PCIE_IOC_PROCESS_PENDING (send_all D cs d); e = snd (snd r) in
    fst r = ok \<and> queue e = [] \<and>
    comp_list e = last_n 64 (comp_list d @ completions_from (completed_total d) (map queued_of cs)) \<and>
    (if cs = [] then True else delivered e = image_of (queued_of (last cs)))"
proof -
  have ok: "ring_ok d" using assms(1) by (rule ring_sys.reach_inv)
  note S = send_all_effect[OF ok assms(2,3), of D]
  show ?thesis
    using process_pending_effect[OF S(1)] S ring_okD(1)[OF S(1)]
    by (simp add: Let_def ring_ioctl_process last_map)
qed

theorem commands_complete_in_order_witness:
  "comp_list (snd (snd (ring_proto_ioctl wit_rdev (sending (wit_cmd 3)) PROTO_PCIE_IOC_PROCESS_PENDING
      (send_all wit_rdev [wit_cmd 3, wit_cmd 300] wit_ring)))) =
    [completion_for 1 (queued_of (wit_cmd 3)), completion_for 2 (queued_of (wit_cmd 300))]"
  using commands_complete_in_order[OF wit_ring_reach, of "[wit_cmd 3, wit_cmd 300]" wit_rdev "sending (wit_cmd 3)"]
  by (simp add: Let_def last_n_short)

text \<open>\<open>SEND_CMD\<close> on the simulated device queues the command behind those pending while there are
  fewer than 64 of them; with 64 it answers \<open>ENOSPC\<close> and changes nothing.\<close>

lemma send_cmd_bounded:
  assumes "reach ring_init (ring_step D) d"
  shows "ring_proto_ioctl D (sending c) PROTO_PCIE_IOC_SEND_CMD d =
      (if length (queue d) < 64 then (ok, PoutNone, snd (proto_sim_enqueue_command c d)) else (Inl ENOSPC, PoutNone, d)) \<and>
    (if length (queue d) < 64 then queue (snd (proto_sim_enqueue_command c d)) = queue d @ [queued_of c] else True)"
proof -
  have ok: "ring_ok d" using assms by (rule ring_sys.reach_inv)
  show ?thesis
  proof (cases "unat (cmd_pending d) < 64")
    case True
    then show ?thesis using queue_enqueue[OF ok True] enqueue_fields(8)[OF ok True]
      by (simp add: ring_ioctl_send ring_okD(1)[OF ok])
  next
    case False
    then have "proto_sim_enqueue_command c d = (Inl ENOSPC, d)"
      using enqueue_full_iff[OF ok] ring_okD(9)[OF ok] by (simp add: proto_sim_enqueue_command_def)
    then show ?thesis using False by (simp add: ring_ioctl_send ring_okD(1)[OF ok])
  qed
qed

text \<open>C31. What \<open>GET_RING_STATE\<close> reports is consistent in every reachable state: the tail is the head
  plus the pending commands modulo 64, at most 64 are pending, the completion tail is the total of
  completions modulo 64, and the next sequence number counts the completed and the pending.\<close>

theorem ring_state_consistent:
  assumes "reach ring_init (ring_step D) d" and "pu_writable u"
  shows "let s = proto_sim_get_ring_state d in
    ring_proto_ioctl D u PROTO_PCIE_IOC_GET_RING_STATE d = (ok, PoutRing s, d) \<and>
    unat (rs_cmd_tail s) = (unat (rs_cmd_head s) + unat (rs_cmd_pending s)) mod 64 \<and>
    unat (rs_cmd_pending s) \<le> 64 \<and> unat (rs_comp_pending s) \<le> 64 \<and>
    unat (rs_comp_tail s) = unat (rs_completed_total s) mod 64 \<and>
    rs_next_seqno s = rs_completed_total s + rs_cmd_pending s + 1"
proof -
  have ok: "ring_ok d" using assms(1) by (rule ring_sys.reach_inv)
  then show ?thesis
    using ring_okD[OF ok] assms(2)
    by (simp add: Let_def proto_sim_get_ring_state_def ring_proto_ioctl_def proto_ioc_values ring_ioc_values
        IOC_TYPE_def PROTO_PCIE_IOC_MAGIC_def reply_def)
qed

theorem ring_state_consistent_witness:
  "rs_next_seqno (proto_sim_get_ring_state wit_ring) = 1"
  using ring_state_consistent[OF wit_ring_reach, of "sending (wit_cmd 3)" wit_rdev]
  by (simp add: Let_def sending_def) (simp add: proto_sim_get_ring_state_def)

text \<open>Once the completion ring is full its head is stale: the oldest completion it still holds is
  at the tail, the newest just before it, and \<open>comp_head\<close> is 0 in every reachable state, so reading
  from the reported head gives the completions rotated by the tail.\<close>

lemma comp_head_is_stale:
  assumes "reach ring_init (ring_step D) d" and "unat (comp_pending d) = 64"
  shows "rs_comp_head (proto_sim_get_ring_state d) = 0 \<and>
    comp_list d = drop (unat (comp_tail d)) (comp_ring d) @ take (unat (comp_tail d)) (comp_ring d)"
proof -
  have ok: "ring_ok d" using assms(1) by (rule ring_sys.reach_inv)
  note R = ring_okD[OF ok]
  let ?t = "unat (comp_tail d)"
  have "comp_list d = drop ?t (comp_ring d) @ take ?t (comp_ring d)"
  proof (rule nth_equalityI)
    show "length (comp_list d) = length (drop ?t (comp_ring d) @ take ?t (comp_ring d))"
      using R(4,15) assms(2) by simp
    fix i assume "i < length (comp_list d)"
    then show "comp_list d ! i = (drop ?t (comp_ring d) @ take ?t (comp_ring d)) ! i"
      using R(4,15) assms(2) by (auto simp: comp_list_def ring_list_nth nth_append mod_if add.commute)
  qed
  then show ?thesis using R(11) by (simp add: proto_sim_get_ring_state_def)
qed

end
