(* ===== verification/Proto_Claims.thy ===== *)
theory Proto_Claims
  imports Ring_Claims
begin

text \<open>
  What the three \<open>proto_pcie\<close> drivers have in common: the hardware path, the checksum of a queued
  command, the life cycle of the device and the length they keep of the buffer, which the reset and
  the teardown take for its size.
\<close>

section \<open>The hardware path\<close>

lemma ring_ioctl_hw:
  assumes "\<not> simulated d" and "dma_buf d \<noteq> None" and "ring_entries d = 64" and "ring_entry_size d = 64"
    and "cmd \<noteq> PROTO_PCIE_IOC_PROCESS_PENDING" and "cmd \<noteq> PROTO_PCIE_IOC_GET_RING_STATE"
  shows "ring_proto_ioctl D u cmd d = base_proto_ioctl D u cmd d"
  using assms
  by (simp add: ring_proto_ioctl_def base_proto_ioctl_def ring_reset_hw ring_hw_send_base cong: option.case_cong)

text \<open>C33. On hardware the three drivers are one: whatever the device answers, the simulated and the
  ring driver return from every ioctl of the basic driver what it returns, and leave the device and
  their common state as it does; so do their interrupt handlers.\<close>

theorem drivers_agree_on_hardware:
  assumes "\<not> simulated d" and "\<not> simulated d'" and "dma_buf d' \<noteq> None"
    and "ring_entries d' = 64" and "ring_entry_size d' = 64"
    and "cmd \<noteq> PROTO_PCIE_IOC_PROCESS_PENDING" and "cmd \<noteq> PROTO_PCIE_IOC_GET_RING_STATE"
  shows "sim_proto_ioctl D u cmd d = base_proto_ioctl D u cmd d \<and>
    ring_proto_ioctl D u cmd d' = base_proto_ioctl D u cmd d' \<and>
    sim_proto_irq_handler D d = proto_irq_handler D d \<and>
    ring_irq_handler D d' = proto_irq_handler D d'"
  using assms by (simp add: sim_ioctl_hw ring_ioctl_hw sim_irq_hw ring_irq_hw)

definition wit_hw_ring :: "access list ring_dev" where
  "wit_hw_ring = (ring_zeroed [])\<lparr>dma_buf := Some (\<lambda>_. 0), ring_entries := 64, ring_entry_size := 64\<rparr>"

theorem drivers_agree_on_hardware_witness:
  "ring_proto_ioctl wit_rdev (sending (wit_cmd 3)) PROTO_PCIE_IOC_RESET wit_hw_ring =
    base_proto_ioctl wit_rdev (sending (wit_cmd 3)) PROTO_PCIE_IOC_RESET wit_hw_ring"
  by (rule drivers_agree_on_hardware[of "sim_zeroed []", THEN conjunct2, THEN conjunct1])
    (simp_all add: wit_hw_ring_def ring_zeroed_def sim_zeroed_def proto_ioc_values ring_ioc_values)

section \<open>The checksum\<close>

lemma checksum_loop_sum:
  "i \<le> len \<Longrightarrow> unat len \<le> length buf \<Longrightarrow>
    checksum_loop buf len i s = s + of_nat (\<Sum>b\<leftarrow>take (unat len - unat i) (drop (unat i) buf). unat b)"
proof (induction buf len i s rule: checksum_loop.induct)
  case (1 buf len i s)
  show ?case
  proof (cases "i < len")
    case True
    note n = unat_plus_1[OF True]
    have lt: "unat i < unat len" using True by (simp add: word_less_nat_alt)
    have "take (unat len - unat i) (drop (unat i) buf) =
        buf ! unat i # take (unat len - unat (i + 1)) (drop (unat (i + 1)) buf)"
      using lt 1(3) by (simp add: n Cons_nth_drop_Suc[symmetric] take_Cons' )
    moreover have "ucast (buf ! unat i) = (of_nat (unat (buf ! unat i)) :: u32)" by simp
    ultimately show ?thesis
      using 1 True n lt by (subst checksum_loop.simps) (simp add: word_le_nat_alt add.assoc)
  next
    case False
    then have "i = len" using 1(2) by simp
    then show ?thesis by (subst checksum_loop.simps) simp
  qed
qed

lemma sum_bytes_le: "(\<Sum>b\<leftarrow>bs. unat (b :: u8)) \<le> 255 * length bs"
proof (induction bs)
  case (Cons b bs)
  have "unat b < 256" using unsigned_less[of b, where 'a = nat] by simp
  then show ?case using Cons by simp
qed simp

lemma proto_checksum_sum:
  assumes "unat len \<le> length buf" and "unat len \<le> 256"
  shows "unat (proto_checksum buf len) = (\<Sum>b\<leftarrow>take (unat len) buf. unat b)"
proof -
  have "(\<Sum>b\<leftarrow>take (unat len) buf. unat b) \<le> 255 * 256"
    using sum_bytes_le[of "take (unat len) buf"] assms by simp
  then show ?thesis
    using checksum_loop_sum[of 0 len buf 0] assms(1) by (simp add: proto_checksum_def unat_of_nat)
qed

lemma padded_replicate: "padded n bs = take n bs @ replicate (n - length bs) 0"
  by (simp add: padded_def)

text \<open>The entry of a queued command describes the bytes of its slot: the checksum is their sum,
  which does not wrap, the length says how many are the caller's, the rest of the slot is zero, and
  the preview is its first 48 bytes.\<close>

lemma entry_describes_slot:
  assumes "reach ring_init (ring_step D) d" and "unat (cmd_pending d) < 64" and "command_wf c"
  shows "let e = snd (proto_sim_enqueue_command c d); i = unat (cmd_tail d); r = cmd_ring e ! i;
             slot = mem_read (the (cmd_payloads e)) (i * 256) 256
    in unat (re_checksum r) = (\<Sum>b\<leftarrow>slot. unat b) \<and> re_preview r = take 48 slot \<and>
       slot = take (unat (re_length r)) (cmd_payload c) @ replicate (256 - unat (re_length r)) 0"
proof -
  have ok: "ring_ok d" using assms(1) by (rule ring_sys.reach_inv)
  note R = ring_okD[OF ok]
  let ?e = "snd (proto_sim_enqueue_command c d)" and ?i = "unat (cmd_tail d)" and ?n = "unat (clamp_len c)"
  have n: "?n \<le> 256" by (rule clamp_len_le)
  have pl: "length (cmd_payload c) = 256" using assms(3) by (simp add: command_wf_def PROTO_PCIE_MAX_PAYLOAD_def)
  have r: "re_length (cmd_ring ?e ! ?i) = clamp_len c"
    "re_checksum (cmd_ring ?e ! ?i) = proto_checksum (cmd_payload c) (clamp_len c)"
    "re_preview (cmd_ring ?e ! ?i) = padded 48 (take (min ?n 48) (cmd_payload c))"
    using enqueue_full_iff[OF ok] assms(2) R(3,16)
    by (simp_all add: proto_sim_enqueue_command_def Let_def PROTO_SIM_PAYLOAD_PREVIEW_def min_def word_le_nat_alt)
  have slot: "mem_read (the (cmd_payloads ?e)) (?i * 256) 256 = take ?n (cmd_payload c) @ replicate (256 - ?n) 0"
    using enqueue_cmd_ring(2)[OF ok assms(2), of c] n pl by (simp add: mem_read_padded padded_replicate)
  have "unat (proto_checksum (cmd_payload c) (clamp_len c)) = (\<Sum>b\<leftarrow>take ?n (cmd_payload c). unat b)"
    using proto_checksum_sum[of "clamp_len c" "cmd_payload c"] n pl by simp
  moreover have "padded 48 (take (min ?n 48) (cmd_payload c)) = take 48 (take ?n (cmd_payload c) @ replicate (256 - ?n) 0)"
    using n pl by (auto simp: padded_replicate min_def)
  ultimately show ?thesis by (simp add: Let_def r slot sum_list_replicate)
qed

section \<open>The length of the buffer\<close>

text \<open>A reset of the simulated device clears only as many bytes as the last command had: the
  bytes of an earlier, longer command behind them are still in the buffer.\<close>

lemma sim_reset_leaves_bytes:
  assumes "simulated d" and "command_wf c1" and "command_wf c2"
    and "unat (clamp_len c2) \<le> a" and "a < unat (clamp_len c1)"
  shows "the (dma_buf (sim_finish_reset D (sim_submit_command D c2 (sim_submit_command D c1 d)))) a = cmd_payload c1 ! a"
proof -
  have len: "length (take (unat (clamp_len c)) (cmd_payload c)) = unat (clamp_len c)" if "command_wf c" for c
    using that clamp_len_le[of c] by (simp add: command_wf_def PROTO_PCIE_MAX_PAYLOAD_def)
  have one: "the (dma_buf (sim_submit_command D c1 d)) a = cmd_payload c1 ! a"
    using assms(5) len[OF assms(2)] by (auto simp: sim_submit_command_def Let_def mem_write_def assms(1) word_gt_0)
  have two: "the (dma_buf (sim_submit_command D c2 x)) a = the (dma_buf x) a" if "simulated x" for x :: "('a, 'b) sim_dev_scheme"
    using assms(4) len[OF assms(3)] that by (simp add: sim_submit_command_def Let_def mem_write_outside)
  have keep: "simulated (sim_submit_command D c x)" "dma_len (sim_submit_command D c x) = ucast (clamp_len c)"
    if "simulated x" for c and x :: "('a, 'b) sim_dev_scheme"
    using that by (simp_all add: sim_submit_command_def Let_def)
  have "unat (ucast (clamp_len c2) :: u64) = unat (clamp_len c2)" by simp
  then show ?thesis
    using one two keep assms(1,4) by (simp add: sim_finish_reset_def mem_set_eq)
qed

text \<open>What a successful hardware probe leaves, for both drivers: eight resources and the flags that
  say so.\<close>

definition hw_resources :: "proto_res rop list" where
  "hw_resources = [Acquire P_dev, Acquire P_enable, Acquire P_regions, Acquire P_iomap, Acquire (P_dma 4096),
     Acquire P_vectors, Acquire P_irq, Acquire P_misc]"

definition hw_ready :: "u32 \<Rightarrow> ('h, 'x) sim_dev_scheme \<Rightarrow> bool" where
  "hw_ready irq d \<longleftrightarrow> has_pdev d \<and> \<not> simulated d \<and> misc_registered d \<and> device_enabled d \<and> regions_requested d \<and>
     bar_mapped d \<and> irq_vectors_allocated d \<and> irq_requested d \<and> irq_no d = irq \<and> dma_buf d \<noteq> None"

lemma sim_pci_probe_ok:
  "sim_pci_probe env h = (ok, l, Some d) \<Longrightarrow> l = hw_resources \<and> hw_ready (pp_irq env) d \<and> dma_len d = 4096"
  by (auto simp: sim_pci_probe_def Let_def hw_resources_def hw_ready_def sim_zeroed_def split: if_splits)

lemma ring_pci_probe_ok:
  "ring_pci_probe env h = (ok, l, Some d) \<Longrightarrow> l = hw_resources \<and> hw_ready (pp_irq env) d \<and> dma_len d = 4096 \<and>
    cmd_ring d = [] \<and> comp_ring d = [] \<and> cmd_payloads d = None"
  by (auto simp: ring_pci_probe_def Let_def hw_resources_def hw_ready_def ring_zeroed_def split: if_splits)

lemma hw_ready_send:
  "hw_ready irq d \<Longrightarrow> hw_ready irq (base_send_cmd D c d) \<and> dma_len (base_send_cmd D c d) = ucast (clamp_len c)"
  by (simp add: hw_ready_def base_send_cmd_def proto_mmio split_def Let_def)

lemma ring_send_frame:
  "cmd_ring (base_send_cmd D c d) = cmd_ring d" "comp_ring (base_send_cmd D c d) = comp_ring d"
  "cmd_payloads (base_send_cmd D c d) = cmd_payloads d"
  by (simp_all add: base_send_cmd_def proto_mmio split_def Let_def)

lemma sim_teardown:
  "hw_ready irq d \<Longrightarrow> sint irq > 0 \<Longrightarrow> holds [] (hw_resources @ sim_pci_remove (Some d)) = (if dma_len d = 4096 then Some [] else None)"
  by (auto simp: hw_ready_def hw_resources_def sim_pci_remove_def sim_destroy_device_def when_held_def dma_release_def)

lemma ring_teardown:
  "hw_ready irq d \<Longrightarrow> sint irq > 0 \<Longrightarrow> cmd_ring d = [] \<Longrightarrow> comp_ring d = [] \<Longrightarrow> cmd_payloads d = None \<Longrightarrow>
    holds [] (hw_resources @ ring_pci_remove (Some d)) = (if dma_len d = 4096 then Some [] else None)"
  by (auto simp: hw_ready_def hw_resources_def ring_pci_remove_def ring_destroy_device_def when_held_def dma_release_def)

text \<open>C39. The teardown of the hardware device frees the coherent buffer with the length of the last
  command: right after a successful probe everything is given back, but after any command has been
  sent the buffer is freed with a size it was not allocated with.\<close>

theorem teardown_frees_wrong_size:
  assumes "sim_pci_probe env h = (ok, l, Some d)" and "ring_pci_probe env h = (ok, l', Some d')"
    and "sint (pp_irq env) > 0"
  shows "holds [] (l @ sim_pci_remove (Some d)) = Some [] \<and>
    holds [] (l @ sim_pci_remove (Some (sim_submit_command D c d))) = None \<and>
    holds [] (l' @ ring_pci_remove (Some d')) = Some [] \<and>
    holds [] (l' @ ring_pci_remove (Some (ring_hw_send D c d'))) = None"
proof -
  have ne: "(ucast (clamp_len c) :: u64) \<noteq> 4096"
  proof
    assume "(ucast (clamp_len c) :: u64) = 4096"
    then have "unat (ucast (clamp_len c) :: u64) = 4096" by simp
    then show False using clamp_len_le[of c] by simp
  qed
  note S = sim_pci_probe_ok[OF assms(1)] and R = ring_pci_probe_ok[OF assms(2)]
  have s: "sim_submit_command D c d = base_send_cmd D c d" using S by (simp add: sim_submit_hw hw_ready_def)
  have r: "ring_hw_send D c d' = base_send_cmd D c d'" using R by (intro ring_hw_send_base) (simp add: hw_ready_def)
  show ?thesis
    using S R assms(3) ne hw_ready_send[of "pp_irq env" d D c] hw_ready_send[of "pp_irq env" d' D c]
    by (simp add: s r sim_teardown[of "pp_irq env"] ring_teardown[of "pp_irq env"] ring_send_frame)
qed

definition wit_penv :: pci_probe_env where
  "wit_penv = \<lparr>pp_kzalloc = True, pp_enable = 0, pp_regions = 0, pp_bar_len = 0x1000, pp_iomap = True,
     pp_mask64 = 0, pp_mask32 = 0, pp_dma = True, pp_handle = 0x1000, pp_vectors = 1, pp_irq = 24,
     pp_request_irq = 0, pp_misc = 0\<rparr>"

theorem teardown_frees_wrong_size_witness:
  "\<exists>l d. sim_pci_probe wit_penv [] = (ok, l, Some d) \<and>
    holds [] (l @ sim_pci_remove (Some (sim_submit_command wit_rdev (wit_cmd 3) d))) = None"
proof -
  have "\<exists>l d. sim_pci_probe wit_penv [] = (ok, l, Some (d :: access list sim_dev))"
    by (simp add: sim_pci_probe_def wit_penv_def Let_def)
  moreover have "\<exists>l d. ring_pci_probe wit_penv [] = (ok, l, Some (d :: access list ring_dev))"
    by (simp add: ring_pci_probe_def wit_penv_def Let_def)
  moreover have "sint (pp_irq wit_penv) > 0" by (simp add: wit_penv_def)
  ultimately show ?thesis using teardown_frees_wrong_size[of wit_penv "[]"] by blast
qed

section \<open>Failing probes\<close>

text \<open>C40. A failing probe of the simulated or the ring driver, on hardware or simulated, leaves no
  device and nothing acquired; on hardware it gives back in reverse order.\<close>

theorem proto_probes_unwind:
  assumes "sint (pp_irq env) > 0"
  shows "(if fst (sim_pci_probe env h) = ok then True
      else lifo [] (fst (snd (sim_pci_probe env h))) = Some [] \<and> snd (snd (sim_pci_probe env h)) = None) \<and>
    (if fst (ring_pci_probe env h) = ok then True
      else lifo [] (fst (snd (ring_pci_probe env h))) = Some [] \<and> snd (snd (ring_pci_probe env h)) = None) \<and>
    (if fst (sim_sim_probe senv h) = ok then True
      else holds [] (fst (snd (sim_sim_probe senv h))) = Some [] \<and> snd (snd (sim_sim_probe senv h)) = None) \<and>
    (if fst (ring_sim_probe renv h) = ok then True
      else holds [] (fst (snd (ring_sim_probe renv h))) = Some [] \<and> snd (snd (ring_sim_probe renv h)) = None)"
proof -
  have "snd (snd (sim_pci_probe env h)) = None" if "fst (sim_pci_probe env h) \<noteq> ok"
    using that by (auto simp: sim_pci_probe_def Let_def)
  then show ?thesis
    using sim_pci_probe_fail[of env h] ring_pci_probe_fail[of env h] sim_sim_probe_fail[of senv h]
      ring_sim_probe_fail[of renv h] assms
    by auto
qed

theorem proto_probes_unwind_witness:
  "lifo [] (fst (snd (sim_pci_probe (wit_penv\<lparr>pp_misc := -12\<rparr>) ([] :: access list)))) = Some []"
proof -
  have "sint (pp_irq (wit_penv\<lparr>pp_misc := -12\<rparr>)) > 0" by (simp add: wit_penv_def)
  from proto_probes_unwind[OF this, THEN conjunct1, of "[] :: access list"]
  have "if fst (sim_pci_probe (wit_penv\<lparr>pp_misc := -12\<rparr>) ([] :: access list)) = ok then True
      else lifo [] (fst (snd (sim_pci_probe (wit_penv\<lparr>pp_misc := -12\<rparr>) ([] :: access list)))) = Some [] \<and>
        snd (snd (sim_pci_probe (wit_penv\<lparr>pp_misc := -12\<rparr>) ([] :: access list))) = None" .
  moreover have "fst (sim_pci_probe (wit_penv\<lparr>pp_misc := -12\<rparr>) ([] :: access list)) \<noteq> ok"
    by (simp add: wit_penv_def sim_pci_probe_def Let_def)
  ultimately show ?thesis by (simp only: if_False simp_thms)
qed

end
