(* ===== verification/Qemu_Device.thy ===== *)
theory Qemu_Device
  imports Proto_Base
begin

text \<open>
  The device model, \<open>pcie_prototype_async/qemu/proto_pcie_device.c\<close>: its registers, its completion
  timer and its interrupt line; the contract the basic driver relies on, as a locale with the
  driver's lemmas, and its interpretation on this device; and the basic driver on top of it.
\<close>

section \<open>The device\<close>

text \<open>
  \<open>q_irq\<close> is the level \<open>pci_set_irq\<close> set, \<open>q_timer\<close> the deadline \<open>timer_mod\<close> set, none before the
  first one and after the timer has fired or been freed.
\<close>

record proto_pcie_state =
  q_status :: u32
  q_last_opcode :: u32
  q_last_length :: u32
  q_dma_addr :: u64
  q_dma_len :: u32
  q_irq :: bool
  q_timer :: "nat option"

definition proto_pcie_raise_irq :: "proto_pcie_state \<Rightarrow> proto_pcie_state" where
  "proto_pcie_raise_irq s = s\<lparr>q_irq := True\<rparr>"

definition proto_pcie_lower_irq :: "proto_pcie_state \<Rightarrow> proto_pcie_state" where
  "proto_pcie_lower_irq s = s\<lparr>q_irq := False\<rparr>"

definition proto_pcie_complete :: "proto_pcie_state \<Rightarrow> proto_pcie_state" where
  "proto_pcie_complete s = proto_pcie_raise_irq (s\<lparr>q_status := STATUS_READY OR STATUS_DONE\<rparr>)"

definition proto_pcie_mmio_read :: "proto_pcie_state \<Rightarrow> u64 \<Rightarrow> u64" where
  "proto_pcie_mmio_read s addr =
     (if addr = ucast REG_STATUS then ucast (q_status s)
      else if addr = ucast REG_VERSION then 0x00010000
      else 0)"

text \<open>\<open>now\<close> is the answer of \<open>qemu_clock_get_ms\<close>; assignments to 32-bit fields truncate.\<close>

definition proto_pcie_mmio_write :: "nat \<Rightarrow> proto_pcie_state \<Rightarrow> u64 \<Rightarrow> u64 \<Rightarrow> proto_pcie_state" where
  "proto_pcie_mmio_write now s addr v =
     (if addr = ucast REG_CTRL then
        let s = (if v AND ucast CTRL_RESET \<noteq> 0 then proto_pcie_lower_irq (s\<lparr>q_status := STATUS_READY\<rparr>) else s)
        in if v AND ucast CTRL_START \<noteq> 0
           then s\<lparr>q_status := STATUS_READY, q_timer := Some (now + 25)\<rparr>
           else s
      else if addr = ucast REG_DOORBELL then s\<lparr>q_last_opcode := ucast v\<rparr>
      else if addr = ucast REG_DMA_LEN then s\<lparr>q_dma_len := ucast v\<rparr>
      else s)"

text \<open>The state \<open>realize\<close> leaves of a zeroed object, and \<open>exit\<close>.\<close>

definition proto_pcie_realize :: proto_pcie_state where
  "proto_pcie_realize = \<lparr>q_status = STATUS_READY, q_last_opcode = 0, q_last_length = 0, q_dma_addr = 0,
     q_dma_len = 0, q_irq = False, q_timer = None\<rparr>"

definition proto_pcie_exit :: "proto_pcie_state \<Rightarrow> proto_pcie_state" where
  "proto_pcie_exit s = s\<lparr>q_timer := None\<rparr>"

text \<open>
  The device in the machine: the virtual clock in milliseconds and the state. A one-shot timer
  whose deadline has passed runs its callback once; \<open>proto_pcie_complete\<close> does not read the clock,
  so when exactly in a sleep it runs makes no difference to the sleeper.
\<close>

type_synonym machine = "nat \<times> proto_pcie_state"

definition run_timer :: "machine \<Rightarrow> machine" where
  "run_timer m = (case m of (now, s) \<Rightarrow>
     (now, (case q_timer s of
              None \<Rightarrow> s
            | Some t \<Rightarrow> if t \<le> now then proto_pcie_complete (s\<lparr>q_timer := None\<rparr>) else s)))"

definition qemu_mmio :: "machine mmio" where
  "qemu_mmio = \<lparr>
     io_readl = (\<lambda>m r. (ucast (proto_pcie_mmio_read (snd m) (ucast r)), m)),
     io_writel = (\<lambda>m r v. (fst m, proto_pcie_mmio_write (fst m) (snd m) (ucast r) (ucast v))),
     io_writeq = (\<lambda>m r v. m),
     io_msleep = (\<lambda>m n. run_timer (fst m + n, snd m))\<rparr>"

text \<open>Eight-byte accesses are not valid for this region (\<open>max_access_size\<close> 4): no driver of this
  device makes one.\<close>

lemma qemu_addr [simp]:
  "ucast REG_CTRL = (0 :: u64)" "ucast REG_STATUS = (4 :: u64)" "ucast REG_DOORBELL = (8 :: u64)"
  "ucast REG_IRQ_ACK = (12 :: u64)" "ucast REG_DMA_LO = (16 :: u64)" "ucast REG_DMA_HI = (20 :: u64)"
  "ucast REG_DMA_LEN = (24 :: u64)" "ucast REG_VERSION = (28 :: u64)"
  "ucast CTRL_RESET = (1 :: u64)" "ucast CTRL_START = (2 :: u64)"
  by (simp_all add: proto_regs proto_bits)

lemma ucast_32_64_32 [simp]: "ucast (ucast (w :: u32) :: u64) = w"
  by (rule bit_word_eqI) (simp add: bit_simps)

lemma qemu_read_status [simp]:
  "io_readl qemu_mmio m REG_STATUS = (q_status (snd m), m)"
  by (simp add: qemu_mmio_def proto_pcie_mmio_read_def)

lemma qemu_writes [simp]:
  "io_writel qemu_mmio m REG_CTRL CTRL_RESET = (fst m, (snd m)\<lparr>q_status := STATUS_READY, q_irq := False\<rparr>)"
  "io_writel qemu_mmio m REG_CTRL CTRL_START = (fst m, (snd m)\<lparr>q_status := STATUS_READY, q_timer := Some (fst m + 25)\<rparr>)"
  "io_writel qemu_mmio m REG_CTRL 0 = m"
  "io_writel qemu_mmio m REG_DOORBELL v = (fst m, (snd m)\<lparr>q_last_opcode := v\<rparr>)"
  "io_writel qemu_mmio m REG_DMA_LEN v = (fst m, (snd m)\<lparr>q_dma_len := v\<rparr>)"
  "io_writel qemu_mmio m REG_DMA_LO v = m"
  "io_writel qemu_mmio m REG_DMA_HI v = m"
  "io_writel qemu_mmio m REG_IRQ_ACK v = m"
  by (simp_all add: qemu_mmio_def proto_pcie_mmio_write_def proto_pcie_lower_irq_def Let_def)

lemma qemu_msleep: "io_msleep qemu_mmio m n = run_timer (fst m + n, snd m)"
  by (simp add: qemu_mmio_def)

section \<open>The contract of a device\<close>

text \<open>
  What the basic driver relies on. \<open>status\<close> is what a read of the status register gives;
  \<open>pending h k\<close>: a command is running and completes after \<open>k\<close> milliseconds; \<open>quiet h\<close>: none is.
\<close>

locale proto_device =
  fixes D :: "'h mmio"
    and status :: "'h \<Rightarrow> u32"
    and quiet :: "'h \<Rightarrow> bool"
    and pending :: "'h \<Rightarrow> nat \<Rightarrow> bool"
    and latency :: nat
  assumes read_status: "io_readl D h REG_STATUS = (status h, h)"
    and reset_quiet: "quiet h \<Longrightarrow> quiet (io_writel D h REG_CTRL CTRL_RESET)"
    and reset_status: "status (io_writel D h REG_CTRL CTRL_RESET) = STATUS_READY"
    and ctrl_zero: "io_writel D h REG_CTRL 0 = h"
    and sleep_quiet: "quiet h \<Longrightarrow> quiet (io_msleep D h n) \<and> status (io_msleep D h n) = status h"
    and start_pending: "pending (io_writel D h REG_CTRL CTRL_START) latency"
    and start_status: "status (io_writel D h REG_CTRL CTRL_START) = STATUS_READY"
    and sleep_short: "pending h k \<Longrightarrow> n < k \<Longrightarrow>
      pending (io_msleep D h n) (k - n) \<and> status (io_msleep D h n) = status h"
    and sleep_done: "pending h k \<Longrightarrow> k \<le> n \<Longrightarrow>
      quiet (io_msleep D h n) \<and> status (io_msleep D h n) = STATUS_READY OR STATUS_DONE"
begin

text \<open>The driver's reset of a quiet device ends with the status READY.\<close>

lemma reset_ready:
  assumes "quiet (p_bar0 d)"
  shows "last_status (base_reset D d) = STATUS_READY" "quiet (p_bar0 (base_reset D d))"
  using assms reset_quiet[OF assms] reset_status[of "p_bar0 d"]
    sleep_quiet[of "io_writel D (p_bar0 d) REG_CTRL CTRL_RESET" 20]
  by (simp_all add: base_reset_def proto_mmio Let_def read_status ctrl_zero)

text \<open>A command is running when the ioctl that sent it returns, and the status it latched says so.\<close>

lemma send_pending:
  "pending (p_bar0 (base_send_cmd D c d)) latency \<and> last_status (base_send_cmd D c d) = STATUS_READY"
  by (simp add: base_send_cmd_def proto_mmio Let_def read_status start_pending start_status)

text \<open>The interrupt handler latches the status.\<close>

lemma handler_status: "last_status (snd (proto_irq_handler D d)) = status (p_bar0 d)"
  by (simp add: proto_irq_handler_def proto_mmio Let_def read_status)

text \<open>Sleeping in two parts: before and after the completion.\<close>

lemma completes_in_time:
  assumes "pending (p_bar0 d) k"
  shows "last_status (snd (proto_irq_handler D (proto_msleep D n d))) =
    (if n < k then status (p_bar0 d) else STATUS_READY OR STATUS_DONE)"
  using sleep_short[OF assms, of n] sleep_done[OF assms, of n]
  by (auto simp: handler_status) (simp_all add: proto_msleep_def)

end

definition qemu_pending :: "machine \<Rightarrow> nat \<Rightarrow> bool" where
  "qemu_pending m k \<longleftrightarrow> q_timer (snd m) = Some (fst m + k) \<and> 0 < k"

definition qemu_quiet :: "machine \<Rightarrow> bool" where
  "qemu_quiet m \<longleftrightarrow> q_timer (snd m) = None"

interpretation qemu: proto_device qemu_mmio "\<lambda>m. q_status (snd m)" qemu_quiet qemu_pending 25
  by unfold_locales
    (auto simp: qemu_pending_def qemu_quiet_def qemu_msleep run_timer_def proto_pcie_complete_def
      proto_pcie_raise_irq_def split: option.split)

section \<open>The driver on the device\<close>

lemma send_on_qemu:
  "p_bar0 (base_send_cmd qemu_mmio c d) = (fst (p_bar0 d), (snd (p_bar0 d))
    \<lparr>q_dma_len := clamp_len c, q_last_opcode := cmd_opcode c, q_status := STATUS_READY,
     q_timer := Some (fst (p_bar0 d) + 25)\<rparr>)"
  by (simp add: base_send_cmd_def proto_mmio Let_def)

text \<open>A command sent to this device through the basic driver is running when the ioctl returns,
  with status READY; an interrupt handler that runs within 25 ms latches that status, one that runs
  later READY and DONE, with the line raised. The device got the opcode and the clamped length, but
  never the address of the buffer.\<close>

lemma command_completes_on_qemu:
  "let d1 = base_send_cmd qemu_mmio c d; d2 = proto_msleep qemu_mmio n d1; d3 = snd (proto_irq_handler qemu_mmio d2) in
    last_status d1 = STATUS_READY \<and>
    last_status d3 = (if n < 25 then STATUS_READY else STATUS_READY OR STATUS_DONE) \<and>
    (if n < 25 then q_irq (snd (p_bar0 d2)) = q_irq (snd (p_bar0 d)) else q_irq (snd (p_bar0 d2))) \<and>
    q_last_opcode (snd (p_bar0 d3)) = cmd_opcode c \<and> q_dma_len (snd (p_bar0 d3)) = clamp_len c \<and>
    q_dma_addr (snd (p_bar0 d3)) = q_dma_addr (snd (p_bar0 d))"
proof -
  let ?d1 = "base_send_cmd qemu_mmio c d"
  let ?d2 = "proto_msleep qemu_mmio n ?d1"
  have s: "last_status ?d1 = STATUS_READY" "qemu_pending (p_bar0 ?d1) 25"
    using qemu.send_pending[of c d] by simp_all
  have d2: "p_bar0 ?d2 = run_timer (fst (p_bar0 ?d1) + n, snd (p_bar0 ?d1))"
    by (simp add: proto_msleep_def qemu_msleep)
  have d3: "p_bar0 (snd (proto_irq_handler qemu_mmio x)) = p_bar0 x" for x :: "(machine, 'b) proto_dev_scheme"
    by (simp add: proto_irq_handler_def proto_mmio Let_def)
  show ?thesis
    using s qemu.completes_in_time[OF s(2), of n]
    by (simp add: Let_def d2 d3 send_on_qemu run_timer_def proto_pcie_complete_def proto_pcie_raise_irq_def)
qed

text \<open>The accesses of a guest and the passing of time.\<close>

datatype qaccess = QWrite u32 u32 | QRead u32 | QSleep nat

fun qdo :: "qaccess \<Rightarrow> machine \<Rightarrow> machine" where
  "qdo (QWrite r v) m = io_writel qemu_mmio m r v"
| "qdo (QRead r) m = snd (io_readl qemu_mmio m r)"
| "qdo (QSleep n) m = io_msleep qemu_mmio m n"

fun is_qreset :: "qaccess \<Rightarrow> bool" where
  "is_qreset (QWrite r v) = (r = REG_CTRL \<and> v AND CTRL_RESET \<noteq> 0)"
| "is_qreset _ = False"

lemma ucast_and_reset: "ucast (v :: u32) AND (1 :: u64) = 0 \<longleftrightarrow> v AND CTRL_RESET = 0"
proof -
  have "ucast v AND (1 :: u64) = ucast (v AND CTRL_RESET)"
    by (rule bit_word_eqI) (auto simp: bit_simps CTRL_RESET_def)
  then show ?thesis by (metis ucast_0 ucast_32_64_32)
qed

lemma qdo_irq: "q_irq (snd m) \<Longrightarrow> \<not> is_qreset a \<Longrightarrow> q_irq (snd (qdo a m))"
proof (cases a)
  case (QWrite r v)
  assume "q_irq (snd m)" "\<not> is_qreset a"
  moreover have "ucast r = (0 :: u64) \<longleftrightarrow> r = REG_CTRL"
    by (metis REG_CTRL_def ucast_0 ucast_32_64_32)
  ultimately show ?thesis using QWrite
    by (auto simp: qemu_mmio_def proto_pcie_mmio_write_def proto_pcie_lower_irq_def ucast_and_reset Let_def)
next
  case (QSleep n)
  assume "q_irq (snd m)"
  then show ?thesis using QSleep
    by (auto simp: qemu_msleep run_timer_def proto_pcie_complete_def proto_pcie_raise_irq_def split: option.split)
qed (simp_all add: qemu_mmio_def)

text \<open>Once raised, the interrupt line stays raised until a reset: the acknowledgement the
  handler writes is ignored, and so is every other access.\<close>

lemma irq_line_stays_raised:
  assumes "q_irq (snd m)" and "list_all (\<lambda>a. \<not> is_qreset a) as"
  shows "q_irq (snd (fold qdo as m)) \<and>
    q_irq (snd (p_bar0 (snd (proto_irq_handler qemu_mmio (d\<lparr>p_bar0 := m\<rparr>)))))"
proof
  show "q_irq (snd (fold qdo as m))"
    using assms by (induction as arbitrary: m) (simp_all add: qdo_irq)
  show "q_irq (snd (p_bar0 (snd (proto_irq_handler qemu_mmio (d\<lparr>p_bar0 := m\<rparr>)))))"
    using assms(1) by (simp add: proto_irq_handler_def proto_mmio Let_def)
qed

definition wit_proto :: "machine proto_dev" where
  "wit_proto = \<lparr>p_bar0 = (0, proto_pcie_realize), bar0_len = 0x1000, irq_no = 24, dma_buf = Some (\<lambda>_. 0),
     p_dma_handle = 0x1000, dma_len = 4096, last_status = 0\<rparr>"

text \<open>C32. A reset does not stop the device's timer: when the driver resets the device between 5 and
  25 ms after a command, the aborted command completes inside the reset, which ends with status
  READY and DONE and the interrupt line raised; without a command running, it ends with READY and
  the line low.\<close>

theorem reset_leaves_timer:
  assumes "5 \<le> n" and "n < 25"
  shows "(let d1 = base_reset qemu_mmio (proto_msleep qemu_mmio n (base_send_cmd qemu_mmio c d)) in
      last_status d1 = STATUS_READY OR STATUS_DONE \<and> q_irq (snd (p_bar0 d1))) \<and>
    (if qemu_quiet (p_bar0 d) then
       last_status (base_reset qemu_mmio d) = STATUS_READY \<and> \<not> q_irq (snd (p_bar0 (base_reset qemu_mmio d)))
     else True)"
proof
  show "let d1 = base_reset qemu_mmio (proto_msleep qemu_mmio n (base_send_cmd qemu_mmio c d)) in
      last_status d1 = STATUS_READY OR STATUS_DONE \<and> q_irq (snd (p_bar0 d1))"
    using assms
    by (simp add: Let_def base_reset_def proto_msleep_def proto_writel_def latch_status_def proto_readl_def
        send_on_qemu qemu_msleep run_timer_def proto_pcie_complete_def proto_pcie_raise_irq_def)
  have "\<not> q_irq (snd (p_bar0 (base_reset qemu_mmio d)))" if "qemu_quiet (p_bar0 d)"
    using that by (simp add: base_reset_def proto_mmio qemu_msleep run_timer_def qemu_quiet_def Let_def)
  then show "if qemu_quiet (p_bar0 d) then
       last_status (base_reset qemu_mmio d) = STATUS_READY \<and> \<not> q_irq (snd (p_bar0 (base_reset qemu_mmio d)))
     else True"
    using qemu.reset_ready(1)[of d] by simp
qed

theorem reset_leaves_timer_witness:
  "last_status (base_reset qemu_mmio (proto_msleep qemu_mmio 10 (base_send_cmd qemu_mmio
      \<lparr>cmd_opcode = 1, cmd_length = 4, cmd_payload = replicate 256 0\<rparr> wit_proto))) = STATUS_READY OR STATUS_DONE"
  using reset_leaves_timer[of 10 "\<lparr>cmd_opcode = 1, cmd_length = 4, cmd_payload = replicate 256 0\<rparr>" wit_proto]
  by (simp add: Let_def)

end
