(* ===== verification/User_Base.thy ===== *)
theory User_Base
  imports Pcie_Prelude
begin

text \<open>
  What the C++ programs of the three prototypes share: exceptions, results and printed output.
\<close>

section \<open>Exceptions\<close>

text \<open>
  \<open>Undefined\<close> stands for what C++ leaves undefined: an overflowing \<open>int\<close>, a store through a
  pointer that maps nothing.
\<close>

datatype cpp_exn = RuntimeError string | Undefined

type_synonym 'a res = "cpp_exn + 'a"

section \<open>Output\<close>

text \<open>
  What a program prints is a list with one entry for each insertion statement into a stream.
  \<open>Hex\<close> is a number printed after \<open>std::hex\<close>, \<open>Ptr\<close> a pointer, \<open>Endl\<close> the newline character.
\<close>

datatype item = Str string | Num int | Hex int | Ptr u64 | Endl

datatype line = Cout "item list" | Cerr "item list"

end
