(* ===== verification/User_Edu.thy ===== *)
theory User_Edu
  imports Edu_Ioctl User_Base
begin

text \<open>
  The C++ class \<open>EduDevice\<close> of \<open>pcie_prototype_async/userspace/edu_device.cpp\<close>, over the system calls
  it makes. The process has a table of descriptors and a set of mappings; \<open>ioctl\<close> and \<open>mmap\<close> on the
  driver's file are the driver's own operations on the driver's own state. What the rest of the
  system answers (the file found at a path, the numbers of new descriptors, the address of a
  mapping, the texts of \<open>strerror\<close>) and what the other contexts do meanwhile is an environment.
\<close>

section \<open>System calls\<close>

text \<open>
  A descriptor refers to the driver's device file, to an eventfd, or to any other file. \<open>w_bad\<close>
  counts the calls of \<open>close\<close> and \<open>munmap\<close> on something the process does not have.
\<close>

datatype os_file = FileEdu | FileEvent nat | FileOther

record 'h world =
  w_edu :: "'h edu_dev"
  w_files :: "int \<Rightarrow> os_file option"
  w_maps :: "u64 set"
  w_bad :: nat

text \<open>
  \<open>en_pre\<close> runs before a call enters the driver; \<open>en_wait1\<close> and \<open>en_wait2\<close> run while a blocking ioctl
  waits; \<open>en_sch k\<close> runs before poll number \<open>k\<close> of \<open>wait_completion\<close>.
\<close>

record 'h env =
  en_pre :: "'h edu_event list"
  en_wait1 :: "'h edu_event list \<times> 'h edu_event list"
  en_wait2 :: "'h edu_event list \<times> 'h edu_event list"
  en_sch :: "nat \<Rightarrow> 'h edu_event list"
  en_strerror :: "errno \<Rightarrow> string"
  en_open :: "string \<Rightarrow> errno + int \<times> os_file"
  en_eventfd :: "errno + int \<times> nat"
  en_mmap :: "errno + u64"
  en_pfn :: u64
  en_remap :: "u64 \<Rightarrow> u64 \<Rightarrow> u64 \<Rightarrow> ret"

definition sys_open :: "'h env \<Rightarrow> string \<Rightarrow> 'h world \<Rightarrow> (errno + int) \<times> 'h world" where
  "sys_open E path w =
     (case en_open E path of
        Inl err \<Rightarrow> (Inl err, w)
      | Inr (fd, f) \<Rightarrow> (Inr fd, w\<lparr>w_files := (w_files w)(fd \<mapsto> f),
                          w_edu := (if f = FileEdu then edu_open (w_edu w) else w_edu w)\<rparr>))"

definition sys_eventfd :: "'h env \<Rightarrow> 'h world \<Rightarrow> (errno + int) \<times> 'h world" where
  "sys_eventfd E w =
     (case en_eventfd E of
        Inl err \<Rightarrow> (Inl err, w)
      | Inr (fd, c) \<Rightarrow> (Inr fd, w\<lparr>w_files := (w_files w)(fd \<mapsto> FileEvent c)\<rparr>))"

definition sys_close :: "int \<Rightarrow> 'h world \<Rightarrow> 'h world" where
  "sys_close fd w =
     (if w_files w fd = None then w\<lparr>w_bad := Suc (w_bad w)\<rparr> else w\<lparr>w_files := (w_files w)(fd := None)\<rparr>)"

text \<open>What the caller passes at \<open>arg\<close>; the driver copies out into an object of the caller.\<close>

datatype ioctl_arg = ArgNone | ArgOut | ArgFact edu_fact_req | ArgSubmit edu_submit_req | ArgFd int

definition eventfd_fdget :: "(int \<Rightarrow> os_file option) \<Rightarrow> int \<Rightarrow> errno + nat" where
  "eventfd_fdget files fd =
     (case files fd of None \<Rightarrow> Inl EBADF | Some (FileEvent c) \<Rightarrow> Inr c | Some _ \<Rightarrow> Inl EINVAL)"

definition user_of :: "'h env \<Rightarrow> ioctl_arg \<Rightarrow> 'h world \<Rightarrow> 'h edu_user" where
  "user_of E a w = \<lparr>u_fact = (case a of ArgFact r \<Rightarrow> Some r | _ \<Rightarrow> None),
     u_submit = (case a of ArgSubmit r \<Rightarrow> Some r | _ \<Rightarrow> None),
     u_fd = (case a of ArgFd fd \<Rightarrow> Some fd | _ \<Rightarrow> None), u_writable = True,
     u_fdget = eventfd_fdget (w_files w), u_wait1 = en_wait1 E, u_wait2 = en_wait2 E\<rparr>"

definition env_run :: "'h mmio \<Rightarrow> 'h edu_event list \<Rightarrow> 'h world \<Rightarrow> 'h world" where
  "env_run D evs w = w\<lparr>w_edu := edu_events D evs (w_edu w)\<rparr>"

definition sys_ioctl :: "'h mmio \<Rightarrow> 'h env \<Rightarrow> int \<Rightarrow> u32 \<Rightarrow> ioctl_arg \<Rightarrow> 'h world \<Rightarrow> ret \<times> edu_out \<times> 'h world" where
  "sys_ioctl D E fd cmd a w =
     (let w = env_run D (en_pre E) w
      in case w_files w fd of
           None \<Rightarrow> (Inl EBADF, OutNone, w)
         | Some FileEdu \<Rightarrow>
             (let (r, out, e) = edu_ioctl D (user_of E a w) cmd (w_edu w) in (r, out, w\<lparr>w_edu := e\<rparr>))
         | Some _ \<Rightarrow> (Inl ENOTTY, OutNone, w))"

definition sys_mmap :: "'h env \<Rightarrow> int \<Rightarrow> nat \<Rightarrow> 'h world \<Rightarrow> (errno + u64) \<times> 'h world" where
  "sys_mmap E fd len w =
     (case w_files w fd of
        None \<Rightarrow> (Inl EBADF, w)
      | Some FileEdu \<Rightarrow>
          (case en_mmap E of
             Inl err \<Rightarrow> (Inl err, w)
           | Inr p \<Rightarrow>
               (case edu_mmap (en_remap E) (en_pfn E) p (p + of_nat len) of
                  Inl err \<Rightarrow> (Inl err, w)
                | Inr _ \<Rightarrow> (Inr p, w\<lparr>w_maps := insert p (w_maps w)\<rparr>)))
      | Some _ \<Rightarrow> (Inl ENODEV, w))"

definition sys_munmap :: "u64 \<Rightarrow> 'h world \<Rightarrow> 'h world" where
  "sys_munmap p w =
     (if p \<in> w_maps w then w\<lparr>w_maps := w_maps w - {p}\<rparr> else w\<lparr>w_bad := Suc (w_bad w)\<rparr>)"

section \<open>The object and its life cycle\<close>

definition throw_errno :: "'h env \<Rightarrow> string \<Rightarrow> errno \<Rightarrow> 'a res" where
  "throw_errno E what err = Inl (RuntimeError (what @ '': '' @ en_strerror E err))"

record edu_device =
  ud_fd :: int
  ud_evtfd :: int
  ud_ring_map :: u64
  ud_rings_mapped :: bool
  ud_sq_tail :: u32

definition ud_empty :: edu_device where
  "ud_empty = \<lparr>ud_fd = -1, ud_evtfd = -1, ud_ring_map = 0, ud_rings_mapped = False, ud_sq_tail = 0\<rparr>"

definition ud_register_eventfd :: "'h mmio \<Rightarrow> 'h env \<Rightarrow> edu_device \<Rightarrow> 'h world \<Rightarrow> unit res \<times> 'h world" where
  "ud_register_eventfd D E d w =
     (case sys_ioctl D E (ud_fd d) EDU_IOC_SET_EVENTFD (ArgFd (ud_evtfd d)) w of
        (Inl err, _, w) \<Rightarrow> (throw_errno E ''EDU_IOC_SET_EVENTFD'' err, w)
      | (Inr _, _, w) \<Rightarrow> (Inr (), w))"

text \<open>An exception that leaves the constructor does not run the destructor.\<close>

definition ud_construct :: "'h mmio \<Rightarrow> 'h env \<Rightarrow> string \<Rightarrow> 'h world \<Rightarrow> edu_device res \<times> 'h world" where
  "ud_construct D E path w =
     (case sys_open E path w of
        (Inl err, w) \<Rightarrow> (throw_errno E (''open '' @ path) err, w)
      | (Inr fd, w) \<Rightarrow>
          (case sys_eventfd E w of
             (Inl err, w) \<Rightarrow> (throw_errno E ''eventfd'' err, sys_close fd w)
           | (Inr evtfd, w) \<Rightarrow>
               (let d = ud_empty\<lparr>ud_fd := fd, ud_evtfd := evtfd\<rparr>
                in case ud_register_eventfd D E d w of
                     (Inl ex, w) \<Rightarrow> (Inl ex, w)
                   | (Inr _, w) \<Rightarrow> (Inr d, w))))"

definition ud_unmap_rings :: "edu_device \<Rightarrow> 'h world \<Rightarrow> edu_device \<times> 'h world" where
  "ud_unmap_rings d w =
     (if \<not> ud_rings_mapped d then (d, w)
      else (d\<lparr>ud_ring_map := 0, ud_rings_mapped := False\<rparr>, sys_munmap (ud_ring_map d) w))"

definition close_if :: "int \<Rightarrow> 'h world \<Rightarrow> 'h world" where
  "close_if fd w = (if fd \<ge> 0 then sys_close fd w else w)"

definition ud_destroy :: "edu_device \<Rightarrow> 'h world \<Rightarrow> 'h world" where
  "ud_destroy d w =
     (let (d, w) = ud_unmap_rings d w; w = close_if (ud_evtfd d) w in close_if (ud_fd d) w)"

text \<open>The new object and what is left of the old one.\<close>

definition ud_move :: "edu_device \<Rightarrow> edu_device \<times> edu_device" where
  "ud_move other =
     (\<lparr>ud_fd = ud_fd other, ud_evtfd = ud_evtfd other, ud_ring_map = ud_ring_map other,
       ud_rings_mapped = ud_rings_mapped other, ud_sq_tail = ud_sq_tail other\<rparr>,
      other\<lparr>ud_fd := -1, ud_evtfd := -1, ud_ring_map := 0, ud_rings_mapped := False, ud_sq_tail := 0\<rparr>)"

text \<open>
  The body of the assignment of one object to another one; the test for an assignment to itself is
  in \<open>ud_assign\<close>, where objects have addresses.
\<close>

definition ud_move_assign :: "edu_device \<Rightarrow> edu_device \<Rightarrow> 'h world \<Rightarrow> edu_device \<times> edu_device \<times> 'h world" where
  "ud_move_assign this other w =
     (let (this, w) = ud_unmap_rings this w;
          w = close_if (ud_evtfd this) w;
          w = close_if (ud_fd this) w;
          this = this\<lparr>ud_fd := ud_fd other, ud_evtfd := ud_evtfd other, ud_ring_map := ud_ring_map other,
                   ud_rings_mapped := ud_rings_mapped other, ud_sq_tail := ud_sq_tail other\<rparr>;
          other = other\<lparr>ud_fd := -1, ud_evtfd := -1, ud_ring_map := 0, ud_rings_mapped := False,
                   ud_sq_tail := 0\<rparr>
      in (this, other, w))"

section \<open>The blocking ioctls\<close>

definition ud_factorial :: "'h mmio \<Rightarrow> 'h env \<Rightarrow> u32 \<Rightarrow> edu_device \<Rightarrow> 'h world \<Rightarrow> u32 res \<times> 'h world" where
  "ud_factorial D E n d w =
     (case sys_ioctl D E (ud_fd d) EDU_IOC_RUN_FACTORIAL
             (ArgFact \<lparr>fr_input = n, fr_output = 0, fr_irq_status = 0\<rparr>) w of
        (Inl err, _, w) \<Rightarrow> (throw_errno E ''EDU_IOC_RUN_FACTORIAL'' err, w)
      | (Inr _, OutFact req, w) \<Rightarrow> (Inr (fr_output req), w)
      | (Inr _, _, w) \<Rightarrow> (Inr 0, w))"

definition ud_dma_test :: "'h mmio \<Rightarrow> 'h env \<Rightarrow> edu_device \<Rightarrow> 'h world \<Rightarrow> unit res \<times> 'h world" where
  "ud_dma_test D E d w =
     (case sys_ioctl D E (ud_fd d) EDU_IOC_RUN_DMA_TEST ArgNone w of
        (Inl err, _, w) \<Rightarrow> (throw_errno E ''EDU_IOC_RUN_DMA_TEST'' err, w)
      | (Inr _, _, w) \<Rightarrow> (Inr (), w))"

definition ud_state :: "'h mmio \<Rightarrow> 'h env \<Rightarrow> edu_device \<Rightarrow> 'h world \<Rightarrow> edu_state_req res \<times> 'h world" where
  "ud_state D E d w =
     (case sys_ioctl D E (ud_fd d) EDU_IOC_GET_STATE ArgOut w of
        (Inl err, _, w) \<Rightarrow> (throw_errno E ''EDU_IOC_GET_STATE'' err, w)
      | (Inr _, OutState s, w) \<Rightarrow> (Inr s, w)
      | (Inr _, _, w) \<Rightarrow>
          (Inr \<lparr>sr_last_irq = 0, sr_last_fact_in = 0, sr_last_fact_out = 0, sr_dma_ok = 0\<rparr>, w))"

section \<open>The rings through ioctls\<close>

definition ud_ioctl_submit ::
    "'h mmio \<Rightarrow> 'h env \<Rightarrow> u16 \<Rightarrow> u8 \<Rightarrow> u32 \<Rightarrow> edu_device \<Rightarrow> 'h world \<Rightarrow> unit res \<times> edu_device \<times> 'h world" where
  "ud_ioctl_submit D E tag opcode operand d w =
     (case sys_ioctl D E (ud_fd d) EDU_IOC_SUBMIT
             (ArgSubmit \<lparr>sub_tag = tag, sub_opcode = opcode, sub_pad = 0, sub_operand = operand\<rparr>) w of
        (Inl err, _, w) \<Rightarrow>
          (if err = ENOSPC then Inl (RuntimeError ''ring full'')
           else if err = EINVAL then Inl (RuntimeError ''bad opcode'')
           else throw_errno E ''EDU_IOC_SUBMIT'' err, d, w)
      | (Inr _, _, w) \<Rightarrow> (Inr (), d\<lparr>ud_sq_tail := ud_sq_tail d + 1\<rparr>, w))"

definition ud_submit ::
    "'h mmio \<Rightarrow> 'h env \<Rightarrow> u16 \<Rightarrow> u8 \<Rightarrow> u32 \<Rightarrow> edu_device \<Rightarrow> 'h world \<Rightarrow> unit res \<times> edu_device \<times> 'h world" where
  "ud_submit D E tag opcode operand d w = ud_ioctl_submit D E tag opcode operand d w"

definition ud_submit_factorial ::
    "'h mmio \<Rightarrow> 'h env \<Rightarrow> u16 \<Rightarrow> u32 \<Rightarrow> edu_device \<Rightarrow> 'h world \<Rightarrow> unit res \<times> edu_device \<times> 'h world" where
  "ud_submit_factorial D E tag n d w = ud_submit D E tag EDU_OP_FACTORIAL n d w"

definition ud_submit_dma_test ::
    "'h mmio \<Rightarrow> 'h env \<Rightarrow> u16 \<Rightarrow> edu_device \<Rightarrow> 'h world \<Rightarrow> unit res \<times> edu_device \<times> 'h world" where
  "ud_submit_dma_test D E tag d w = ud_submit D E tag EDU_OP_DMA_TEST 0 d w"

record completion =
  co_tag :: u16
  co_status :: u8
  co_result :: u32

definition completion_ok :: "completion \<Rightarrow> bool" where
  "completion_ok c \<longleftrightarrow> co_status c = 0"

definition completion_of_req :: "edu_completion_req \<Rightarrow> completion" where
  "completion_of_req c = \<lparr>co_tag = cr_tag c, co_status = cr_status c, co_result = cr_result c\<rparr>"

definition ud_poll_completion ::
    "'h mmio \<Rightarrow> 'h env \<Rightarrow> edu_device \<Rightarrow> 'h world \<Rightarrow> completion option res \<times> 'h world" where
  "ud_poll_completion D E d w =
     (case sys_ioctl D E (ud_fd d) EDU_IOC_POLL_CQ ArgOut w of
        (Inl err, _, w) \<Rightarrow> (if err = EAGAIN then Inr None else throw_errno E ''EDU_IOC_POLL_CQ'' err, w)
      | (Inr _, OutCompletion c, w) \<Rightarrow> (Inr (Some (completion_of_req c)), w)
      | (Inr _, _, w) \<Rightarrow> (Inr (Some \<lparr>co_tag = 0, co_status = 0, co_result = 0\<rparr>), w))"

text \<open>The loop of \<open>wait_completion\<close>: poll number \<open>k\<close> comes after \<open>waited\<close> microseconds, which it
  counts in an \<open>int\<close>.\<close>

definition int32 :: "int \<Rightarrow> bool" where
  "int32 i \<longleftrightarrow> - (2 ^ 31) \<le> i \<and> i < 2 ^ 31"

function ud_wait_loop ::
    "'h mmio \<Rightarrow> 'h env \<Rightarrow> int \<Rightarrow> nat \<Rightarrow> int \<Rightarrow> edu_device \<Rightarrow> 'h world \<Rightarrow> completion option res \<times> 'h world" where
  "ud_wait_loop D E limit_us k waited_us d w =
     (if waited_us < limit_us then
        (case ud_poll_completion D (E\<lparr>en_pre := en_sch E k\<rparr>) d w of
           (Inl ex, w) \<Rightarrow> (Inl ex, w)
         | (Inr (Some c), w) \<Rightarrow> (Inr (Some c), w)
         | (Inr None, w) \<Rightarrow>
             if \<not> int32 (waited_us + 500) then (Inl Undefined, w)
             else ud_wait_loop D E limit_us (Suc k) (waited_us + 500) d w)
      else (Inr None, w))"
  by pat_completeness auto
termination
  by (relation "measure (\<lambda>(D, E, limit_us, k, waited_us, d, w). nat (limit_us - waited_us))") auto

declare ud_wait_loop.simps [simp del]

definition ud_wait_completion ::
    "'h mmio \<Rightarrow> 'h env \<Rightarrow> int \<Rightarrow> edu_device \<Rightarrow> 'h world \<Rightarrow> completion option res \<times> 'h world" where
  "ud_wait_completion D E timeout_ms d w =
     (if \<not> int32 (timeout_ms * 1000) then (Inl Undefined, w)
      else ud_wait_loop D E (timeout_ms * 1000) 0 0 d w)"

section \<open>The rings through the mapping\<close>

definition ud_map_rings :: "'h env \<Rightarrow> edu_device \<Rightarrow> 'h world \<Rightarrow> unit res \<times> edu_device \<times> 'h world" where
  "ud_map_rings E d w =
     (if ud_rings_mapped d then (Inr (), d, w)
      else case sys_mmap E (ud_fd d) DMA_BUF_TOTAL w of
             (Inl err, w) \<Rightarrow> (throw_errno E ''mmap rings'' err, d, w)
           | (Inr p, w) \<Rightarrow> (Inr (), d\<lparr>ud_ring_map := p, ud_rings_mapped := True\<rparr>, w))"

definition ud_sq_ptr :: "edu_device \<Rightarrow> u64 res" where
  "ud_sq_ptr d =
     (if \<not> ud_rings_mapped d then Inl (RuntimeError ''map_rings() not called'') else Inr (ud_ring_map d))"

definition ud_cq_ptr :: "edu_device \<Rightarrow> u64 res" where
  "ud_cq_ptr d =
     (if \<not> ud_rings_mapped d then Inl (RuntimeError ''map_rings() not called'')
      else let base = ud_ring_map d in Inr (base + of_nat SQ_SIZE))"

text \<open>A store of a whole entry to \<open>sq[slot]\<close> through a pointer to the start of a mapping of the slab.\<close>

definition store_sq :: "u64 \<Rightarrow> u32 \<Rightarrow> sq_entry \<Rightarrow> 'h world \<Rightarrow> 'h world option" where
  "store_sq p slot s w =
     (if p \<in> w_maps w
      then Some (w\<lparr>w_edu := (w_edu w)\<lparr>dma_virt := sq_put (dma_virt (w_edu w)) (unat slot) s\<rparr>\<rparr>)
      else None)"

definition ud_submit_zc ::
    "'h mmio \<Rightarrow> 'h env \<Rightarrow> u16 \<Rightarrow> u8 \<Rightarrow> u32 \<Rightarrow> edu_device \<Rightarrow> 'h world \<Rightarrow> unit res \<times> edu_device \<times> 'h world" where
  "ud_submit_zc D E tag opcode operand d w =
     (if \<not> ud_rings_mapped d
      then (Inl (RuntimeError ''map_rings() required for zero-copy submit''), d, w)
      else let slot = ud_sq_tail d AND RING_MASK
           in case ud_sq_ptr d of
                Inl ex \<Rightarrow> (Inl ex, d, w)
              | Inr sq \<Rightarrow>
                  (case store_sq sq slot \<lparr>sq_tag = tag, sq_opcode = opcode, sq_flags = 0,
                          sq_operand = operand, sq_rsvd = 0\<rparr> w of
                     None \<Rightarrow> (Inl Undefined, d, w)
                   | Some w \<Rightarrow> ud_ioctl_submit D E tag opcode operand d w))"

definition ud_submit_factorial_zc ::
    "'h mmio \<Rightarrow> 'h env \<Rightarrow> u16 \<Rightarrow> u32 \<Rightarrow> edu_device \<Rightarrow> 'h world \<Rightarrow> unit res \<times> edu_device \<times> 'h world" where
  "ud_submit_factorial_zc D E tag n d w = ud_submit_zc D E tag EDU_OP_FACTORIAL n d w"

definition ud_submit_dma_test_zc ::
    "'h mmio \<Rightarrow> 'h env \<Rightarrow> u16 \<Rightarrow> edu_device \<Rightarrow> 'h world \<Rightarrow> unit res \<times> edu_device \<times> 'h world" where
  "ud_submit_dma_test_zc D E tag d w = ud_submit_zc D E tag EDU_OP_DMA_TEST 0 d w"

end
