(* ===== verification/User_Calls.thy ===== *)
theory User_Calls
  imports User_Edu Edu_Blocking
begin

text \<open>
  What a method of an attached \<open>EduDevice\<close>, one whose descriptor is the driver's file, does to the
  driver's state: each call is the driver's operation after the events that precede it. Then the
  loop of \<open>wait_completion\<close> as a search for the first poll that finds a completion, and the round
  trip of one command through the class.
\<close>

definition attached :: "edu_device \<Rightarrow> 'h world \<Rightarrow> bool" where
  "attached d w \<longleftrightarrow> w_files w (ud_fd d) = Some FileEdu"

lemma attached_world [simp]:
  "attached d (w\<lparr>w_edu := e\<rparr>) = attached d w"
  "attached (d\<lparr>ud_sq_tail := t\<rparr>) w = attached d w"
  by (simp_all add: attached_def)

lemma user_of_simps [simp]:
  "u_fact (user_of E a w) = (case a of ArgFact r \<Rightarrow> Some r | _ \<Rightarrow> None)"
  "u_submit (user_of E a w) = (case a of ArgSubmit r \<Rightarrow> Some r | _ \<Rightarrow> None)"
  "u_fd (user_of E a w) = (case a of ArgFd fd \<Rightarrow> Some fd | _ \<Rightarrow> None)"
  "u_writable (user_of E a w)"
  "u_fdget (user_of E a w) = eventfd_fdget (w_files w)"
  "u_wait1 (user_of E a w) = en_wait1 E" "u_wait2 (user_of E a w) = en_wait2 E"
  by (simp_all add: user_of_def)

lemma user_of_world [simp]: "user_of E a (w\<lparr>w_edu := e\<rparr>) = user_of E a w"
  by (simp add: user_of_def)

text \<open>The driver's state when the call enters it.\<close>

abbreviation entered :: "'h mmio \<Rightarrow> 'h env \<Rightarrow> 'h world \<Rightarrow> 'h edu_dev" where
  "entered D E w \<equiv> edu_events D (en_pre E) (w_edu w)"

lemma sys_ioctl_attached:
  assumes "attached d w"
  shows "sys_ioctl D E (ud_fd d) cmd a w =
    (fst (edu_ioctl D (user_of E a w) cmd (entered D E w)),
     fst (snd (edu_ioctl D (user_of E a w) cmd (entered D E w))),
     w\<lparr>w_edu := snd (snd (edu_ioctl D (user_of E a w) cmd (entered D E w)))\<rparr>)"
  using assms by (simp add: sys_ioctl_def attached_def env_run_def split_def Let_def)

section \<open>Submitting and polling\<close>

abbreviation request :: "u16 \<Rightarrow> u8 \<Rightarrow> u32 \<Rightarrow> edu_submit_req" where
  "request tag opcode operand \<equiv>
     \<lparr>sub_tag = tag, sub_opcode = opcode, sub_pad = 0, sub_operand = operand\<rparr>"

lemma ud_ioctl_submit_attached:
  assumes "attached d w"
  shows "ud_ioctl_submit D E tag opcode operand d w =
    (let e = entered D E w; r = request tag opcode operand; w' = w\<lparr>w_edu := snd (edu_ring_submit D r e)\<rparr>
     in if ring_full (sq_tail e) (cq_head e) then (Inl (RuntimeError ''ring full''), d, w')
        else if opcode = EDU_OP_FACTORIAL \<or> opcode = EDU_OP_DMA_TEST
        then (Inr (), d\<lparr>ud_sq_tail := ud_sq_tail d + 1\<rparr>, w')
        else (Inl (RuntimeError ''bad opcode''), d, w'))"
  by (simp add: ud_ioctl_submit_def sys_ioctl_attached[OF assms] edu_ioctl_submit edu_ring_submit_ret Let_def)

lemma edu_poll_cq_cases:
  "edu_poll_cq e =
    (if cq_empty e then (Inl EAGAIN, e) else (Inr (report (cq_front e)), cq_advance e))"
  by (simp add: edu_poll_cq_def cq_empty_def report_def Let_def)

lemma ud_poll_attached:
  assumes "attached d w"
  shows "ud_poll_completion D E d w =
    (let e = entered D E w
     in if cq_empty e then (Inr None, w\<lparr>w_edu := e\<rparr>)
        else (Inr (Some (completion_of_req (report (cq_front e)))), w\<lparr>w_edu := cq_advance e\<rparr>))"
  by (simp add: ud_poll_completion_def sys_ioctl_attached[OF assms] edu_ioctl_poll edu_poll_cq_cases Let_def)

section \<open>The constructor\<close>

text \<open>
  What the system promises of new descriptors, whatever file it finds at the path: their numbers are
  not negative and not in use.
\<close>

definition fresh_answers :: "'h env \<Rightarrow> string \<Rightarrow> 'h world \<Rightarrow> bool" where
  "fresh_answers E path w \<longleftrightarrow>
     (case en_open E path of Inl _ \<Rightarrow> True
      | Inr (fd, f) \<Rightarrow> fd \<ge> 0 \<and> w_files w fd = None \<and>
          (case en_eventfd E of Inl _ \<Rightarrow> True | Inr (efd, c) \<Rightarrow> efd \<ge> 0 \<and> efd \<noteq> fd \<and> w_files w efd = None))"

text \<open>The driver's state after the \<open>open\<close>, and after the registration of the eventfd.\<close>

definition opened_edu :: "os_file \<Rightarrow> 'h world \<Rightarrow> 'h edu_dev" where
  "opened_edu f w = (if f = FileEdu then edu_open (w_edu w) else w_edu w)"

definition registered_edu :: "'h mmio \<Rightarrow> 'h env \<Rightarrow> nat \<Rightarrow> 'h world \<Rightarrow> 'h edu_dev" where
  "registered_edu D E c w =
     snd (edu_set_eventfd D (fst (en_wait1 E)) (Inr c) (edu_events D (en_pre E) (edu_open (w_edu w))))"

lemma ud_construct_eq:
  assumes "fresh_answers E path w"
  shows "ud_construct D E path w =
    (case en_open E path of
       Inl err \<Rightarrow> (throw_errno E (''open '' @ path) err, w)
     | Inr (fd, f) \<Rightarrow>
         (case en_eventfd E of
            Inl err \<Rightarrow> (throw_errno E ''eventfd'' err, w\<lparr>w_edu := opened_edu f w\<rparr>)
          | Inr (efd, c) \<Rightarrow>
              (let w' = w\<lparr>w_files := (w_files w)(fd \<mapsto> f, efd \<mapsto> FileEvent c)\<rparr>
               in if f = FileEdu
                  then (Inr (ud_empty\<lparr>ud_fd := fd, ud_evtfd := efd\<rparr>), w'\<lparr>w_edu := registered_edu D E c w\<rparr>)
                  else (throw_errno E ''EDU_IOC_SET_EVENTFD'' ENOTTY, env_run D (en_pre E) w'))))"
proof (cases "en_open E path")
  case (Inl err)
  then show ?thesis by (simp add: ud_construct_def sys_open_def)
next
  case (Inr p)
  then obtain fd f where p: "en_open E path = Inr (fd, f)" "w_files w fd = None"
    using assms by (cases p) (auto simp: fresh_answers_def)
  show ?thesis
  proof (cases "en_eventfd E")
    case (Inl err)
    have "(w_files w)(fd := None) = w_files w" using p(2) by auto
    then show ?thesis
      using p Inl by (simp add: ud_construct_def sys_open_def sys_eventfd_def sys_close_def opened_edu_def)
  next
    case (Inr q)
    then obtain efd c where q: "en_eventfd E = Inr (efd, c)" "efd \<noteq> fd"
      using assms p(1) by (cases q) (auto simp: fresh_answers_def)
    show ?thesis
      using p q
      by (cases f) (simp_all add: ud_construct_def sys_open_def sys_eventfd_def ud_register_eventfd_def ud_empty_def
          sys_ioctl_def env_run_def edu_ioctl_eventfd eventfd_fdget_def edu_set_eventfd_def registered_edu_def
          throw_errno_def Let_def)
  qed
qed

section \<open>Waiting\<close>

text \<open>The driver's state at poll number \<open>k\<close>, when no earlier poll found a completion.\<close>

definition at_poll :: "'h mmio \<Rightarrow> 'h env \<Rightarrow> nat \<Rightarrow> nat \<Rightarrow> 'h world \<Rightarrow> 'h edu_dev" where
  "at_poll D E i k w = edu_events D (concat (map (en_sch E) [i..<Suc k])) (w_edu w)"

definition wait_spec ::
    "'h mmio \<Rightarrow> 'h env \<Rightarrow> nat \<Rightarrow> nat \<Rightarrow> 'h world \<Rightarrow> completion option res \<times> 'h world" where
  "wait_spec D E i n w =
     (case find (\<lambda>k. \<not> cq_empty (at_poll D E i k w)) [i..<i + n] of
        None \<Rightarrow> (Inr None, w\<lparr>w_edu := edu_events D (concat (map (en_sch E) [i..<i + n])) (w_edu w)\<rparr>)
      | Some k \<Rightarrow> (Inr (Some (completion_of_req (report (cq_front (at_poll D E i k w))))),
                   w\<lparr>w_edu := cq_advance (at_poll D E i k w)\<rparr>))"

lemma concat_sch: "i \<le> k \<Longrightarrow> concat (map f [i..<Suc k]) = f i @ concat (map f [Suc i..<Suc k])"
  by (subst upt_conv_Cons) simp_all

lemma at_poll_next:
  "i < k \<Longrightarrow> at_poll D E i k w = at_poll D E (Suc i) k (w\<lparr>w_edu := edu_events D (en_sch E i) (w_edu w)\<rparr>)"
  by (simp add: at_poll_def concat_sch edu_events_append del: upt_Suc)

lemma find_cong': "(\<And>x. x \<in> set xs \<Longrightarrow> P x = Q x) \<Longrightarrow> find P xs = find Q xs"
  by (rule find_cong) simp_all

lemma wait_spec_Suc:
  "wait_spec D E i (Suc n) w =
    (let e = edu_events D (en_sch E i) (w_edu w)
     in if cq_empty e then wait_spec D E (Suc i) n (w\<lparr>w_edu := e\<rparr>)
        else (Inr (Some (completion_of_req (report (cq_front e)))), w\<lparr>w_edu := cq_advance e\<rparr>))"
proof -
  let ?e = "edu_events D (en_sch E i) (w_edu w)"
  let ?w = "w\<lparr>w_edu := ?e\<rparr>"
  have now: "at_poll D E i i w = ?e" by (simp add: at_poll_def)
  define ks where "ks = [Suc i..<Suc i + n]"
  have up: "[i..<i + Suc n] = i # ks" by (simp add: ks_def upt_conv_Cons del: upt_Suc)
  have later: "at_poll D E i k w = at_poll D E (Suc i) k ?w" if "k \<in> set ks" for k
    using that by (intro at_poll_next) (auto simp: ks_def)
  then have find: "find (\<lambda>k. \<not> cq_empty (at_poll D E i k w)) ks = find (\<lambda>k. \<not> cq_empty (at_poll D E (Suc i) k ?w)) ks"
    by (intro find_cong') simp
  have found: "at_poll D E i k w = at_poll D E (Suc i) k ?w" if "find P ks = Some k" for P k
    using that later[of k] by (auto simp: find_Some_iff)
  have "wait_spec D E (Suc i) n ?w = (case find (\<lambda>k. \<not> cq_empty (at_poll D E (Suc i) k ?w)) ks of
      None \<Rightarrow> (Inr None, w\<lparr>w_edu := edu_events D (concat (map (en_sch E) ks)) ?e\<rparr>)
    | Some k \<Rightarrow> (Inr (Some (completion_of_req (report (cq_front (at_poll D E (Suc i) k ?w))))),
                 w\<lparr>w_edu := cq_advance (at_poll D E (Suc i) k ?w)\<rparr>))"
    unfolding wait_spec_def ks_def by (simp del: upt_Suc split: option.split)
  then show ?thesis
    unfolding wait_spec_def up
    by (cases "cq_empty ?e") (simp_all add: now find found edu_events_append Let_def split: option.split)
qed

text \<open>The counter stays an \<open>int\<close>: it stops at the limit, which is one and which its steps divide.\<close>

lemma ud_wait_loop_spec:
  assumes "attached d w" and "int32 limit" and "500 * int n \<le> limit"
  shows "ud_wait_loop D E limit k (limit - 500 * int n) d w = wait_spec D E k n w"
  using assms
proof (induction n arbitrary: k w)
  case 0
  then show ?case by (simp add: ud_wait_loop.simps[of D E limit k limit] wait_spec_def)
next
  case (Suc n)
  have next': "limit - 500 * int (Suc n) + 500 = limit - 500 * int n" by simp
  have "int32 (limit - 500 * int n)" and le: "500 * int n \<le> limit" using Suc.prems(2,3) by (simp_all add: int32_def)
  then show ?case
    using Suc.IH[of "w\<lparr>w_edu := edu_events D (en_sch E k) (w_edu w)\<rparr>" "Suc k"] Suc.prems
    by (subst ud_wait_loop.simps) (simp add: ud_poll_attached wait_spec_Suc next' Let_def del: of_nat_Suc)
qed

lemma ud_wait_completion_spec:
  assumes "attached d w" and "int32 (timeout_ms * 1000)"
  shows "ud_wait_completion D E timeout_ms d w = wait_spec D E 0 (nat (2 * timeout_ms)) w"
proof (cases "timeout_ms < 0")
  case True
  then show ?thesis using assms(2)
    by (simp add: ud_wait_completion_def ud_wait_loop.simps[of D E "timeout_ms * 1000"] wait_spec_def)
next
  case False
  then have "timeout_ms * 1000 - 500 * int (nat (2 * timeout_ms)) = 0" by simp
  then show ?thesis
    using ud_wait_loop_spec[OF assms, of "nat (2 * timeout_ms)" D E 0] assms(2)
    by (simp add: ud_wait_completion_def)
qed

section \<open>One command through the class\<close>

text \<open>
  A device in state \<open>h\<close> that has a status to report: the status it reads, and the factorial
  register as the handler reads it after the acknowledgement.
\<close>

definition dev_fact :: "'h mmio \<Rightarrow> 'h \<Rightarrow> u32" where
  "dev_fact D h = (let (s, h) = io_readl D h EDU_REG_IRQ_STAT
     in fst (io_readl D (io_writel D h EDU_REG_IRQ_ACK s) EDU_REG_FACT))"

lemma irq_fact_bar0: "irq_fact D e = dev_fact D (bar0 e)"
  by (simp add: irq_fact_def dev_fact_def edu_readl_def edu_writel_def irq_acked_def split_def Let_def)

text \<open>While \<open>wait_completion\<close> sleeps for the \<open>k\<close>-th time the device gets to state \<open>h\<close> and interrupts;
  before that nothing happens.\<close>

definition answers_at :: "'h mmio \<Rightarrow> 'h env \<Rightarrow> nat \<Rightarrow> 'h \<Rightarrow> bool" where
  "answers_at D E k h \<longleftrightarrow> list_all (\<lambda>j. en_sch E j = []) [0..<k] \<and> en_sch E k = [EvDevice h, EvIrq] \<and>
     dev_status D h \<noteq> 0"

lemma at_poll_answers:
  assumes "answers_at D E k h"
  shows "j < k \<Longrightarrow> at_poll D E 0 j w = w_edu w"
    and "at_poll D E 0 k w = snd (edu_irq_handler D ((w_edu w)\<lparr>bar0 := h\<rparr>))"
proof -
  have quiet: "concat (map (en_sch E) [0..<j]) = []" if "j \<le> k" for j
    using assms that by (auto simp: answers_at_def list_all_iff)
  then show "at_poll D E 0 j w = w_edu w" if "j < k"
    unfolding at_poll_def using that quiet[of "Suc j"] by (simp only: Suc_leI edu_events_simps)
  show "at_poll D E 0 k w = snd (edu_irq_handler D ((w_edu w)\<lparr>bar0 := h\<rparr>))"
    using assms arg_cong[OF quiet[of k], of "\<lambda>evs. edu_events D evs (w_edu w)"]
    by (simp add: at_poll_def answers_at_def edu_events_append)
qed

lemma find_first:
  "k < n \<Longrightarrow> P k \<Longrightarrow> (\<And>j. j < k \<Longrightarrow> \<not> P j) \<Longrightarrow> find P [0..<n] = Some k"
  by (auto simp: find_Some_iff intro!: exI[of _ k])

lemma edu_submit_served:
  assumes "\<not> ring_full (sq_tail e) (cq_head e)"
  shows "(snd (edu_ring_submit D r e))\<lparr>bar0 := h\<rparr> = snd (edu_ring_enqueue r (e\<lparr>bar0 := h\<rparr>))"
  using assms by (simp add: edu_ring_submit_snd edu_ring_enqueue_def Let_def)

lemma cq_empty_iff: "ring_inv e \<Longrightarrow> cq_empty e \<longleftrightarrow> cq_list e = []"
  using cq.empty_iff[OF ring_invD(1)] .

text \<open>What is in the completion queue once a command on idle rings has been served, and where the
  rings are after its completion has been taken.\<close>

lemma idle_at_served:
  assumes idle: "idle_at i e" and st: "dev_status D h \<noteq> 0" and "sub_opcode r \<noteq> 0"
  defines "e2 \<equiv> snd (edu_irq_handler D ((snd (edu_ring_submit D r e))\<lparr>bar0 := h\<rparr>))"
  shows "\<not> cq_empty e2" and "cq_front e2 = abs_completion (dev_fact D h) (sq_entry_of r)"
    and "idle_at ((i + 1) mod RING_SIZE) (cq_advance e2)"
proof -
  let ?e = "e\<lparr>bar0 := h\<rparr>"
  let ?e1 = "snd (edu_ring_enqueue r ?e)"
  have idle': "idle_at i ?e" using idle by simp
  note I = idle_atD[OF idle']
  have e2: "e2 = snd (edu_irq_handler D ?e1)"
    using I(6) by (simp add: e2_def edu_submit_served)
  have b: "bar0 ?e1 = h" by (simp add: edu_ring_enqueue_def Let_def)
  have st1: "irq_status D ?e1 \<noteq> 0" using st b by (simp add: irq_status_bar0)
  have inv1: "ring_inv ?e1" by (rule ring_inv_enqueue[OF I(1)])
  have "busy_slots ?e1 = [unat (sq_tail ?e)]" using busy_slots_enqueue[OF I(1,3,6) assms(3)] .
  then have "cq_list e2 = cq_list ?e1 @ [abs_completion (irq_fact D ?e1) (sq_get (dma_virt ?e1) (unat (sq_tail ?e)))]"
    unfolding e2 by (rule cq_list_irq_slot[OF inv1 st1])
  moreover have "sq_get (dma_virt ?e1) (unat (sq_tail ?e)) = sq_entry_of r" by (rule sq_get_enqueue[OF I(1,6)])
  moreover have "cq_list ?e1 = []" using I(1,5) by simp
  ultimately have list: "cq_list e2 = [abs_completion (dev_fact D h) (sq_entry_of r)]"
    by (simp add: irq_fact_bar0 b)
  have inv2: "ring_inv e2" unfolding e2 by (rule ring_inv_irq[OF inv1])
  show ne: "\<not> cq_empty e2" using cq_empty_iff[OF inv2] list by simp
  show "cq_front e2 = abs_completion (dev_fact D h) (sq_entry_of r)"
    using cq_front_hd[OF ring_invD(1)[OF inv2] ne] list by simp
  show "idle_at ((i + 1) mod RING_SIZE) (cq_advance e2)"
    using idle_at_round_trip[OF idle' st1 assms(3)] ne by (simp add: round_trip_def e2 edu_poll_cq_cases)
qed

lemma idle_at_submitted:
  assumes idle: "idle_at i e"
  shows "cq_empty (snd (edu_ring_submit D r e))"
proof -
  note I = idle_atD[OF idle]
  have "cq_empty (snd (edu_ring_enqueue r e)) = cq_empty e"
    by (simp add: edu_ring_enqueue_def cq_empty_def Let_def)
  moreover have "cq_empty (snd (edu_ring_kick D r x)) = cq_empty x" for x :: "'a edu_dev"
    by (simp add: cq_empty_def)
  ultimately show ?thesis
    using idle I(6) by (simp add: edu_ring_submit_snd) (simp add: cq_empty_def idle_at_def)
qed

lemma inject_submit [simp]: "inject_fault (snd (edu_ring_submit D r e)) = inject_fault e"
proof -
  have "inject_fault (snd (edu_ring_kick D r x)) = inject_fault x" for x :: "'a edu_dev"
    by (subst edu_ring_kick_snd) simp
  moreover have "inject_fault (snd (edu_ring_enqueue r e)) = inject_fault e"
    by (simp add: edu_ring_enqueue_def Let_def)
  ultimately show ?thesis
    by (cases "ring_full (sq_tail e) (cq_head e)")
      (simp add: edu_ring_submit_def edu_ring_enqueue_def Let_def, simp add: edu_ring_submit_snd)
qed

text \<open>The completion a caller gets for a command, given the value in the factorial register.\<close>

definition served :: "u16 \<Rightarrow> u8 \<Rightarrow> u32 \<Rightarrow> completion" where
  "served tag opcode v = \<lparr>co_tag = tag, co_status = 0, co_result = (if opcode = EDU_OP_FACTORIAL then v else 0)\<rparr>"

lemma ud_wait_served:
  assumes "attached d w" and "int32 (timeout_ms * 1000)" and "int k < 2 * timeout_ms"
    and ans: "answers_at D E k h" and idle: "idle_at i e" and "sub_opcode r \<noteq> 0"
    and e1: "w_edu w = snd (edu_ring_submit D r e)"
  shows "\<exists>e2. ud_wait_completion D E timeout_ms d w =
      (Inr (Some (served (sub_tag r) (sub_opcode r) (dev_fact D h))), w\<lparr>w_edu := e2\<rparr>) \<and>
    idle_at ((i + 1) mod RING_SIZE) e2 \<and> inject_fault e2 = inject_fault e"
proof -
  have st: "dev_status D h \<noteq> 0" using ans by (simp add: answers_at_def)
  note S = idle_at_served[OF idle st assms(6)]
  note A = at_poll_answers[OF ans, where w = w]
  have "find (\<lambda>k. \<not> cq_empty (at_poll D E 0 k w)) [0..<nat (2 * timeout_ms)] = Some k"
    using A S(1) assms(3) idle_at_submitted[OF idle, of D r]
    by (intro find_first) (simp_all add: e1)
  then have "ud_wait_completion D E timeout_ms d w =
      (Inr (Some (completion_of_req (report (cq_front (at_poll D E 0 k w))))), w\<lparr>w_edu := cq_advance (at_poll D E 0 k w)\<rparr>)"
    unfolding ud_wait_completion_spec[OF assms(1,2)] wait_spec_def by simp
  moreover have "completion_of_req (report (cq_front (at_poll D E 0 k w))) =
      served (sub_tag r) (sub_opcode r) (dev_fact D h)"
    using A(2) S(2) by (simp add: e1 completion_of_req_def report_def served_def abs_completion_def sq_entry_of_def)
  moreover have "inject_fault (cq_advance (at_poll D E 0 k w)) = inject_fault e"
    using A(2) by (simp add: e1) (simp add: cq_advance_def)
  ultimately show ?thesis using A(2) S(3) by (intro exI[of _ "cq_advance (at_poll D E 0 k w)"]) (simp add: e1)
qed

end
