(* ===== verification/User_Claims.thy ===== *)
theory User_Claims
  imports User_Calls
begin

text \<open>
  Properties of the class \<open>EduDevice\<close> over the driver: the bounded wait, the round trip of a command,
  when the zero-copy path is the copying path and when it overwrites another command, and the
  descriptors a failing constructor leaves open.
\<close>

section \<open>An object and an environment to evaluate at\<close>

definition wit_device :: edu_device where
  "wit_device = \<lparr>ud_fd = 3, ud_evtfd = 4, ud_ring_map = 0x7000, ud_rings_mapped = True, ud_sq_tail = 0\<rparr>"

definition wit_world :: "access list world" where
  "wit_world = \<lparr>w_edu = edu_open wit_edu, w_files = [3 \<mapsto> FileEdu, 4 \<mapsto> FileEvent 1], w_maps = {0x7000}, w_bad = 0\<rparr>"

text \<open>Nothing happens but what \<open>sch\<close> says during the sleeps of \<open>wait_completion\<close>.\<close>

definition quiet_env :: "(nat \<Rightarrow> 'h edu_event list) \<Rightarrow> 'h env" where
  "quiet_env sch = \<lparr>en_pre = [], en_wait1 = ([], []), en_wait2 = ([], []), en_sch = sch,
     en_strerror = (\<lambda>_. ''error''), en_open = (\<lambda>_. Inl ENODEV), en_eventfd = Inl ENOMEM,
     en_mmap = Inl ENOMEM, en_pfn = 0, en_remap = (\<lambda>_ _ _. ok)\<rparr>"

lemma quiet_env_simps [simp]: "en_pre (quiet_env sch) = []" "en_sch (quiet_env sch) = sch"
  by (simp_all add: quiet_env_def)

lemma wit_device_simps [simp]:
  "attached wit_device wit_world" "ud_rings_mapped wit_device" "ud_ring_map wit_device \<in> w_maps wit_world"
  "ud_sq_tail wit_device = 0" "idle_at 0 (w_edu wit_world)"
  by (simp_all add: wit_device_def wit_world_def attached_def idle_at_open)

lemma dev_status_wit [simp]: "dev_status wit_dev h = 1"
  by (simp add: dev_status_def wit_dev_def wit_regs_def)

lemma dev_fact_wit [simp]: "dev_fact wit_dev h = 120"
  by (simp add: dev_fact_def wit_dev_def wit_regs_def edu_regs)

text \<open>The device of the witnesses answers during sleep number 1.\<close>

definition wit_sch :: "nat \<Rightarrow> access list edu_event list" where
  "wit_sch j = (if j = 1 then [EvDevice [], EvIrq] else [])"

lemma wit_answers: "answers_at wit_dev (quiet_env wit_sch) 1 []"
  by (simp add: answers_at_def wit_sch_def)

section \<open>The bounded wait\<close>

text \<open>C16. \<open>wait_completion\<close> with a timeout whose microseconds fit in an \<open>int\<close> ends after at most two
  polls for each millisecond: it returns the completion the first successful poll finds, or nothing
  when all of them find the queue empty, and its own counter, which is an \<open>int\<close> as well, never
  overflows. With a timeout of 0 or less it does not poll at all. A longer timeout, from 2147484 ms
  on, overflows the \<open>int\<close> of the limit before the first poll.\<close>

theorem wait_completion_polls:
  assumes "attached d w"
  shows "if int32 (timeout_ms * 1000)
    then (\<exists>k. int k < 2 * timeout_ms \<and> \<not> cq_empty (at_poll D E 0 k w) \<and>
        (\<forall>j < k. cq_empty (at_poll D E 0 j w)) \<and>
        ud_wait_completion D E timeout_ms d w =
          (Inr (Some (completion_of_req (report (cq_front (at_poll D E 0 k w))))),
           w\<lparr>w_edu := cq_advance (at_poll D E 0 k w)\<rparr>)) \<or>
      ((\<forall>k < nat (2 * timeout_ms). cq_empty (at_poll D E 0 k w)) \<and>
        ud_wait_completion D E timeout_ms d w =
          (Inr None, w\<lparr>w_edu := edu_events D (concat (map (en_sch E) [0..<nat (2 * timeout_ms)])) (w_edu w)\<rparr>))
    else ud_wait_completion D E timeout_ms d w = (Inl Undefined, w)"
proof (cases "int32 (timeout_ms * 1000)")
  case False
  then show ?thesis by (simp add: ud_wait_completion_def)
next
  case True
  let ?P = "\<lambda>k. \<not> cq_empty (at_poll D E 0 k w)"
  let ?ks = "[0..<nat (2 * timeout_ms)]"
  note spec = ud_wait_completion_spec[OF assms True, of D E, unfolded wait_spec_def add_0]
  show ?thesis
  proof (cases "find ?P ?ks")
    case None
    then have "ud_wait_completion D E timeout_ms d w =
        (Inr None, w\<lparr>w_edu := edu_events D (concat (map (en_sch E) ?ks)) (w_edu w)\<rparr>)"
      unfolding spec by (simp only: option.case)
    then show ?thesis using None True by (auto simp: find_None_iff)
  next
    case (Some k)
    then have "int k < 2 * timeout_ms \<and> ?P k \<and> (\<forall>j < k. cq_empty (at_poll D E 0 j w))"
      by (auto simp: find_Some_iff)
    moreover have "ud_wait_completion D E timeout_ms d w =
        (Inr (Some (completion_of_req (report (cq_front (at_poll D E 0 k w))))),
         w\<lparr>w_edu := cq_advance (at_poll D E 0 k w)\<rparr>)"
      using Some unfolding spec by (simp only: option.case)
    ultimately show ?thesis using True by (simp only: if_True) blast
  qed
qed

text \<open>A command is submitted, and its completion is there at poll number 1 of at most 4.\<close>

theorem wait_completion_polls_witness:
  "\<exists>w k. k < 4 \<and> fst (ud_wait_completion wit_dev (quiet_env wit_sch) 2 wit_device w) =
    Inr (Some (completion_of_req (report (cq_front (at_poll wit_dev (quiet_env wit_sch) 0 k w)))))"
proof -
  define w where "w = wit_world\<lparr>w_edu := snd (edu_ring_submit wit_dev (wit_req 7) (w_edu wit_world))\<rparr>"
  have att: "attached wit_device w" by (simp add: w_def)
  have "dev_status wit_dev [] \<noteq> 0" "sub_opcode (wit_req 7) \<noteq> 0" by (simp_all add: edu_ops)
  from idle_at_served(1)[OF wit_device_simps(5) this]
  have "\<not> cq_empty (at_poll wit_dev (quiet_env wit_sch) 0 1 w)"
    using at_poll_answers(2)[OF wit_answers, of w] by (simp add: w_def)
  moreover have "int32 (2 * 1000)" by (simp add: int32_def)
  ultimately show ?thesis
    using wait_completion_polls[OF att, where timeout_ms = 2 and D = wit_dev and E = "quiet_env wit_sch"]
    by (intro exI[of _ w]) (auto simp del: int_ops)
qed

section \<open>The round trip through the class\<close>

text \<open>C4. A command submitted on idle rings through the class and awaited is answered: when the device
  finishes it, in whatever state \<open>h\<close>, and interrupts during one of the sleeps of
  \<open>wait_completion\<close>, the caller gets its tag, status 0 and the factorial register, the rings are
  idle one slot further and the object's own tail has moved with the driver's.\<close>

theorem client_round_trip:
  assumes "attached d w" and "idle_at i (edu_events D (en_pre E) (w_edu w))"
    and "opcode = EDU_OP_FACTORIAL \<or> opcode = EDU_OP_DMA_TEST"
    and "answers_at D E' k h" and "int k < 2 * timeout_ms" and "int32 (timeout_ms * 1000)"
  shows "\<exists>d' w' e'. ud_submit D E tag opcode operand d w = (Inr (), d', w') \<and>
    ud_wait_completion D E' timeout_ms d' w' =
      (Inr (Some (served tag opcode (dev_fact D h))), w'\<lparr>w_edu := e'\<rparr>) \<and>
    idle_at ((i + 1) mod RING_SIZE) e' \<and> ud_sq_tail d' = ud_sq_tail d + 1"
proof -
  let ?e = "edu_events D (en_pre E) (w_edu w)" and ?r = "request tag opcode operand"
  let ?d = "d\<lparr>ud_sq_tail := ud_sq_tail d + 1\<rparr>" and ?w = "w\<lparr>w_edu := snd (edu_ring_submit D ?r ?e)\<rparr>"
  have "ud_submit D E tag opcode operand d w = (Inr (), ?d, ?w)"
    using idle_atD(6)[OF assms(2)] assms(3)
    by (simp add: ud_submit_def ud_ioctl_submit_attached[OF assms(1)] Let_def)
  moreover have "sub_opcode ?r \<noteq> 0" using assms(3) by (auto simp: edu_ops)
  then have "\<exists>e'. ud_wait_completion D E' timeout_ms ?d ?w =
      (Inr (Some (served tag opcode (dev_fact D h))), ?w\<lparr>w_edu := e'\<rparr>) \<and> idle_at ((i + 1) mod RING_SIZE) e'"
    using ud_wait_served[OF _ assms(6,5,4,2), of ?d ?w ?r] assms(1) by auto
  ultimately show ?thesis by auto
qed

theorem client_round_trip_witness:
  "\<exists>d' w' e'. ud_submit wit_dev (quiet_env (\<lambda>_. [])) 7 EDU_OP_FACTORIAL 5 wit_device wit_world = (Inr (), d', w') \<and>
    ud_wait_completion wit_dev (quiet_env wit_sch) 1 d' w' =
      (Inr (Some \<lparr>co_tag = 7, co_status = 0, co_result = 120\<rparr>), w'\<lparr>w_edu := e'\<rparr>)"
  using client_round_trip[of wit_device wit_world 0 wit_dev "quiet_env (\<lambda>_. [])" EDU_OP_FACTORIAL
      "quiet_env wit_sch" 1 "[]" 1 7 5] wit_answers
  by (auto simp: int32_def served_def)

section \<open>The zero-copy path\<close>

text \<open>The object's count of its submissions points at the slot the driver will fill next.\<close>

definition synced :: "edu_device \<Rightarrow> 'h world \<Rightarrow> bool" where
  "synced d w \<longleftrightarrow> ud_sq_tail d AND RING_MASK = sq_tail (w_edu w)"

definition mapped :: "edu_device \<Rightarrow> 'h world \<Rightarrow> bool" where
  "mapped d w \<longleftrightarrow> ud_rings_mapped d \<and> ud_ring_map d \<in> w_maps w"

text \<open>The driver's state after the store the zero-copy path makes before its ioctl.\<close>

definition zc_stored :: "edu_device \<Rightarrow> edu_submit_req \<Rightarrow> 'h edu_dev \<Rightarrow> 'h edu_dev" where
  "zc_stored d r e = e\<lparr>dma_virt := sq_put (dma_virt e) (unat (ud_sq_tail d AND RING_MASK)) (sq_entry_of r)\<rparr>"

lemma zc_stored_fields [simp]:
  "sq_tail (zc_stored d r e) = sq_tail e" "cq_head (zc_stored d r e) = cq_head e"
  by (simp_all add: zc_stored_def)

lemma ud_submit_zc_mapped:
  "mapped d w \<Longrightarrow> ud_submit_zc D E tag opcode operand d w =
    ud_ioctl_submit D E tag opcode operand d (w\<lparr>w_edu := zc_stored d (request tag opcode operand) (w_edu w)\<rparr>)"
  by (simp add: ud_submit_zc_def mapped_def ud_sq_ptr_def store_sq_def zc_stored_def sq_entry_of_def Let_def)

lemma mem_write_twice: "length bs = length cs \<Longrightarrow> mem_write (mem_write m off bs) off cs = mem_write m off cs"
  by (rule ext) (simp add: mem_write_def)

lemma sq_put_twice [simp]: "sq_put (sq_put m i s) i t = sq_put m i t"
  by (simp add: sq_put_def mem_write_twice)

lemma zc_stored_enqueue:
  assumes "\<not> ring_full (sq_tail e) (cq_head e)" and "ud_sq_tail d AND RING_MASK = sq_tail e" and "ring_inv e"
  shows "edu_ring_submit D r (zc_stored d r e) = edu_ring_submit D r e"
proof -
  have "edu_ring_enqueue r (zc_stored d r e) = edu_ring_enqueue r e"
    using assms ring_invD(2)[OF assms(3)] by (simp add: edu_ring_enqueue_room zc_stored_def)
  then show ?thesis by (simp add: edu_ring_submit_def)
qed

lemma ring_mask_next: "(x + 1) AND RING_MASK = ring_next (x AND RING_MASK)"
  by (simp add: word_unat_eq_iff unat_ring_mask unat_ring_next unat_word_ariths RING_SIZE_def
      mod_mod_cancel mod_simps)

text \<open>C25. While the object's tail is the driver's, the zero-copy submission on rings with room is the
  copying one, in its answer and in every byte it leaves: the driver writes the same entry to the
  same slot again. On full rings it answers ''ring full'' and changes only the bytes of the slot at the tail. The two
  tails stay together in both cases, unless the command is refused for its opcode.\<close>

theorem zc_submit_is_submit:
  assumes "attached d w" and "mapped d w" and "synced d w" and "ring_inv (w_edu w)" and "en_pre E = []"
  shows "(if ring_full (sq_tail (w_edu w)) (cq_head (w_edu w))
      then ud_submit_zc D E tag opcode operand d w =
        (Inl (RuntimeError ''ring full''), d, w\<lparr>w_edu := zc_stored d (request tag opcode operand) (w_edu w)\<rparr>)
      else ud_submit_zc D E tag opcode operand d w = ud_submit D E tag opcode operand d w) \<and>
    (if fst (ud_submit_zc D E tag opcode operand d w) = Inl (RuntimeError ''bad opcode'') then True
     else synced (fst (snd (ud_submit_zc D E tag opcode operand d w))) (snd (snd (ud_submit_zc D E tag opcode operand d w))))"
proof (cases "ring_full (sq_tail (w_edu w)) (cq_head (w_edu w))")
  case True
  let ?r = "request tag opcode operand"
  let ?w = "w\<lparr>w_edu := zc_stored d ?r (w_edu w)\<rparr>"
  have full: "ring_full (sq_tail (w_edu ?w)) (cq_head (w_edu ?w))" using True by simp
  then have "edu_ring_submit D ?r (w_edu ?w) = (Inl ENOSPC, w_edu ?w)"
    by (simp add: edu_ring_submit_def edu_ring_enqueue_full)
  then have "ud_submit_zc D E tag opcode operand d w = (Inl (RuntimeError ''ring full''), d, ?w)"
    using full assms(1,5) by (simp add: ud_submit_zc_mapped[OF assms(2)] ud_ioctl_submit_attached Let_def)
  then show ?thesis using True assms(3) by (simp add: synced_def zc_stored_def)
next
  case False
  let ?r = "request tag opcode operand"
  have eq: "ud_submit_zc D E tag opcode operand d w = ud_submit D E tag opcode operand d w"
    using False assms zc_stored_enqueue[of "w_edu w" d D ?r]
    by (simp add: ud_submit_zc_mapped ud_submit_def ud_ioctl_submit_attached synced_def Let_def)
  have "sq_tail (snd (edu_ring_submit D ?r (w_edu w))) = ring_next (sq_tail (w_edu w))"
    using False ring_invD(2)[OF assms(4)] by (simp add: edu_ring_submit_snd edu_ring_enqueue_room)
  then show ?thesis
    using False assms(1,3,5) unfolding eq
    by (simp add: ud_submit_def ud_ioctl_submit_attached synced_def ring_mask_next Let_def)
qed

theorem zc_submit_is_submit_witness:
  "ud_submit_zc wit_dev (quiet_env (\<lambda>_. [])) 7 EDU_OP_FACTORIAL 5 wit_device wit_world =
    ud_submit wit_dev (quiet_env (\<lambda>_. [])) 7 EDU_OP_FACTORIAL 5 wit_device wit_world"
proof -
  note I = idle_atD[OF wit_device_simps(5)]
  have "sq_tail (w_edu wit_world) = 0" using I(2) by (simp add: word_unat_eq_iff)
  then show ?thesis
    using zc_submit_is_submit[of wit_device wit_world "quiet_env (\<lambda>_. [])" wit_dev 7 EDU_OP_FACTORIAL 5] I
    by (simp add: synced_def mapped_def)
qed

text \<open>
  A command the driver refuses for its opcode has taken a slot, which the object does not count: its
  tail is then one behind. Three submissions after an open: opcode 0, a command by the copying
  path, a command by the zero-copy path.
\<close>

lemma refused_then_two:
  fixes D :: "'h mmio" and e :: "'h edu_dev"
  assumes idle: "idle_at 0 e" and ops: "sub_opcode r0 = 0" "sub_opcode r1 = EDU_OP_FACTORIAL"
    "sub_opcode r2 = EDU_OP_FACTORIAL" and "ud_sq_tail d = 1"
  defines "e1 \<equiv> snd (edu_ring_submit D r1 (snd (edu_ring_submit D r0 e)))"
  defines "e2 \<equiv> snd (edu_ring_submit D r2 (zc_stored d r2 e1))"
  shows "\<not> ring_full (sq_tail (snd (edu_ring_submit D r0 e))) (cq_head (snd (edu_ring_submit D r0 e)))"
    and "\<not> ring_full (sq_tail e1) (cq_head e1)"
    and "ring_inv e2" and "busy_slots e2 = [1, 2]"
    and "sq_get (dma_virt e2) 1 = sq_entry_of r2" and "sq_get (dma_virt e2) 2 = sq_entry_of r2"
proof -
  note I = idle_atD[OF idle]
  have z: "sq_tail e = 0" "cq_head e = 0"
    using idle I(2) by (auto simp: idle_at_def word_unat_eq_iff)
  have len: "length (inflight e) = RING_SIZE" by (rule ring_invD(5)[OF I(1)])
  have nf: "\<not> ring_full 0 0" "\<not> ring_full 1 0" "\<not> ring_full 2 0"
    and nx: "ring_next 0 = 1" "ring_next 1 = 2" "ring_next 2 = 3"
    by (simp_all add: ring_full_def ring_next_def RING_MASK_def RING_SIZE_def)
  let ?e0 = "snd (edu_ring_submit D r0 e)"
  have s0: "sq_tail ?e0 = 1" "cq_head ?e0 = 0" "inflight ?e0 = (inflight e)[0 := 0]"
    using nf nx z ops by (simp_all add: edu_ring_submit_snd edu_ring_enqueue_room RING_SIZE_def)
  have s1: "sq_tail e1 = 2" "cq_head e1 = 0" "inflight e1 = ((inflight e)[0 := 0])[1 := EDU_OP_FACTORIAL]"
    using nf nx s0 ops unfolding e1_def by (simp_all add: edu_ring_submit_snd edu_ring_enqueue_room RING_SIZE_def)
  show "\<not> ring_full (sq_tail ?e0) (cq_head ?e0)" "\<not> ring_full (sq_tail e1) (cq_head e1)"
    using nf s0 s1 by simp_all
  have m: "unat (ud_sq_tail d AND RING_MASK) = 1" using assms(5) by (simp add: unat_ring_mask RING_SIZE_def)
  have s2: "inflight e2 = (((inflight e)[0 := 0])[1 := EDU_OP_FACTORIAL])[2 := EDU_OP_FACTORIAL]"
    "dma_virt e2 = sq_put (sq_put (dma_virt e1) 1 (sq_entry_of r2)) 2 (sq_entry_of r2)"
    using nf s1 ops m unfolding e2_def
    by (simp_all add: edu_ring_submit_snd edu_ring_enqueue_room RING_SIZE_def) (simp_all add: zc_stored_def)
  have "{j. j < RING_SIZE \<and> inflight e2 ! j \<noteq> 0} = {1, 2}"
    using len inflight_idle[OF I(1,3)]
    by (auto simp: s2 nth_list_update edu_ops RING_SIZE_def split: if_splits)
  then show "busy_slots e2 = [1, 2]" by (simp add: busy_slots_sorted)
  show "sq_get (dma_virt e2) 1 = sq_entry_of r2" "sq_get (dma_virt e2) 2 = sq_entry_of r2"
    by (simp_all add: s2)
  have keep: "ring_inv (snd (edu_ring_submit D r x))" if "ring_inv x" for r and x :: "'h edu_dev"
    using that by (rule ring_inv_submit)
  have "ring_inv (zc_stored d r2 e1)" using keep[OF keep[OF I(1)]] by (simp add: e1_def zc_stored_def)
  then show "ring_inv e2" unfolding e2_def by (rule keep)
qed

lemma two_interrupts:
  assumes "ring_inv e" and "busy_slots e = [i, j]" and "dev_status D h \<noteq> 0" and "dev_status D h' \<noteq> 0"
  shows "map cq_tag (run_posts D [EvDevice h, EvIrq, EvDevice h', EvIrq] e) =
    [sq_tag (sq_get (dma_virt e) i), sq_tag (sq_get (dma_virt e) j)]"
proof -
  let ?e = "snd (edu_irq_handler D (e\<lparr>bar0 := h\<rparr>))"
  have st: "irq_status D (e\<lparr>bar0 := h\<rparr>) \<noteq> 0" using assms(3) by (simp add: irq_status_bar0)
  have b: "busy_slots ?e = [j]" using busy_slots_irq[OF _ st] assms(1,2) by simp
  have "j < RING_SIZE" using assms(2) busy_slots_less[of j e] by simp
  then show ?thesis
    using assms st b by (simp add: completion_of_def irq_status_bar0)
qed

text \<open>C30. After a refused opcode the zero-copy path destroys another command: of a refused
  submission, a copying and a zero-copy submission after an open, the last stores its entry into the
  slot of the second, which is in flight, and the driver stores it again in the next slot. Both
  interrupts that follow are then reported with the tag of the last command, and the second
  command's tag is never reported, although both submissions were accepted.\<close>

theorem zc_after_refusal_overwrites:
  assumes "attached d w" and "mapped d w" and "ud_sq_tail d = 0" and "idle_at 0 (w_edu w)" and "en_pre E = []"
    and "dev_status D h \<noteq> 0" and "dev_status D h' \<noteq> 0"
  shows "let (r0, d0, w0) = ud_submit D E t0 0 x0 d w;
      (r1, d1, w1) = ud_submit D E t1 EDU_OP_FACTORIAL x1 d0 w0;
      (r2, d2, w2) = ud_submit_zc D E t2 EDU_OP_FACTORIAL x2 d1 w1
    in r0 = Inl (RuntimeError ''bad opcode'') \<and> r1 = Inr () \<and> r2 = Inr () \<and>
       map cq_tag (run_posts D [EvDevice h, EvIrq, EvDevice h', EvIrq] (w_edu w2)) = [t2, t2]"
proof -
  let ?r0 = "request t0 0 x0" and ?r1 = "request t1 EDU_OP_FACTORIAL x1"
    and ?r2 = "request t2 EDU_OP_FACTORIAL x2" and ?d = "d\<lparr>ud_sq_tail := 1\<rparr>"
  let ?e0 = "snd (edu_ring_submit D ?r0 (w_edu w))"
  let ?e1 = "snd (edu_ring_submit D ?r1 ?e0)"
  let ?e2 = "snd (edu_ring_submit D ?r2 (zc_stored ?d ?r2 ?e1))"
  have ops: "sub_opcode ?r0 = 0" "sub_opcode ?r1 = EDU_OP_FACTORIAL" "sub_opcode ?r2 = EDU_OP_FACTORIAL"
    and tail: "ud_sq_tail ?d = 1" by simp_all
  note R = refused_then_two[OF assms(4) ops tail, of D]
  have c0: "ud_submit D E t0 0 x0 d w = (Inl (RuntimeError ''bad opcode''), d, w\<lparr>w_edu := ?e0\<rparr>)"
    using assms(1,5) idle_atD(6)[OF assms(4)] by (simp add: ud_submit_def ud_ioctl_submit_attached Let_def edu_ops)
  have c1: "ud_submit D E t1 EDU_OP_FACTORIAL x1 d (w\<lparr>w_edu := ?e0\<rparr>) = (Inr (), ?d, w\<lparr>w_edu := ?e1\<rparr>)"
    using assms(1,3,5) R(1) by (simp add: ud_submit_def ud_ioctl_submit_attached Let_def)
  have c2: "ud_submit_zc D E t2 EDU_OP_FACTORIAL x2 ?d (w\<lparr>w_edu := ?e1\<rparr>) =
      (Inr (), ?d\<lparr>ud_sq_tail := 2\<rparr>, w\<lparr>w_edu := ?e2\<rparr>)"
    using assms(1,2,5) R(2)
    by (simp add: ud_submit_zc_mapped mapped_def ud_ioctl_submit_attached Let_def)
  have "map cq_tag (run_posts D [EvDevice h, EvIrq, EvDevice h', EvIrq] ?e2) = [t2, t2]"
    unfolding two_interrupts[OF R(3,4) assms(6,7)] R(5,6) by (simp add: sq_entry_of_def)
  then show ?thesis by (simp add: c0 c1 c2 del: run_posts.simps)
qed

theorem zc_after_refusal_overwrites_witness:
  "let (r0, d0, w0) = ud_submit wit_dev (quiet_env (\<lambda>_. [])) 1 0 0 wit_device wit_world;
      (r1, d1, w1) = ud_submit wit_dev (quiet_env (\<lambda>_. [])) 2 EDU_OP_FACTORIAL 5 d0 w0;
      (r2, d2, w2) = ud_submit_zc wit_dev (quiet_env (\<lambda>_. [])) 3 EDU_OP_FACTORIAL 6 d1 w1
    in r0 = Inl (RuntimeError ''bad opcode'') \<and> r1 = Inr () \<and> r2 = Inr () \<and>
       map cq_tag (run_posts wit_dev [EvDevice [], EvIrq, EvDevice [], EvIrq] (w_edu w2)) = [3, 3]"
  by (rule zc_after_refusal_overwrites) (simp_all add: mapped_def)

section \<open>A failing constructor\<close>

text \<open>C35. The constructor and its failures, whatever file is at the path. A failing \<open>open\<close> changes
  nothing; a failing \<open>eventfd\<close> leaves no descriptor open, on the driver's file and on any other. On
  the driver's file nothing else fails: the object has both descriptors. On any other file it throws
  from its last step and leaves both descriptors open, with nobody left to close them, since the
  destructor of an object whose constructor threw does not run.\<close>

theorem failed_registration_leaks:
  assumes "fresh_answers E path w"
  shows "(\<forall>err. en_open E path = Inl err \<longrightarrow>
      ud_construct D E path w = (throw_errno E (''open '' @ path) err, w)) \<and>
    (\<forall>fd f err. en_open E path = Inr (fd, f) \<and> en_eventfd E = Inl err \<longrightarrow>
      fst (ud_construct D E path w) = throw_errno E ''eventfd'' err \<and>
      (let w' = snd (ud_construct D E path w)
       in w_files w' = w_files w \<and> w_maps w' = w_maps w \<and> w_bad w' = w_bad w)) \<and>
    (\<forall>fd f efd c. en_open E path = Inr (fd, f) \<and> en_eventfd E = Inr (efd, c) \<longrightarrow>
      fst (ud_construct D E path w) =
        (if f = FileEdu then Inr (ud_empty\<lparr>ud_fd := fd, ud_evtfd := efd\<rparr>)
         else throw_errno E ''EDU_IOC_SET_EVENTFD'' ENOTTY) \<and>
      (let w' = snd (ud_construct D E path w)
       in w_files w' = (w_files w)(fd \<mapsto> f, efd \<mapsto> FileEvent c) \<and> w_maps w' = w_maps w \<and> w_bad w' = w_bad w))"
  by (simp add: ud_construct_eq[OF assms] env_run_def Let_def)

theorem failed_registration_leaks_witness:
  "fst (ud_construct wit_dev ((quiet_env (\<lambda>_. []))\<lparr>en_open := (\<lambda>_. Inr (5, FileOther)), en_eventfd := Inr (6, 2)\<rparr>)
      ''/dev/null'' wit_world) = Inl (RuntimeError ''EDU_IOC_SET_EVENTFD: error'') \<and>
    w_files (snd (ud_construct wit_dev ((quiet_env (\<lambda>_. []))\<lparr>en_open := (\<lambda>_. Inr (5, FileOther)), en_eventfd := Inr (6, 2)\<rparr>)
      ''/dev/null'' wit_world)) 5 = Some FileOther"
proof -
  let ?E = "(quiet_env (\<lambda>_. []) :: access list env)\<lparr>en_open := (\<lambda>_. Inr (5, FileOther)), en_eventfd := Inr (6, 2)\<rparr>"
  have "fresh_answers ?E ''/dev/null'' wit_world" by (simp add: fresh_answers_def wit_world_def)
  from failed_registration_leaks[OF this, of wit_dev]
  have "fst (ud_construct wit_dev ?E ''/dev/null'' wit_world) = throw_errno ?E ''EDU_IOC_SET_EVENTFD'' ENOTTY"
    "w_files (snd (ud_construct wit_dev ?E ''/dev/null'' wit_world)) =
      (w_files wit_world)(5 \<mapsto> FileOther, 6 \<mapsto> FileEvent 2)"
    by (simp_all add: Let_def)
  then show ?thesis by (simp add: throw_errno_def) (simp add: quiet_env_def)
qed

end
