(* ===== verification/User_Objects.thy ===== *)
theory User_Objects
  imports User_Calls
begin

text \<open>
  The objects of class \<open>EduDevice\<close> of a process, and what they own. Objects are constructed at fresh
  addresses, used, moved, assigned and destroyed in any order, on any files. The descriptors and
  mappings the process holds are then those its live objects own, each of one object only, and the
  descriptors that constructors left open which threw on a file of somebody else; nothing is closed
  or unmapped twice.
\<close>

section \<open>What an object owns\<close>

datatype os_res = Descriptor int | Mapping u64

fun owns :: "edu_device \<Rightarrow> os_res \<Rightarrow> bool" where
  "owns d (Descriptor fd) \<longleftrightarrow> fd \<ge> 0 \<and> (ud_fd d = fd \<or> ud_evtfd d = fd)"
| "owns d (Mapping p) \<longleftrightarrow> ud_rings_mapped d \<and> ud_ring_map d = p"

fun holding :: "'h world \<Rightarrow> os_res \<Rightarrow> bool" where
  "holding w (Descriptor fd) \<longleftrightarrow> w_files w fd \<noteq> None"
| "holding w (Mapping p) \<longleftrightarrow> p \<in> w_maps w"

text \<open>
  The shape of an object: two different descriptors, or none, and then no mapping; a null pointer
  while nothing is mapped.
\<close>

definition device_ok :: "edu_device \<Rightarrow> bool" where
  "device_ok d \<longleftrightarrow>
     (if ud_fd d \<ge> 0 then ud_evtfd d \<ge> 0 \<and> ud_evtfd d \<noteq> ud_fd d
      else ud_fd d = -1 \<and> ud_evtfd d = -1 \<and> \<not> ud_rings_mapped d) \<and>
     (ud_rings_mapped d \<or> ud_ring_map d = 0)"

text \<open>An object that owns files refers to the driver's and to an eventfd.\<close>

definition device_files :: "edu_device \<Rightarrow> 'h world \<Rightarrow> bool" where
  "device_files d w \<longleftrightarrow> (if ud_fd d \<ge> 0
     then w_files w (ud_fd d) = Some FileEdu \<and> (\<exists>c. w_files w (ud_evtfd d) = Some (FileEvent c)) else True)"

section \<open>The uses of an object\<close>

datatype client_op =
    OpFactorial u32
  | OpDmaTest
  | OpState
  | OpSubmit u16 u8 u32
  | OpSubmitZc u16 u8 u32
  | OpPoll
  | OpWait int

fun client_do :: "'h mmio \<Rightarrow> 'h env \<Rightarrow> client_op \<Rightarrow> edu_device \<Rightarrow> 'h world \<Rightarrow> edu_device \<times> 'h world" where
  "client_do D E (OpFactorial n) d w = (d, snd (ud_factorial D E n d w))"
| "client_do D E OpDmaTest d w = (d, snd (ud_dma_test D E d w))"
| "client_do D E OpState d w = (d, snd (ud_state D E d w))"
| "client_do D E (OpSubmit t opc x) d w = snd (ud_submit D E t opc x d w)"
| "client_do D E (OpSubmitZc t opc x) d w = snd (ud_submit_zc D E t opc x d w)"
| "client_do D E OpPoll d w = (d, snd (ud_poll_completion D E d w))"
| "client_do D E (OpWait ms) d w = (d, snd (ud_wait_completion D E ms d w))"

text \<open>Everything but the driver's state is as before.\<close>

definition same_process :: "'h world \<Rightarrow> 'h world \<Rightarrow> bool" where
  "same_process w w' \<longleftrightarrow> w_files w' = w_files w \<and> w_maps w' = w_maps w \<and> w_bad w' = w_bad w"

lemma same_process_refl [simp]: "same_process w w"
  by (simp add: same_process_def)

lemma same_process_trans: "same_process w w' \<Longrightarrow> same_process w' w'' \<Longrightarrow> same_process w w''"
  by (simp add: same_process_def)

lemma same_process_edu [simp]: "same_process w (w\<lparr>w_edu := e\<rparr>)"
  by (simp add: same_process_def)

lemma same_process_ioctl: "same_process w (snd (snd (sys_ioctl D E fd cmd a w)))"
  by (simp add: same_process_def sys_ioctl_def env_run_def split_def Let_def split: option.split os_file.split)

lemma same_process_poll: "same_process w (snd (ud_poll_completion D E d w))"
  using same_process_ioctl[of w D E "ud_fd d" EDU_IOC_POLL_CQ ArgOut]
  by (auto simp: ud_poll_completion_def split: prod.split sum.split edu_out.split)

lemma same_process_wait_loop: "same_process w (snd (ud_wait_loop D E limit k waited d w))"
proof (induction D E limit k waited d w rule: ud_wait_loop.induct)
  case (1 D E limit k waited d w)
  let ?r = "ud_poll_completion D (E\<lparr>en_pre := en_sch E k\<rparr>) d w"
  have p: "same_process w (snd ?r)" by (rule same_process_poll)
  show ?case
  proof (cases "waited < limit \<and> fst ?r = Inr None")
    case True
    then have "(Inr None, snd ?r) = ?r" by (metis prod.collapse)
    with True have "int32 (waited + 500) \<Longrightarrow>
        same_process (snd ?r) (snd (ud_wait_loop D E limit (Suc k) (waited + 500) d (snd ?r)))"
      by (intro 1) auto
    with p True show ?thesis
      by (subst ud_wait_loop.simps) (auto simp: split_def intro: same_process_trans)
  next
    case False
    then show ?thesis using p
      by (subst ud_wait_loop.simps) (auto simp: split_def split: sum.split option.split)
  qed
qed

text \<open>A use changes the driver's state and the object's count of submissions only.\<close>

definition same_owned :: "edu_device \<Rightarrow> edu_device \<Rightarrow> bool" where
  "same_owned d d' \<longleftrightarrow> ud_fd d' = ud_fd d \<and> ud_evtfd d' = ud_evtfd d \<and> ud_ring_map d' = ud_ring_map d \<and>
     ud_rings_mapped d' = ud_rings_mapped d"

lemma submit_frame:
  "same_process w (snd (snd (ud_ioctl_submit D E t opc x d w))) \<and> same_owned d (fst (snd (ud_ioctl_submit D E t opc x d w)))"
  using same_process_ioctl[of w D E "ud_fd d" EDU_IOC_SUBMIT "ArgSubmit (request t opc x)"]
  by (auto simp: ud_ioctl_submit_def same_owned_def split: prod.split sum.split)

lemma client_frame:
  "same_process w (snd (client_do D E opn d w)) \<and> same_owned d (fst (client_do D E opn d w))"
proof (cases opn)
  case (OpFactorial n)
  then show ?thesis
    using same_process_ioctl[of w D E "ud_fd d" EDU_IOC_RUN_FACTORIAL]
    by (auto simp: ud_factorial_def same_owned_def split_def split: sum.split edu_out.split)
next
  case OpDmaTest
  then show ?thesis
    using same_process_ioctl[of w D E "ud_fd d" EDU_IOC_RUN_DMA_TEST ArgNone]
    by (auto simp: ud_dma_test_def same_owned_def split_def split: sum.split)
next
  case OpState
  then show ?thesis
    using same_process_ioctl[of w D E "ud_fd d" EDU_IOC_GET_STATE ArgOut]
    by (auto simp: ud_state_def same_owned_def split_def split: sum.split edu_out.split)
next
  case (OpSubmit t opc x)
  then show ?thesis using submit_frame[of w D E t opc x d] by (simp add: ud_submit_def)
next
  case (OpSubmitZc t opc x)
  have "same_process w (snd (snd (ud_submit_zc D E t opc x d w))) \<and> same_owned d (fst (snd (ud_submit_zc D E t opc x d w)))"
    using submit_frame[of "w\<lparr>w_edu := e\<rparr>" D E t opc x d for e] same_process_trans[OF same_process_edu[of w]]
    by (auto simp: ud_submit_zc_def ud_sq_ptr_def store_sq_def same_owned_def Let_def)
  then show ?thesis using OpSubmitZc by simp
next
  case OpPoll
  then show ?thesis using same_process_poll[of w D E d] by (simp add: same_owned_def)
next
  case (OpWait ms)
  then show ?thesis using same_process_wait_loop[of w D E "ms * 1000" 0 0 d]
    by (simp add: ud_wait_completion_def same_owned_def)
qed

section \<open>Runs of a process\<close>

text \<open>
  \<open>leaked\<close> is no state of the program: it records the descriptors that were opened by a constructor
  that threw and that were still open then.
\<close>

record 'h process =
  objs :: "nat \<Rightarrow> edu_device option"
  world :: "'h world"
  leaked :: "int set"

definition left_open :: "'h world \<Rightarrow> 'h world \<Rightarrow> int set" where
  "left_open w w' = {fd. w_files w fd = None \<and> w_files w' fd \<noteq> None}"

text \<open>A mapping is not at the null address and not where another one is.\<close>

definition fresh_mapping :: "'h env \<Rightarrow> 'h world \<Rightarrow> bool" where
  "fresh_mapping E w \<longleftrightarrow> (case en_mmap E of Inl _ \<Rightarrow> True | Inr p \<Rightarrow> p \<noteq> 0 \<and> p \<notin> w_maps w)"

text \<open>
  The assignment \<open>*a = std::move(*b)\<close> with its test for \<open>this != &other\<close>. Objects that do not exist
  cannot be assigned.
\<close>

definition ud_assign :: "nat \<Rightarrow> nat \<Rightarrow> 'h process \<Rightarrow> 'h process option" where
  "ud_assign a b s =
     (case (objs s a, objs s b) of
        (Some this, Some other) \<Rightarrow>
          Some (if a \<noteq> b
                then let (this, other, w) = ud_move_assign this other (world s)
                     in s\<lparr>objs := (objs s)(a \<mapsto> this, b \<mapsto> other), world := w\<rparr>
                else s)
      | _ \<Rightarrow> None)"

text \<open>\<open>own\<close>: the files found at the paths are the driver's.\<close>

inductive process_step :: "'h mmio \<Rightarrow> bool \<Rightarrow> 'h process \<Rightarrow> 'h process \<Rightarrow> bool" for D :: "'h mmio" and own :: bool where
  constructed: "objs s a = None \<Longrightarrow> fresh_answers E path (world s) \<Longrightarrow>
    ud_construct D E path (world s) = (Inr d, w) \<Longrightarrow>
    process_step D own s (s\<lparr>objs := (objs s)(a \<mapsto> d), world := w\<rparr>)"
| construct_failed: "fresh_answers E path (world s) \<Longrightarrow>
    (\<And>fd f. own \<Longrightarrow> en_open E path = Inr (fd, f) \<Longrightarrow> f = FileEdu) \<Longrightarrow>
    ud_construct D E path (world s) = (Inl ex, w) \<Longrightarrow>
    process_step D own s (s\<lparr>world := w, leaked := leaked s \<union> left_open (world s) w\<rparr>)"
| used: "objs s a = Some d \<Longrightarrow> client_do D E opn d (world s) = (d', w) \<Longrightarrow>
    process_step D own s (s\<lparr>objs := (objs s)(a \<mapsto> d'), world := w\<rparr>)"
| mapped_rings: "objs s a = Some d \<Longrightarrow> fresh_mapping E (world s) \<Longrightarrow>
    ud_map_rings E d (world s) = (r, d', w) \<Longrightarrow>
    process_step D own s (s\<lparr>objs := (objs s)(a \<mapsto> d'), world := w\<rparr>)"
| unmapped_rings: "objs s a = Some d \<Longrightarrow> ud_unmap_rings d (world s) = (d', w) \<Longrightarrow>
    process_step D own s (s\<lparr>objs := (objs s)(a \<mapsto> d'), world := w\<rparr>)"
| moved: "objs s b = None \<Longrightarrow> objs s a = Some d \<Longrightarrow> ud_move d = (new, old) \<Longrightarrow>
    process_step D own s (s\<lparr>objs := (objs s)(b \<mapsto> new, a \<mapsto> old)\<rparr>)"
| assigned: "ud_assign a b s = Some s' \<Longrightarrow> process_step D own s s'"
| destroyed: "objs s a = Some d \<Longrightarrow>
    process_step D own s (s\<lparr>objs := (objs s)(a := None), world := ud_destroy d (world s)\<rparr>)"

inductive_cases process_stepE: "process_step D own s s'"

definition process_init :: "'h process \<Rightarrow> bool" where
  "process_init s \<longleftrightarrow> objs s = (\<lambda>_. None) \<and> w_files (world s) = (\<lambda>_. None) \<and> w_maps (world s) = {} \<and>
     w_bad (world s) = 0 \<and> leaked s = {}"

text \<open>
  Ownership: what is held is what a live object owns or a failing constructor left open, and not
  both; no two objects own the same; every object is in shape and owns the right files; what was
  left open is not the driver's; and no call of \<open>close\<close> or \<open>munmap\<close> was on something not held.
\<close>

definition owner_of :: "(nat \<Rightarrow> edu_device option) \<Rightarrow> os_res \<Rightarrow> nat \<Rightarrow> bool" where
  "owner_of ob r a \<longleftrightarrow> (case ob a of None \<Rightarrow> False | Some d \<Rightarrow> owns d r)"

fun stray :: "int set \<Rightarrow> os_res \<Rightarrow> bool" where
  "stray l (Descriptor fd) \<longleftrightarrow> fd \<in> l"
| "stray l (Mapping p) \<longleftrightarrow> False"

definition owned :: "'h process \<Rightarrow> bool" where
  "owned s \<longleftrightarrow>
     (\<forall>r. holding (world s) r \<longleftrightarrow> (\<exists>a. owner_of (objs s) r a) \<or> stray (leaked s) r) \<and>
     (\<forall>a b r. owner_of (objs s) r a \<longrightarrow> owner_of (objs s) r b \<longrightarrow> a = b) \<and>
     (\<forall>a r. owner_of (objs s) r a \<longrightarrow> \<not> stray (leaked s) r) \<and>
     (\<forall>a d. objs s a = Some d \<longrightarrow> device_ok d \<and> device_files d (world s)) \<and>
     (\<forall>fd\<in>leaked s. w_files (world s) fd \<noteq> Some FileEdu) \<and>
     w_bad (world s) = 0"

lemma stray_empty [simp]: "\<not> stray {} r"
  by (cases r) simp_all

lemma owner_of_upd [simp]:
  "owner_of (ob(a \<mapsto> d)) r b = (if b = a then owns d r else owner_of ob r b)"
  "owner_of (ob(a := None)) r b = (b \<noteq> a \<and> owner_of ob r b)"
  by (simp_all add: owner_of_def)

lemma owner_of_Some: "ob a = Some d \<Longrightarrow> owner_of ob r a = owns d r"
  by (simp add: owner_of_def)

lemma owner_of_None: "ob a = None \<Longrightarrow> \<not> owner_of ob r a"
  by (simp add: owner_of_def)

lemma ownedD:
  assumes "owned s"
  shows "holding (world s) r \<longleftrightarrow> (\<exists>a. owner_of (objs s) r a) \<or> stray (leaked s) r"
    and "owner_of (objs s) r a \<Longrightarrow> owner_of (objs s) r b \<Longrightarrow> a = b"
    and "objs s a = Some d \<Longrightarrow> device_ok d" and "objs s a = Some d \<Longrightarrow> device_files d (world s)"
    and "w_bad (world s) = 0"
    and "objs s a = Some d \<Longrightarrow> owns d r \<Longrightarrow> holding (world s) r"
    and "owner_of (objs s) r a \<Longrightarrow> \<not> stray (leaked s) r"
    and "fd \<in> leaked s \<Longrightarrow> w_files (world s) fd \<noteq> Some FileEdu"
proof -
  show h: "holding (world s) r \<longleftrightarrow> (\<exists>a. owner_of (objs s) r a) \<or> stray (leaked s) r" for r
    using assms unfolding owned_def by blast
  show "owner_of (objs s) r a \<Longrightarrow> owner_of (objs s) r b \<Longrightarrow> a = b"
    "objs s a = Some d \<Longrightarrow> device_ok d" "objs s a = Some d \<Longrightarrow> device_files d (world s)" "w_bad (world s) = 0"
    "owner_of (objs s) r a \<Longrightarrow> \<not> stray (leaked s) r" "fd \<in> leaked s \<Longrightarrow> w_files (world s) fd \<noteq> Some FileEdu"
    using assms unfolding owned_def by blast+
  show "objs s a = Some d \<Longrightarrow> owns d r \<Longrightarrow> holding (world s) r"
    using h[of r] owner_of_Some[of "objs s" a d r] by blast
qed

lemma owned_stray_held: "owned s \<Longrightarrow> stray (leaked s) r \<Longrightarrow> holding (world s) r"
  by (simp add: ownedD(1))

lemma ownedI:
  assumes "\<And>r. holding w r \<longleftrightarrow> (\<exists>a. owner_of ob r a) \<or> stray (leaked s) r"
    and "\<And>a b r. owner_of ob r a \<Longrightarrow> owner_of ob r b \<Longrightarrow> a = b"
    and "\<And>a r. owner_of ob r a \<Longrightarrow> \<not> stray (leaked s) r"
    and "\<And>a d. ob a = Some d \<Longrightarrow> device_ok d \<and> device_files d w"
    and "\<And>fd. fd \<in> leaked s \<Longrightarrow> w_files w fd \<noteq> Some FileEdu" and "w_bad w = 0"
  shows "owned (s\<lparr>objs := ob, world := w\<rparr>)"
  using assms unfolding owned_def by simp

lemma same_owned_owns: "same_owned d d' \<Longrightarrow> owns d' r = owns d r"
  by (cases r) (simp_all add: same_owned_def)

lemma same_process_holding: "same_process w w' \<Longrightarrow> holding w' r = holding w r"
  by (cases r) (simp_all add: same_process_def)

section \<open>Each step keeps ownership\<close>

text \<open>A step that leaves the process as it is and the owners where they are.\<close>

lemma owned_same:
  assumes o: "owned s" and a: "objs s a = Some d" and w: "same_process (world s) w" and d: "same_owned d d'"
  shows "owned (s\<lparr>objs := (objs s)(a \<mapsto> d'), world := w\<rparr>)"
proof (rule ownedI)
  have own: "owner_of ((objs s)(a \<mapsto> d')) r b = owner_of (objs s) r b" for r b
    using owner_of_Some[where ob = "objs s", OF a, of r] by (simp add: same_owned_owns[OF d])
  show "holding w r \<longleftrightarrow> (\<exists>b. owner_of ((objs s)(a \<mapsto> d')) r b) \<or> stray (leaked s) r" for r
    unfolding own same_process_holding[OF w] by (rule ownedD(1)[OF o])
  show "owner_of ((objs s)(a \<mapsto> d')) r b \<Longrightarrow> \<not> stray (leaked s) r" for b r
    unfolding own by (rule ownedD(7)[OF o])
  show "owner_of ((objs s)(a \<mapsto> d')) r b \<Longrightarrow> owner_of ((objs s)(a \<mapsto> d')) r c \<Longrightarrow> b = c" for b c r
    unfolding own by (rule ownedD(2)[OF o])
  have "device_ok d'" "device_files d' w"
    using ownedD(3,4)[OF o a] w d by (auto simp: device_ok_def device_files_def same_owned_def same_process_def)
  then show "device_ok x \<and> device_files x w" if "((objs s)(a \<mapsto> d')) b = Some x" for b x
    using that ownedD(3,4)[OF o, of b x] w by (auto simp: device_files_def same_process_def split: if_splits)
  show "w_bad w = 0" "fd \<in> leaked s \<Longrightarrow> w_files w fd \<noteq> Some FileEdu" for fd
    using ownedD(5,8)[OF o] w by (simp_all add: same_process_def)
qed

text \<open>New descriptors of other files that nobody owns.\<close>

lemma owned_leak:
  assumes o: "owned s" and new: "\<And>fd. fd \<in> l \<Longrightarrow> w_files (world s) fd = None"
    and files: "\<And>fd. w_files w fd \<noteq> Some FileEdu \<or> w_files w fd = w_files (world s) fd"
    and kept: "\<And>fd. fd \<notin> l \<Longrightarrow> w_files w fd = w_files (world s) fd"
    and held: "\<And>fd. fd \<in> l \<Longrightarrow> w_files w fd \<noteq> None"
    and w: "w_maps w = w_maps (world s)" "w_bad w = w_bad (world s)"
  shows "owned (s\<lparr>world := w, leaked := leaked s \<union> l\<rparr>)"
proof -
  have stray: "stray (leaked s \<union> l) r \<longleftrightarrow> stray (leaked s) r \<or> stray l r" for r by (cases r) auto
  have hold: "holding w r \<longleftrightarrow> holding (world s) r \<or> stray l r" for r
    using new held kept w(1) by (cases r) (auto, metis option.distinct(1))
  have none: "\<not> stray l r" if "owner_of (objs s) r a" for r a
    using that new ownedD(1)[OF o, of r] by (cases r) auto
  have dev: "device_files d w" if "objs s a = Some d" for a d
  proof -
    have "fd \<notin> l" if "owns d (Descriptor fd)" for fd
      using new[of fd] ownedD(6)[OF o \<open>objs s a = Some d\<close> that] by auto
    then show ?thesis
      using ownedD(3,4)[OF o that] kept by (auto simp: device_files_def device_ok_def split: if_splits)
  qed
  have "w_files w fd \<noteq> Some FileEdu" if "fd \<in> leaked s \<union> l" for fd
    using that files[of fd] new[of fd] ownedD(8)[OF o, of fd] by auto
  then show ?thesis
    using ownedD[OF o] none dev w(2) hold unfolding owned_def by (simp add: stray)
qed

text \<open>A new owner of things nobody held.\<close>

lemma owned_add:
  assumes o: "owned s" and a: "objs s a = None" and ok: "device_ok d" "device_files d w"
    and new: "\<And>r. owns d r \<Longrightarrow> \<not> holding (world s) r"
    and hold: "\<And>r. holding w r \<longleftrightarrow> holding (world s) r \<or> owns d r"
    and files: "\<And>b x. objs s b = Some x \<Longrightarrow> device_files x (world s) \<Longrightarrow> device_files x w" and bad: "w_bad w = 0"
    and left: "\<And>fd. fd \<in> leaked s \<Longrightarrow> w_files w fd = w_files (world s) fd"
  shows "owned (s\<lparr>objs := (objs s)(a \<mapsto> d), world := w\<rparr>)"
proof (rule ownedI)
  have none: "\<not> owner_of (objs s) r a" for r using a by (rule owner_of_None)
  have old: "\<not> owns d r" if "owner_of (objs s) r b" for b r
    using new[of r] that ownedD(1)[OF o, of r] by blast
  show "\<not> stray (leaked s) r" if "owner_of ((objs s)(a \<mapsto> d)) r b" for b r
    using that ownedD(7)[OF o, of r b] new[of r] owned_stray_held[OF o, of r] by (auto split: if_splits)
  show "w_files w fd \<noteq> Some FileEdu" if "fd \<in> leaked s" for fd using left[OF that] ownedD(8)[OF o that] by simp
  show "holding w r \<longleftrightarrow> (\<exists>b. owner_of ((objs s)(a \<mapsto> d)) r b) \<or> stray (leaked s) r" for r
    using hold[of r] ownedD(1)[OF o, of r] none[of r] by auto
  show "b = c" if "owner_of ((objs s)(a \<mapsto> d)) r b" "owner_of ((objs s)(a \<mapsto> d)) r c" for b c r
    using that ownedD(2)[OF o, of r b c] old[of r b] old[of r c] by (simp split: if_splits)
  show "device_ok x \<and> device_files x w" if "((objs s)(a \<mapsto> d)) b = Some x" for b x
    using that ok files ownedD(3,4)[OF o, of b x] by (simp split: if_splits)
qed (rule bad)

text \<open>An owner that gives back everything.\<close>

lemma destroy_effect:
  assumes ok: "device_ok d" and held: "\<And>r. owns d r \<Longrightarrow> holding w r"
  shows "w_files (ud_destroy d w) = (\<lambda>fd. if owns d (Descriptor fd) then None else w_files w fd)"
    and "w_maps (ud_destroy d w) = {p \<in> w_maps w. \<not> owns d (Mapping p)}"
    and "w_bad (ud_destroy d w) = w_bad w"
proof -
  have h: "ud_fd d \<ge> 0 \<Longrightarrow> w_files w (ud_fd d) \<noteq> None" "ud_evtfd d \<ge> 0 \<Longrightarrow> w_files w (ud_evtfd d) \<noteq> None"
    "ud_rings_mapped d \<Longrightarrow> ud_ring_map d \<in> w_maps w"
    using held[of "Descriptor (ud_fd d)"] held[of "Descriptor (ud_evtfd d)"] held[of "Mapping (ud_ring_map d)"] by auto
  have *: "w_files (ud_destroy d w) = (\<lambda>fd. if owns d (Descriptor fd) then None else w_files w fd) \<and>
    w_maps (ud_destroy d w) = {p \<in> w_maps w. \<not> owns d (Mapping p)} \<and> w_bad (ud_destroy d w) = w_bad w"
  proof (cases "ud_fd d \<ge> 0")
    case True
    then have fds: "ud_evtfd d \<ge> 0" "ud_evtfd d \<noteq> ud_fd d" using ok by (simp_all add: device_ok_def)
    have unmap: "ud_unmap_rings d w = (fst (ud_unmap_rings d w), w\<lparr>w_maps := {p \<in> w_maps w. \<not> owns d (Mapping p)}\<rparr>)"
      "ud_fd (fst (ud_unmap_rings d w)) = ud_fd d" "ud_evtfd (fst (ud_unmap_rings d w)) = ud_evtfd d"
      using h(3) by (auto simp: ud_unmap_rings_def sys_munmap_def intro!: arg_cong[of _ _ "\<lambda>m. w\<lparr>w_maps := m\<rparr>"])
    then obtain d' where d': "ud_unmap_rings d w = (d', w\<lparr>w_maps := {p \<in> w_maps w. \<not> owns d (Mapping p)}\<rparr>)"
      "ud_fd d' = ud_fd d" "ud_evtfd d' = ud_evtfd d" by blast
    show ?thesis
      using True fds h(1,2) by (simp add: ud_destroy_def d' close_if_def sys_close_def Let_def fun_eq_iff)
  next
    case False
    then have "ud_destroy d w = w" "\<not> owns d r" for r
      using ok by (simp_all add: ud_destroy_def ud_unmap_rings_def close_if_def device_ok_def Let_def)
        (cases r; simp)
    then show ?thesis by (simp del: owns.simps)
  qed
  show "w_files (ud_destroy d w) = (\<lambda>fd. if owns d (Descriptor fd) then None else w_files w fd)"
    "w_maps (ud_destroy d w) = {p \<in> w_maps w. \<not> owns d (Mapping p)}" "w_bad (ud_destroy d w) = w_bad w"
    using * by blast+
qed

lemma holding_destroy:
  assumes "device_ok d" and "\<And>r. owns d r \<Longrightarrow> holding w r"
  shows "holding (ud_destroy d w) r \<longleftrightarrow> holding w r \<and> \<not> owns d r"
  using destroy_effect[OF assms] by (cases r) auto

lemma owned_destroy:
  assumes o: "owned s" and a: "objs s a = Some d"
  shows "owned (s\<lparr>objs := (objs s)(a := None), world := ud_destroy d (world s)\<rparr>)"
proof (rule ownedI)
  note D = ownedD(3)[OF o a] ownedD(6)[OF o a]
  have mine: "\<not> owns d r" if "owner_of (objs s) r b" "b \<noteq> a" for b r
    using ownedD(2)[OF o that(1), of a] owner_of_Some[where ob = "objs s", OF a, of r] that(2) by auto
  have stay: "\<not> owns d r" if "stray (leaked s) r" for r
    using ownedD(7)[OF o, of r a] that owner_of_Some[where ob = "objs s", OF a, of r] by auto
  show "\<not> stray (leaked s) r" if "owner_of ((objs s)(a := None)) r b" for b r
    using that ownedD(7)[OF o, of r b] by simp
  show "w_files (ud_destroy d (world s)) fd \<noteq> Some FileEdu" if "fd \<in> leaked s" for fd
    using ownedD(8)[OF o that] destroy_effect(1)[OF D] by simp
  show "holding (ud_destroy d (world s)) r \<longleftrightarrow> (\<exists>b. owner_of ((objs s)(a := None)) r b) \<or> stray (leaked s) r" for r
    using stay[of r] holding_destroy[OF D, of r] ownedD(1)[OF o, of r] owner_of_Some[where ob = "objs s", OF a, of r] mine[of r] by auto
  show "owner_of ((objs s)(a := None)) r b \<Longrightarrow> owner_of ((objs s)(a := None)) r c \<Longrightarrow> b = c" for b c r
    using ownedD(2)[OF o, of r b c] by simp
  show "device_ok x \<and> device_files x (ud_destroy d (world s))" if "((objs s)(a := None)) b = Some x" for b x
  proof -
    from that have x: "objs s b = Some x" "b \<noteq> a" by (simp_all split: if_splits)
    have "\<not> owns d (Descriptor fd)" if "owns x (Descriptor fd)" for fd
      using mine[of "Descriptor fd" b] that x owner_of_Some[where ob = "objs s", OF x(1), of "Descriptor fd"] by blast
    then show ?thesis
      using ownedD(3,4)[OF o x(1)] destroy_effect(1)[OF D]
      by (auto simp: device_files_def device_ok_def split: if_splits)
  qed
  show "w_bad (ud_destroy d (world s)) = 0" using destroy_effect(3)[OF D] ownedD(5)[OF o] by simp
qed

text \<open>The constructor: an object that owns two new descriptors; or it throws, and either the process is
  as before or two new descriptors are left, none of them the driver's.\<close>

lemma construct_effect:
  assumes "fresh_answers E path w" and "ud_construct D E path w = (r, w')"
  shows "case r of
      Inl ex \<Rightarrow> w_maps w' = w_maps w \<and> w_bad w' = w_bad w \<and>
        (w_files w' = w_files w \<or>
         (\<exists>fd f efd c. en_open E path = Inr (fd, f) \<and> f \<noteq> FileEdu \<and> en_eventfd E = Inr (efd, c) \<and>
            fd \<noteq> efd \<and> w_files w fd = None \<and> w_files w efd = None \<and> w_files w' = (w_files w)(fd \<mapsto> f, efd \<mapsto> FileEvent c)))
    | Inr d \<Rightarrow> (\<exists>fd efd c. d = ud_empty\<lparr>ud_fd := fd, ud_evtfd := efd\<rparr> \<and> fd \<ge> 0 \<and> efd \<ge> 0 \<and> efd \<noteq> fd \<and>
        w_files w fd = None \<and> w_files w efd = None \<and> w_maps w' = w_maps w \<and> w_bad w' = w_bad w \<and>
        w_files w' = (w_files w)(fd \<mapsto> FileEdu, efd \<mapsto> FileEvent c))"
  using assms unfolding ud_construct_eq[OF assms(1)]
  by (auto simp: fresh_answers_def throw_errno_def env_run_def Let_def split: sum.splits prod.splits if_splits) blast

lemma owned_construct_failed:
  assumes o: "owned s" and fresh: "fresh_answers E path (world s)"
    and con: "ud_construct D E path (world s) = (Inl ex, w)"
  shows "owned (s\<lparr>world := w, leaked := leaked s \<union> left_open (world s) w\<rparr>)"
proof (rule owned_leak[OF o])
  note C = construct_effect[OF fresh con, simplified]
  show "w_maps w = w_maps (world s)" "w_bad w = w_bad (world s)" using C by blast+
  show "fd \<in> left_open (world s) w \<Longrightarrow> w_files (world s) fd = None"
    "fd \<in> left_open (world s) w \<Longrightarrow> w_files w fd \<noteq> None" for fd by (simp_all add: left_open_def)
  show "w_files w fd \<noteq> Some FileEdu \<or> w_files w fd = w_files (world s) fd"
    "fd \<notin> left_open (world s) w \<Longrightarrow> w_files w fd = w_files (world s) fd" for fd
    using C by (auto simp: left_open_def split: if_splits)
qed

lemma owned_construct:
  assumes o: "owned s" and a: "objs s a = None" and fresh: "fresh_answers E path (world s)"
    and con: "ud_construct D E path (world s) = (Inr d, w)"
  shows "owned (s\<lparr>objs := (objs s)(a \<mapsto> d), world := w\<rparr>)"
proof -
  obtain fd efd c where c: "d = ud_empty\<lparr>ud_fd := fd, ud_evtfd := efd\<rparr>" "fd \<ge> 0" "efd \<ge> 0" "efd \<noteq> fd"
    "w_files (world s) fd = None" "w_files (world s) efd = None" "w_maps w = w_maps (world s)"
    "w_bad w = w_bad (world s)" "w_files w = (w_files (world s))(fd \<mapsto> FileEdu, efd \<mapsto> FileEvent c)"
    using construct_effect[OF fresh con] by auto
  have owns: "owns d r \<longleftrightarrow> r = Descriptor fd \<or> r = Descriptor efd" for r
    using c by (cases r) (auto simp: ud_empty_def)
  show ?thesis
  proof (rule owned_add[OF o a])
    show "device_ok d" "device_files d w" using c by (simp_all add: device_ok_def device_files_def ud_empty_def)
    show "owns d r \<Longrightarrow> \<not> holding (world s) r" for r
      by (drule owns[THEN iffD1]) (use c in auto)
    show "holding w r \<longleftrightarrow> holding (world s) r \<or> owns d r" for r unfolding owns using c by (cases r) auto
    show "device_files x (world s) \<Longrightarrow> device_files x w" for x
      using c by (auto simp: device_files_def split: if_splits)
    show "w_bad w = 0" using c(8) ownedD(5)[OF o] by simp
    show "w_files w x = w_files (world s) x" if "x \<in> leaked s" for x
      using c owned_stray_held[OF o, of "Descriptor x"] that by auto
  qed
qed

lemma owned_map:
  assumes o: "owned s" and a: "objs s a = Some d" and fresh: "fresh_mapping E (world s)"
    and m: "ud_map_rings E d (world s) = (r, d', w)"
  shows "owned (s\<lparr>objs := (objs s)(a \<mapsto> d'), world := w\<rparr>)"
proof (cases "\<exists>p. d' = d\<lparr>ud_ring_map := p, ud_rings_mapped := True\<rparr> \<and> w = (world s)\<lparr>w_maps := insert p (w_maps (world s))\<rparr> \<and>
      p \<noteq> 0 \<and> p \<notin> w_maps (world s) \<and> \<not> ud_rings_mapped d \<and> w_files (world s) (ud_fd d) = Some FileEdu")
  case False
  then have "d' = d \<and> w = world s"
    using m fresh by (auto simp: ud_map_rings_def sys_mmap_def fresh_mapping_def split: if_splits option.splits
        sum.splits os_file.splits)
  then show ?thesis using owned_same[OF o a, of "world s" d] by (simp add: same_owned_def)
next
  case True
  then obtain p where p: "d' = d\<lparr>ud_ring_map := p, ud_rings_mapped := True\<rparr>"
    "w = (world s)\<lparr>w_maps := insert p (w_maps (world s))\<rparr>" "p \<noteq> 0" "p \<notin> w_maps (world s)"
    "\<not> ud_rings_mapped d" "w_files (world s) (ud_fd d) = Some FileEdu" by blast
  have owns: "owns d' r \<longleftrightarrow> owns d r \<or> r = Mapping p" for r using p(1,5) by (cases r) auto
  have files: "device_files x w = device_files x (world s)" for x by (simp add: p(2) device_files_def)
  have none: "\<not> owner_of (objs s) (Mapping p) b" for b
    using ownedD(1)[OF o, of "Mapping p"] p(4) by auto
  have hold: "holding w r \<longleftrightarrow> holding (world s) r \<or> r = Mapping p" for r by (cases r) (auto simp: p(2))
  have own: "owner_of ((objs s)(a \<mapsto> d')) r b \<longleftrightarrow> owner_of (objs s) r b \<or> (r = Mapping p \<and> b = a)" for r b
    using owner_of_Some[where ob = "objs s", OF a, of r] owns[of r] by auto
  have "device_ok d \<and> ud_fd d \<ge> 0"
  proof -
    have "holding (world s) (Descriptor (ud_fd d))" using p(6) by simp
    then obtain b x where "objs s b = Some x" "owns x (Descriptor (ud_fd d))"
      using ownedD(1)[OF o, of "Descriptor (ud_fd d)"] ownedD(8)[OF o, of "ud_fd d"] p(6)
      by (auto simp: owner_of_def split: option.splits)
    then show ?thesis using ownedD(3)[OF o a] by auto
  qed
  then have "device_ok d'" using p(1,3) by (auto simp: device_ok_def)
  moreover have "device_files d' w" using ownedD(4)[OF o a] by (simp add: p(1,2) device_files_def)
  ultimately show ?thesis
    using ownedD[OF o] none
    by (intro ownedI; unfold own hold files) (auto simp: p(2) split: if_splits)
qed

text \<open>Unmapping is giving back one thing; a move is a new name for the owner.\<close>

lemma owned_unmap:
  assumes o: "owned s" and a: "objs s a = Some d" and m: "ud_unmap_rings d (world s) = (d', w)"
  shows "owned (s\<lparr>objs := (objs s)(a \<mapsto> d'), world := w\<rparr>)"
proof (cases "ud_rings_mapped d")
  case False
  then show ?thesis using m owned_same[OF o a] by (simp add: ud_unmap_rings_def same_owned_def)
next
  case True
  let ?p = "ud_ring_map d"
  have p: "?p \<in> w_maps (world s)" using ownedD(6)[OF o a, of "Mapping ?p"] True by simp
  then have m': "d' = d\<lparr>ud_ring_map := 0, ud_rings_mapped := False\<rparr>" "w = (world s)\<lparr>w_maps := w_maps (world s) - {?p}\<rparr>"
    using m True by (simp_all add: ud_unmap_rings_def sys_munmap_def)
  have owns: "owns d' r \<longleftrightarrow> owns d r \<and> r \<noteq> Mapping ?p" for r using True by (cases r) (auto simp: m')
  have files: "device_files x w = device_files x (world s)" for x by (simp add: m'(2) device_files_def)
  have hold: "holding w r \<longleftrightarrow> holding (world s) r \<and> r \<noteq> Mapping ?p" for r by (cases r) (auto simp: m'(2))
  have only: "owner_of (objs s) (Mapping ?p) b \<longleftrightarrow> b = a" for b
    using ownedD(2)[OF o, of "Mapping ?p" b a] owner_of_Some[where ob = "objs s", OF a, of "Mapping ?p"] True by auto
  have own: "owner_of ((objs s)(a \<mapsto> d')) r b \<longleftrightarrow> owner_of (objs s) r b \<and> r \<noteq> Mapping ?p" for r b
    using owner_of_Some[where ob = "objs s", OF a, of r] owns[of r] only[of b] by auto
  have "device_ok d'" "device_files d' w"
    using ownedD(3,4)[OF o a] by (auto simp: m' device_ok_def device_files_def)
  then show ?thesis
    using ownedD[OF o]
    by (intro ownedI; unfold own hold files) (auto simp: m'(2) split: if_splits)
qed

lemma owned_move:
  assumes o: "owned s" and b: "objs s b = None" and a: "objs s a = Some d" and m: "ud_move d = (new, old)"
  shows "owned (s\<lparr>objs := (objs s)(b \<mapsto> new, a \<mapsto> old)\<rparr>)"
proof -
  have ne: "a \<noteq> b" using a b by auto
  have n: "new = d" "device_ok old" "\<And>r. \<not> owns old r" "device_files old w" for w :: "'a world"
    using m by (auto simp: ud_move_def device_ok_def device_files_def) (case_tac r; auto)
  have own: "owner_of ((objs s)(b \<mapsto> new, a \<mapsto> old)) r c \<longleftrightarrow> (if c = b then owner_of (objs s) r a else c \<noteq> a \<and> owner_of (objs s) r c)" for r c
    using ne n(3)[of r] owner_of_Some[where ob = "objs s", OF a, of r] by (simp add: n(1))
  have nb: "\<not> owner_of (objs s) r b" for r using b by (rule owner_of_None)
  have "owned (s\<lparr>objs := (objs s)(b \<mapsto> new, a \<mapsto> old), world := world s\<rparr>)"
  proof (rule ownedI, unfold own)
    show "holding (world s) r \<longleftrightarrow>
        (\<exists>c. if c = b then owner_of (objs s) r a else c \<noteq> a \<and> owner_of (objs s) r c) \<or> stray (leaked s) r" for r
      unfolding ownedD(1)[OF o, of r] using nb[of r] ne by metis
    show "\<not> stray (leaked s) r" if "if c = b then owner_of (objs s) r a else c \<noteq> a \<and> owner_of (objs s) r c" for c r
      using that ownedD(7)[OF o, of r] by (metis (full_types))
    show "fd \<in> leaked s \<Longrightarrow> w_files (world s) fd \<noteq> Some FileEdu" for fd by (rule ownedD(8)[OF o])
    show "c = c'" if "if c = b then owner_of (objs s) r a else c \<noteq> a \<and> owner_of (objs s) r c"
      "if c' = b then owner_of (objs s) r a else c' \<noteq> a \<and> owner_of (objs s) r c'" for c c' r
      using that ownedD(2)[OF o, of r] by (metis (full_types))
    show "device_ok x \<and> device_files x (world s)" if "((objs s)(b \<mapsto> new, a \<mapsto> old)) c = Some x" for c x
      using that n ownedD(3,4)[OF o a] ownedD(3,4)[OF o, of c x] by (simp split: if_splits)
    show "w_bad (world s) = 0" by (rule ownedD(5)[OF o])
  qed
  then show ?thesis by simp
qed

text \<open>An assignment destroys what the target owned and moves the source there.\<close>

lemma ud_move_assign_eq:
  "ud_move_assign d other w = (fst (ud_move other), snd (ud_move other), ud_destroy d w)"
  by (simp add: ud_move_assign_def ud_move_def ud_destroy_def ud_unmap_rings_def Let_def)

lemma owned_assign:
  assumes o: "owned s" and m: "ud_assign a b s = Some s'"
  shows "owned s'"
proof -
  obtain d other where d: "objs s a = Some d" "objs s b = Some other"
    using m by (auto simp: ud_assign_def split: option.splits)
  show ?thesis
  proof (cases "a = b")
    case True
    then show ?thesis using o m d by (simp add: ud_assign_def)
  next
    case False
    have "s' = s\<lparr>world := ud_destroy d (world s), objs := (objs s)(a \<mapsto> fst (ud_move other), b \<mapsto> snd (ud_move other))\<rparr>"
      using m d False by (cases s) (simp add: ud_assign_def ud_move_assign_eq)
    with owned_move[OF owned_destroy[OF o d(1)], of a b other "fst (ud_move other)" "snd (ud_move other)"] False d(2)
    show ?thesis by simp
  qed
qed

lemma owned_init: "process_init s \<Longrightarrow> owned s"
proof -
  assume "process_init s"
  moreover have "\<not> holding (world s) r" if "process_init s" for r
    using that by (cases r) (auto simp: process_init_def)
  ultimately show "owned s" unfolding owned_def by (auto simp: owner_of_def process_init_def)
qed

lemma left_open_own:
  assumes "fresh_answers E path w" and "ud_construct D E path w = (Inl ex, w')"
    and "\<And>fd f. en_open E path = Inr (fd, f) \<Longrightarrow> f = FileEdu"
  shows "left_open w w' = {}"
  using construct_effect[OF assms(1,2)] assms(3) by (auto simp: left_open_def)

definition process_inv :: "bool \<Rightarrow> 'h process \<Rightarrow> bool" where
  "process_inv own s \<longleftrightarrow> owned s \<and> (own \<longrightarrow> leaked s = {})"

lemma leaked_assign: "ud_assign a b s = Some s' \<Longrightarrow> leaked s' = leaked s"
  by (auto simp: ud_assign_def Let_def split: option.splits prod.splits if_splits)

lemma process_inv_step: "process_step D own s s' \<Longrightarrow> process_inv own s \<Longrightarrow> process_inv own s'"
proof (induction rule: process_step.induct)
  case (construct_failed E path s ex w)
  then show ?case by (auto simp: process_inv_def left_open_own intro: owned_construct_failed)
next
  case (used s a d E opn d' w)
  then show ?case using client_frame[of "world s" D E opn d] by (auto simp: process_inv_def intro: owned_same)
qed (auto simp: process_inv_def leaked_assign
    intro: owned_construct owned_map owned_unmap owned_move owned_assign owned_destroy)

interpretation process_sys: inductive_invariant process_init "process_step D own" "process_inv own" for D own
  by unfold_locales (simp add: process_inv_def owned_init process_init_def, rule process_inv_step)

section \<open>Ownership\<close>

text \<open>C5. In every process that uses the class, whatever it constructs on whatever files, uses, maps,
  moves, assigns and destroys in whatever order: the descriptors and mappings it holds are those its
  live objects own and the descriptors left open by constructors that threw, and no descriptor is
  both. Each belongs to one object, each object has the shape and the kinds of files its methods
  rely on, and nothing was ever closed or unmapped that was not held. What was left open is never
  the driver's file, and as long as every file found at a path is the driver's there is none.\<close>

theorem objects_own_descriptors:
  assumes "reach process_init (process_step D own) s"
  shows "(\<forall>r. holding (world s) r \<longleftrightarrow> (\<exists>a. owner_of (objs s) r a) \<or> stray (leaked s) r) \<and>
    (\<forall>r a b. owner_of (objs s) r a \<longrightarrow> owner_of (objs s) r b \<longrightarrow> a = b) \<and>
    (\<forall>r a. owner_of (objs s) r a \<longrightarrow> \<not> stray (leaked s) r) \<and>
    (\<forall>a d. objs s a = Some d \<longrightarrow> device_ok d \<and> device_files d (world s)) \<and> w_bad (world s) = 0 \<and>
    (\<forall>fd\<in>leaked s. w_files (world s) fd \<noteq> Some FileEdu) \<and> (own \<longrightarrow> leaked s = {})"
  using process_sys.reach_inv[OF assms] unfolding process_inv_def owned_def by blast

definition wit_env_open :: "access list env" where
  "wit_env_open = \<lparr>en_pre = [], en_wait1 = ([], []), en_wait2 = ([], []), en_sch = (\<lambda>_. []),
     en_strerror = (\<lambda>_. ''error''), en_open = (\<lambda>_. Inr (3, FileEdu)), en_eventfd = Inr (4, 1),
     en_mmap = Inr 0x7000, en_pfn = 0, en_remap = (\<lambda>_ _ _. ok)\<rparr>"

definition wit_process :: "access list process" where
  "wit_process = \<lparr>objs = (\<lambda>_. None),
     world = \<lparr>w_edu = edu_fresh [] 0x1000, w_files = (\<lambda>_. None), w_maps = {}, w_bad = 0\<rparr>, leaked = {}\<rparr>"

text \<open>A constructor throws on another file, then one returns an object on the driver's.\<close>

theorem objects_own_descriptors_witness:
  "\<exists>s d. reach process_init (process_step (log_mmio (\<lambda>_. 1)) False) s \<and> objs s 0 = Some d \<and> leaked s = {5, 6} \<and>
    w_files (world s) 3 = Some FileEdu \<and> (\<forall>a. \<not> owner_of (objs s) (Descriptor 5) a) \<and> holding (world s) (Descriptor 5)"
proof -
  let ?D = "log_mmio (\<lambda>_. 1)"
  let ?E = "wit_env_open\<lparr>en_open := (\<lambda>_. Inr (5, FileOther)), en_eventfd := Inr (6, 2)\<rparr>"
  have f1: "fresh_answers ?E ''/dev/null'' (world wit_process)" by (simp add: fresh_answers_def wit_process_def)
  obtain ex w1 where c1: "ud_construct ?D ?E ''/dev/null'' (world wit_process) = (Inl ex, w1)"
    "w_files w1 = [5 \<mapsto> FileOther, 6 \<mapsto> FileEvent 2]" "w_maps w1 = {}"
    by (simp add: ud_construct_eq[OF f1] throw_errno_def env_run_def Let_def) (simp add: wit_process_def)
  have l1: "left_open (world wit_process) w1 = {5, 6}" by (auto simp: left_open_def c1(2) wit_process_def)
  define s1 where "s1 = wit_process\<lparr>world := w1, leaked := leaked wit_process \<union> left_open (world wit_process) w1\<rparr>"
  have s1: "objs s1 = (\<lambda>_. None)" "world s1 = w1" "leaked s1 = {5, 6}"
    by (simp_all add: s1_def l1) (simp_all add: wit_process_def)
  have "reach process_init (process_step ?D False) wit_process"
    by (rule reach_init) (simp add: process_init_def wit_process_def)
  moreover have "process_step ?D False wit_process s1"
    unfolding s1_def by (rule construct_failed[OF f1 _ c1(1)]) simp
  ultimately have r1: "reach process_init (process_step ?D False) s1" by (rule reach_step)
  have f2: "fresh_answers wit_env_open ''/dev/edu_pci'' w1" by (simp add: fresh_answers_def wit_env_open_def c1(2))
  obtain d w2 where c2: "ud_construct ?D wit_env_open ''/dev/edu_pci'' (world s1) = (Inr d, w2)" "w_files w2 3 = Some FileEdu"
    by (simp add: s1(2) ud_construct_eq[OF f2] Let_def) (simp add: wit_env_open_def)
  have "process_step ?D False s1 (s1\<lparr>objs := (objs s1)(0 \<mapsto> d), world := w2\<rparr>)"
    by (rule constructed[OF _ _ c2(1)]) (simp_all add: s1 f2)
  then have r: "reach process_init (process_step ?D False) (s1\<lparr>objs := (objs s1)(0 \<mapsto> d), world := w2\<rparr>)"
    by (rule reach_step[OF r1])
  note O = objects_own_descriptors[OF r]
  have "stray (leaked s1) (Descriptor 5)" by (simp add: s1(3))
  then have "holding w2 (Descriptor 5)" "\<forall>a. \<not> owner_of ((objs s1)(0 \<mapsto> d)) (Descriptor 5) a"
    using O[THEN conjunct1, THEN spec, of "Descriptor 5"]
      O[THEN conjunct2, THEN conjunct2, THEN conjunct1, THEN spec, of "Descriptor 5"]
    by (simp_all del: owner_of_upd holding.simps stray.simps)
  then show ?thesis using r s1(3) c2(2) by (intro exI[of _ "s1\<lparr>objs := (objs s1)(0 \<mapsto> d), world := w2\<rparr>"]) auto
qed

end
