(* ===== verification/User_Edu_C.thy ===== *)
theory User_Edu_C
  imports User_Objects User_Claims "HOL-Library.Sublist"
begin

text \<open>
  The plain C interface \<open>edu_device_c.cpp\<close> over the class: a handle is the address of an object on the
  heap, every exception becomes -1 with a value in \<open>errno\<close>, and results go out through a pointer.
  \<open>None\<close> is a call C++ leaves undefined, above all one on a handle that is not open. \<open>c_errno\<close> is
  what the interface stores in \<open>errno\<close>.
\<close>

record 'h cstate =
  c_objs :: "nat \<Rightarrow> edu_device option"
  c_world :: "'h world"
  c_errno :: errno

text \<open>What a call stores through its pointer argument.\<close>

datatype c_out = OutEmpty | OutU32 u32 | OutStateT edu_state_req | OutCompletionT completion

type_synonym 'h c_result = "((int \<times> c_out) \<times> 'h cstate) option"

definition as_dev :: "nat \<Rightarrow> 'h cstate \<Rightarrow> edu_device option" where
  "as_dev h s = c_objs s h"

text \<open>\<open>alloc\<close> is the address \<open>new\<close> gets, if any.\<close>

definition edu_open_c :: "'h mmio \<Rightarrow> 'h env \<Rightarrow> nat option \<Rightarrow> string option \<Rightarrow> 'h cstate \<Rightarrow> nat \<times> 'h cstate" where
  "edu_open_c D E alloc path s =
     (case alloc of
        None \<Rightarrow> (0, s\<lparr>c_errno := ENODEV\<rparr>)
      | Some a \<Rightarrow>
          (case ud_construct D E (case path of None \<Rightarrow> ''/dev/edu_pci'' | Some p \<Rightarrow> p) (c_world s) of
             (Inl _, w) \<Rightarrow> (0, s\<lparr>c_world := w, c_errno := ENODEV\<rparr>)
           | (Inr d, w) \<Rightarrow> (a, s\<lparr>c_objs := (c_objs s)(a \<mapsto> d), c_world := w\<rparr>)))"

definition edu_close_c :: "nat \<Rightarrow> 'h cstate \<Rightarrow> 'h cstate option" where
  "edu_close_c h s =
     (if h = 0 then Some s
      else case as_dev h s of
             None \<Rightarrow> None
           | Some d \<Rightarrow> Some (s\<lparr>c_objs := (c_objs s)(h := None), c_world := ud_destroy d (c_world s)\<rparr>))"

text \<open>\<open>try { \<dots> } catch (...) { errno = EIO; return -1; }\<close>\<close>

definition catch_io :: "c_out res \<times> 'h world \<Rightarrow> 'h cstate \<Rightarrow> 'h c_result" where
  "catch_io r s =
     (case r of
        (Inr out, w) \<Rightarrow> Some ((0, out), s\<lparr>c_world := w\<rparr>)
      | (Inl (RuntimeError _), w) \<Rightarrow> Some ((-1, OutEmpty), s\<lparr>c_world := w, c_errno := EIO\<rparr>)
      | (Inl Undefined, _) \<Rightarrow> None)"

definition edu_factorial_c :: "'h mmio \<Rightarrow> 'h env \<Rightarrow> nat \<Rightarrow> u32 \<Rightarrow> 'h cstate \<Rightarrow> 'h c_result" where
  "edu_factorial_c D E h n s =
     (case as_dev h s of None \<Rightarrow> None
      | Some d \<Rightarrow> catch_io (apfst (map_sum id OutU32) (ud_factorial D E n d (c_world s))) s)"

definition edu_dma_test_c :: "'h mmio \<Rightarrow> 'h env \<Rightarrow> nat \<Rightarrow> 'h cstate \<Rightarrow> 'h c_result" where
  "edu_dma_test_c D E h s =
     (case as_dev h s of None \<Rightarrow> None
      | Some d \<Rightarrow> catch_io (apfst (map_sum id (\<lambda>_. OutEmpty)) (ud_dma_test D E d (c_world s))) s)"

definition edu_state_c :: "'h mmio \<Rightarrow> 'h env \<Rightarrow> nat \<Rightarrow> 'h cstate \<Rightarrow> 'h c_result" where
  "edu_state_c D E h s =
     (case as_dev h s of None \<Rightarrow> None
      | Some d \<Rightarrow> catch_io (apfst (map_sum id (\<lambda>r. OutStateT
          \<lparr>sr_last_irq = sr_last_irq r, sr_last_fact_in = sr_last_fact_in r,
           sr_last_fact_out = sr_last_fact_out r, sr_dma_ok = sr_dma_ok r\<rparr>)) (ud_state D E d (c_world s))) s)"

text \<open>\<open>std::string(e.what()).find(pat) != npos\<close> is \<open>sublist pat what\<close>.\<close>

definition submit_errno :: "string \<Rightarrow> errno" where
  "submit_errno what =
     (if sublist ''ring full'' what then ENOSPC else if sublist ''bad opcode'' what then EINVAL else EIO)"

definition submit_zc_errno :: "string \<Rightarrow> errno" where
  "submit_zc_errno what =
     (if sublist ''ring full'' what then ENOSPC else if sublist ''bad opcode'' what then EINVAL
      else if sublist ''map_rings'' what then EINVAL else EIO)"

definition edu_submit_c :: "'h mmio \<Rightarrow> 'h env \<Rightarrow> nat \<Rightarrow> u16 \<Rightarrow> u8 \<Rightarrow> u32 \<Rightarrow> 'h cstate \<Rightarrow> 'h c_result" where
  "edu_submit_c D E h tag opcode operand s =
     (case as_dev h s of None \<Rightarrow> None
      | Some d \<Rightarrow>
          (case ud_submit D E tag opcode operand d (c_world s) of
             (Inr _, d, w) \<Rightarrow> Some ((0, OutEmpty), s\<lparr>c_objs := (c_objs s)(h \<mapsto> d), c_world := w\<rparr>)
           | (Inl (RuntimeError what), d, w) \<Rightarrow>
               Some ((-1, OutEmpty), s\<lparr>c_objs := (c_objs s)(h \<mapsto> d), c_world := w, c_errno := submit_errno what\<rparr>)
           | (Inl Undefined, _, _) \<Rightarrow> None))"

definition edu_submit_zc_c :: "'h mmio \<Rightarrow> 'h env \<Rightarrow> nat \<Rightarrow> u16 \<Rightarrow> u8 \<Rightarrow> u32 \<Rightarrow> 'h cstate \<Rightarrow> 'h c_result" where
  "edu_submit_zc_c D E h tag opcode operand s =
     (case as_dev h s of None \<Rightarrow> None
      | Some d \<Rightarrow>
          (case ud_submit_zc D E tag opcode operand d (c_world s) of
             (Inr _, d, w) \<Rightarrow> Some ((0, OutEmpty), s\<lparr>c_objs := (c_objs s)(h \<mapsto> d), c_world := w\<rparr>)
           | (Inl (RuntimeError what), d, w) \<Rightarrow>
               Some ((-1, OutEmpty), s\<lparr>c_objs := (c_objs s)(h \<mapsto> d), c_world := w, c_errno := submit_zc_errno what\<rparr>)
           | (Inl Undefined, _, _) \<Rightarrow> None))"

text \<open>An empty optional is -1 with \<open>none\<close> in \<open>errno\<close>.\<close>

definition completion_out :: "errno \<Rightarrow> completion option res \<times> 'h world \<Rightarrow> 'h cstate \<Rightarrow> 'h c_result" where
  "completion_out none r s =
     (case r of
        (Inr None, w) \<Rightarrow> Some ((-1, OutEmpty), s\<lparr>c_world := w, c_errno := none\<rparr>)
      | (Inr (Some c), w) \<Rightarrow> Some ((0, OutCompletionT
          \<lparr>co_tag = co_tag c, co_status = co_status c, co_result = co_result c\<rparr>), s\<lparr>c_world := w\<rparr>)
      | (Inl (RuntimeError _), w) \<Rightarrow> Some ((-1, OutEmpty), s\<lparr>c_world := w, c_errno := EIO\<rparr>)
      | (Inl Undefined, _) \<Rightarrow> None)"

definition edu_poll_completion_c :: "'h mmio \<Rightarrow> 'h env \<Rightarrow> nat \<Rightarrow> 'h cstate \<Rightarrow> 'h c_result" where
  "edu_poll_completion_c D E h s =
     (case as_dev h s of None \<Rightarrow> None
      | Some d \<Rightarrow> completion_out EAGAIN (ud_poll_completion D E d (c_world s)) s)"

definition edu_wait_completion_c :: "'h mmio \<Rightarrow> 'h env \<Rightarrow> nat \<Rightarrow> int \<Rightarrow> 'h cstate \<Rightarrow> 'h c_result" where
  "edu_wait_completion_c D E h timeout_ms s =
     (case as_dev h s of None \<Rightarrow> None
      | Some d \<Rightarrow> completion_out ETIMEDOUT (ud_wait_completion D E timeout_ms d (c_world s)) s)"

definition edu_map_rings_c :: "'h env \<Rightarrow> nat \<Rightarrow> 'h cstate \<Rightarrow> 'h c_result" where
  "edu_map_rings_c E h s =
     (case as_dev h s of None \<Rightarrow> None
      | Some d \<Rightarrow>
          (let (r, d, w) = ud_map_rings E d (c_world s)
           in catch_io (map_sum id (\<lambda>_. OutEmpty) r, w) (s\<lparr>c_objs := (c_objs s)(h \<mapsto> d)\<rparr>)))"

definition edu_unmap_rings_c :: "nat \<Rightarrow> 'h cstate \<Rightarrow> 'h cstate option" where
  "edu_unmap_rings_c h s =
     (case as_dev h s of None \<Rightarrow> None
      | Some d \<Rightarrow>
          (let (d, w) = ud_unmap_rings d (c_world s)
           in Some (s\<lparr>c_objs := (c_objs s)(h \<mapsto> d), c_world := w\<rparr>)))"

section \<open>Every call at once\<close>

datatype c_call =
    CallFactorial u32
  | CallDmaTest
  | CallState
  | CallSubmit u16 u8 u32
  | CallSubmitZc u16 u8 u32
  | CallPoll
  | CallWait int
  | CallMap

fun c_do :: "'h mmio \<Rightarrow> 'h env \<Rightarrow> c_call \<Rightarrow> nat \<Rightarrow> 'h cstate \<Rightarrow> 'h c_result" where
  "c_do D E (CallFactorial n) h s = edu_factorial_c D E h n s"
| "c_do D E CallDmaTest h s = edu_dma_test_c D E h s"
| "c_do D E CallState h s = edu_state_c D E h s"
| "c_do D E (CallSubmit t opc x) h s = edu_submit_c D E h t opc x s"
| "c_do D E (CallSubmitZc t opc x) h s = edu_submit_zc_c D E h t opc x s"
| "c_do D E CallPoll h s = edu_poll_completion_c D E h s"
| "c_do D E (CallWait ms) h s = edu_wait_completion_c D E h ms s"
| "c_do D E CallMap h s = edu_map_rings_c E h s"

text \<open>The values the interface stores in \<open>errno\<close>, call by call, and the kind of result it stores.\<close>

fun c_errors :: "c_call \<Rightarrow> errno list" where
  "c_errors (CallSubmit t opc x) = [ENOSPC, EINVAL]"
| "c_errors (CallSubmitZc t opc x) = [ENOSPC, EINVAL]"
| "c_errors CallPoll = [EAGAIN]"
| "c_errors (CallWait ms) = [ETIMEDOUT]"
| "c_errors CallState = []"
| "c_errors _ = [EIO]"

fun c_typed :: "c_call \<Rightarrow> c_out \<Rightarrow> bool" where
  "c_typed (CallFactorial n) out \<longleftrightarrow> (\<exists>v. out = OutU32 v)"
| "c_typed CallState out \<longleftrightarrow> (\<exists>v. out = OutStateT v)"
| "c_typed CallPoll out \<longleftrightarrow> (\<exists>c. out = OutCompletionT c)"
| "c_typed (CallWait ms) out \<longleftrightarrow> (\<exists>c. out = OutCompletionT c)"
| "c_typed _ out \<longleftrightarrow> out = OutEmpty"

text \<open>
  The states of a process that uses this interface: ownership as for the class, no object at the
  null address, and no object without its files. What failing constructors left open are the
  descriptors that nobody owns.
\<close>

definition strays :: "(nat \<Rightarrow> edu_device option) \<Rightarrow> 'h world \<Rightarrow> int set" where
  "strays ob w = {fd. w_files w fd \<noteq> None \<and> (\<forall>a. \<not> owner_of ob (Descriptor fd) a)}"

lemma owned_strays: "owned s \<Longrightarrow> leaked s = strays (objs s) (world s)"
  using ownedD(1)[of s "Descriptor fd" for fd] ownedD(7)[of s "Descriptor fd" for fd]
  by (auto simp: strays_def)

abbreviation c_proc :: "'h cstate \<Rightarrow> 'h process" where
  "c_proc s \<equiv> \<lparr>objs = c_objs s, world = c_world s, leaked = strays (c_objs s) (c_world s)\<rparr>"

definition c_ok :: "'h cstate \<Rightarrow> bool" where
  "c_ok s \<longleftrightarrow> owned (c_proc s) \<and> c_objs s 0 = None \<and> (\<forall>h d. c_objs s h = Some d \<longrightarrow> ud_fd d \<ge> 0)"

lemma c_okI:
  assumes "owned p" and "objs p = c_objs s" and "world p = c_world s" and "c_objs s 0 = None"
    and "\<And>h d. c_objs s h = Some d \<Longrightarrow> ud_fd d \<ge> 0"
  shows "c_ok s"
proof -
  have "p = c_proc s" using owned_strays[OF assms(1)] assms(2,3) by simp
  then show ?thesis using assms by (auto simp: c_ok_def)
qed

lemma c_okD:
  assumes "c_ok s" and "c_objs s h = Some d"
  shows "owned (c_proc s)" "h \<noteq> 0" "ud_fd d \<ge> 0" "attached d (c_world s)"
    "ud_rings_mapped d \<Longrightarrow> ud_ring_map d \<in> w_maps (c_world s)"
proof -
  show o: "owned (c_proc s)" and fd: "ud_fd d \<ge> 0" using assms by (auto simp: c_ok_def)
  show "h \<noteq> 0" using assms by (cases h) (auto simp: c_ok_def)
  show "attached d (c_world s)" using ownedD(4)[OF o, of h d] assms(2) fd by (simp add: device_files_def attached_def)
  show "ud_rings_mapped d \<Longrightarrow> ud_ring_map d \<in> w_maps (c_world s)"
    using ownedD(6)[OF o, of h d "Mapping (ud_ring_map d)"] assms(2) by simp
qed

lemma c_ok_owner:
  assumes "c_ok s" and "c_objs s h = Some d" and "owned ((c_proc s)\<lparr>objs := (c_objs s)(h \<mapsto> d'), world := w\<rparr>)"
    and "ud_fd d' = ud_fd d"
  shows "c_ok (s\<lparr>c_objs := (c_objs s)(h \<mapsto> d'), c_world := w\<rparr>)"
  by (rule c_okI[OF assms(3)]) (use assms(1,2,4) c_okD(2,3)[OF assms(1,2)] in \<open>auto simp: c_ok_def split: if_splits\<close>)

lemma c_ok_same:
  assumes "c_ok s" and "c_objs s h = Some d" and "same_process (c_world s) w" and "same_owned d d'"
  shows "c_ok (s\<lparr>c_objs := (c_objs s)(h \<mapsto> d'), c_world := w\<rparr>)"
  using owned_same[OF c_okD(1)[OF assms(1,2)], of h d w d'] assms
  by (intro c_ok_owner[OF assms(1,2)]) (simp_all add: same_owned_def)

lemma c_ok_world:
  assumes "c_ok s" and "c_objs s h = Some d" and "same_process (c_world s) w"
  shows "c_ok (s\<lparr>c_world := w\<rparr>)"
proof -
  have "(c_objs s)(h \<mapsto> d) = c_objs s" using assms(2) by auto
  then show ?thesis using c_ok_same[OF assms, of d] by (simp add: same_owned_def)
qed

lemma c_ok_errno [simp]: "c_ok (s\<lparr>c_errno := e\<rparr>) = c_ok s"
  by (simp add: c_ok_def)

section \<open>No method of an attached object is undefined\<close>

text \<open>What a call must return: 0 and a value of its type, or -1, nothing, and one of its errors.\<close>

definition c_answers :: "c_call \<Rightarrow> 'h c_result \<Rightarrow> bool" where
  "c_answers call r \<longleftrightarrow>
     (case r of None \<Rightarrow> False
      | Some ((ret, out), s) \<Rightarrow> c_ok s \<and>
          (if ret = 0 then c_typed call out
           else ret = -1 \<and> out = OutEmpty \<and> c_errno s \<in> set (c_errors call)))"

lemma submit_errno_values [simp]:
  "submit_errno ''ring full'' = ENOSPC" "submit_errno ''bad opcode'' = EINVAL"
  "submit_zc_errno ''ring full'' = ENOSPC" "submit_zc_errno ''bad opcode'' = EINVAL"
  "submit_zc_errno ''map_rings() required for zero-copy submit'' = EINVAL"
  by (simp_all add: submit_errno_def submit_zc_errno_def sublist_code)

lemma ud_factorial_defined: "fst (ud_factorial D E n d w) \<noteq> Inl Undefined"
  by (auto simp: ud_factorial_def throw_errno_def split: prod.splits sum.splits edu_out.splits)

lemma ud_dma_test_defined: "fst (ud_dma_test D E d w) \<noteq> Inl Undefined"
  by (auto simp: ud_dma_test_def throw_errno_def split: prod.splits sum.splits)

lemma ud_map_rings_defined: "fst (ud_map_rings E d w) \<noteq> Inl Undefined"
  by (auto simp: ud_map_rings_def throw_errno_def split: prod.splits sum.splits)

lemma ud_state_attached:
  "attached d w \<Longrightarrow> ud_state D E d w = (Inr (edu_get_state (entered D E w)), w\<lparr>w_edu := entered D E w\<rparr>)"
  by (simp add: ud_state_def sys_ioctl_attached edu_ioctl_get_state)

lemma catch_io_answers:
  assumes "fst r \<noteq> Inl Undefined" and "\<And>v. c_typed call (g v)"
    and "c_ok (s\<lparr>c_world := snd r\<rparr>)" and "EIO \<in> set (c_errors call)"
  shows "c_answers call (catch_io (apfst (map_sum id g) r) s)"
proof -
  obtain a w where r: "r = (a, w)" by (cases r)
  consider v where "a = Inr v" | what where "a = Inl (RuntimeError what)"
    using assms(1) r by (metis cpp_exn.exhaust fst_conv sum.exhaust)
  then show ?thesis
  proof cases
    case 1
    then show ?thesis using assms r by (simp add: catch_io_def c_answers_def)
  next
    case 2
    then show ?thesis using assms r c_ok_errno[of EIO "s\<lparr>c_world := w\<rparr>"]
      by (simp add: catch_io_def c_answers_def del: c_ok_errno)
  qed
qed

lemma completion_out_answers:
  assumes "fst r = Inr v" and "\<And>c. c_typed call (OutCompletionT c)" and "c_ok (s\<lparr>c_world := snd r\<rparr>)"
    and "none \<in> set (c_errors call)"
  shows "c_answers call (completion_out none r s)"
  using assms by (cases r; cases v) (auto simp: completion_out_def c_answers_def)

lemma c_ok_map:
  assumes "c_ok s" and "c_objs s h = Some d" and "fresh_mapping E (c_world s)"
    and m: "ud_map_rings E d (c_world s) = (r, d', w)"
  shows "c_ok (s\<lparr>c_objs := (c_objs s)(h \<mapsto> d'), c_world := w\<rparr>)"
proof -
  have "ud_fd d' = ud_fd d"
    using m by (auto simp: ud_map_rings_def split: prod.splits sum.splits if_splits)
  moreover have "owned ((c_proc s)\<lparr>objs := (c_objs s)(h \<mapsto> d'), world := w\<rparr>)"
    using owned_map[OF c_okD(1)[OF assms(1,2)], of h d E r d' w] assms by simp
  ultimately show ?thesis by (intro c_ok_owner[OF assms(1,2)])
qed

lemma submit_answers:
  assumes ok: "c_ok s" and h: "c_objs s h = Some d"
    and frame: "same_process (c_world s) (snd (snd r)) \<and> same_owned d (fst (snd r))"
    and r: "fst r \<in> {Inr (), Inl (RuntimeError m1), Inl (RuntimeError m2)}"
    and "c_typed call OutEmpty" and "f m1 \<in> set (c_errors call)" and "f m2 \<in> set (c_errors call)"
  shows "c_answers call
    (case r of
       (Inr _, d, w) \<Rightarrow> Some ((0, OutEmpty), s\<lparr>c_objs := (c_objs s)(h \<mapsto> d), c_world := w\<rparr>)
     | (Inl (RuntimeError what), d, w) \<Rightarrow>
         Some ((-1, OutEmpty), s\<lparr>c_objs := (c_objs s)(h \<mapsto> d), c_world := w, c_errno := f what\<rparr>)
     | (Inl Undefined, _, _) \<Rightarrow> None)"
proof -
  obtain a d' w where e: "r = (a, d', w)" by (cases r)
  have c: "c_ok (s\<lparr>c_objs := (c_objs s)(h \<mapsto> d'), c_world := w\<rparr>)"
    using c_ok_same[OF ok h] frame e by simp
  have failed: "c_answers call (Some ((-1, OutEmpty),
      s\<lparr>c_objs := (c_objs s)(h \<mapsto> d'), c_world := w, c_errno := f m\<rparr>))"
    if "f m \<in> set (c_errors call)" for m
    using that c c_ok_errno[of "f m" "s\<lparr>c_objs := (c_objs s)(h \<mapsto> d'), c_world := w\<rparr>"]
    by (simp add: c_answers_def del: c_ok_errno)
  have "a = Inr () \<or> a = Inl (RuntimeError m1) \<or> a = Inl (RuntimeError m2)" using r e by simp
  then consider "a = Inr ()" | "a = Inl (RuntimeError m1)" | "a = Inl (RuntimeError m2)" by blast
  then show ?thesis
  proof cases
    case 1
    then show ?thesis using c assms(5) by (simp add: e c_answers_def)
  next
    case 2
    then show ?thesis using failed[OF assms(6)] by (simp add: e)
  next
    case 3
    then show ?thesis using failed[OF assms(7)] by (simp add: e)
  qed
qed

text \<open>A zero-copy submission through a live handle.\<close>

lemma ud_submit_zc_answer:
  assumes "attached d w" and "ud_rings_mapped d \<Longrightarrow> ud_ring_map d \<in> w_maps w"
  shows "fst (ud_submit_zc D E t opc x d w) \<in> (if ud_rings_mapped d
    then {Inr (), Inl (RuntimeError ''ring full''), Inl (RuntimeError ''bad opcode'')}
    else {Inl (RuntimeError ''map_rings() required for zero-copy submit'')})"
proof -
  have "fst (ud_ioctl_submit D E t opc x d v) \<in>
      {Inr (), Inl (RuntimeError ''ring full''), Inl (RuntimeError ''bad opcode'')}" if "attached d v" for v
    using that by (simp add: ud_ioctl_submit_attached Let_def)
  from this[of "w\<lparr>w_edu := (w_edu w)\<lparr>dma_virt := sq_put (dma_virt (w_edu w)) (unat (ud_sq_tail d AND RING_MASK))
      \<lparr>sq_tag = t, sq_opcode = opc, sq_flags = 0, sq_operand = x, sq_rsvd = 0\<rparr>\<rparr>\<rparr>"] assms
  show ?thesis
    by (cases "ud_rings_mapped d") (simp_all add: ud_submit_zc_def ud_sq_ptr_def store_sq_def Let_def attached_def)
qed

lemma c_ok_client:
  "c_ok s \<Longrightarrow> c_objs s h = Some d \<Longrightarrow> c_ok (s\<lparr>c_world := snd (client_do D E opn d (c_world s))\<rparr>)"
  using c_ok_world client_frame by blast

lemma c_submit_answers:
  assumes ok: "c_ok s" and h: "c_objs s h = Some d"
  shows "c_answers (CallSubmit t opc x) (edu_submit_c D E h t opc x s)"
    and "c_answers (CallSubmitZc t opc x) (edu_submit_zc_c D E h t opc x s)"
proof -
  note I = c_okD[OF ok h]
  have dev: "as_dev h s = Some d" using h by (simp add: as_dev_def)
  show "c_answers (CallSubmit t opc x) (edu_submit_c D E h t opc x s)"
    using submit_frame[of "c_world s" D E t opc x d]
    by (simp add: edu_submit_c_def dev ud_submit_def)
      (rule submit_answers[OF ok h, of _ "''ring full''" "''bad opcode''"]; simp add: ud_ioctl_submit_attached[OF I(4)] Let_def)
  have f: "same_process (c_world s) (snd (snd (ud_submit_zc D E t opc x d (c_world s)))) \<and>
      same_owned d (fst (snd (ud_submit_zc D E t opc x d (c_world s))))"
    using client_frame[of "c_world s" D E "OpSubmitZc t opc x" d] by simp
  note answer = ud_submit_zc_answer[OF I(4,5), of D E t opc x]
  show "c_answers (CallSubmitZc t opc x) (edu_submit_zc_c D E h t opc x s)"
  proof (cases "ud_rings_mapped d")
    case True
    then show ?thesis using answer
      by (simp add: edu_submit_zc_c_def dev)
        (rule submit_answers[OF ok h f, of "''ring full''" "''bad opcode''"]; simp)
  next
    case False
    then show ?thesis using answer
      by (simp add: edu_submit_zc_c_def dev)
        (rule submit_answers[OF ok h f, of "''map_rings() required for zero-copy submit''" "''ring full''"]; simp)
  qed
qed

lemma c_completion_answers:
  assumes ok: "c_ok s" and h: "c_objs s h = Some d"
  shows "c_answers CallPoll (edu_poll_completion_c D E h s)"
    and "int32 (ms * 1000) \<Longrightarrow> c_answers (CallWait ms) (edu_wait_completion_c D E h ms s)"
proof -
  note I = c_okD[OF ok h]
  have dev: "as_dev h s = Some d" using h by (simp add: as_dev_def)
  have "\<exists>v. fst (ud_poll_completion D E d (c_world s)) = Inr v"
    by (simp add: ud_poll_attached[OF I(4)] Let_def)
  then show "c_answers CallPoll (edu_poll_completion_c D E h s)" using c_ok_client[OF ok h, of D E OpPoll]
    by (auto simp: edu_poll_completion_c_def dev intro!: completion_out_answers)
  show "c_answers (CallWait ms) (edu_wait_completion_c D E h ms s)" if "int32 (ms * 1000)"
  proof -
    have "\<exists>v. fst (ud_wait_completion D E ms d (c_world s)) = Inr v"
      using that by (simp add: ud_wait_completion_spec[OF I(4)] wait_spec_def split: option.split)
    then show ?thesis using c_ok_client[OF ok h, of D E "OpWait ms"]
      by (auto simp: edu_wait_completion_c_def dev intro!: completion_out_answers)
  qed
qed

lemma c_do_answers:
  assumes ok: "c_ok s" and h: "c_objs s h = Some d" and fresh: "fresh_mapping E (c_world s)"
    and ms: "case call of CallWait ms \<Rightarrow> int32 (ms * 1000) | _ \<Rightarrow> True"
  shows "c_answers call (c_do D E call h s)"
proof -
  note I = c_okD[OF ok h]
  note keep = c_ok_client[OF ok h, of D E]
  have dev: "as_dev h s = Some d" using h by (simp add: as_dev_def)
  show ?thesis
  proof (cases call)
    case (CallFactorial n)
    show ?thesis
      using catch_io_answers[where g = OutU32 and r = "ud_factorial D E n d (c_world s)" and call = call
          and s = s, OF ud_factorial_defined] keep[of "OpFactorial n"]
      by (simp add: CallFactorial edu_factorial_c_def dev)
  next
    case CallDmaTest
    show ?thesis
      using catch_io_answers[where g = "\<lambda>_. OutEmpty" and r = "ud_dma_test D E d (c_world s)" and call = call
          and s = s, OF ud_dma_test_defined] keep[of OpDmaTest]
      by (simp add: CallDmaTest edu_dma_test_c_def dev)
  next
    case CallState
    then show ?thesis using keep[of OpState]
      by (simp add: edu_state_c_def dev ud_state_attached[OF I(4)] catch_io_def c_answers_def)
  next
    case CallMap
    obtain r d' w where m: "ud_map_rings E d (c_world s) = (r, d', w)" by (cases "ud_map_rings E d (c_world s)")
    then have "r \<noteq> Inl Undefined" using ud_map_rings_defined[of E d "c_world s"] by simp
    then show ?thesis
      using catch_io_answers[of "(r, w)" CallMap "\<lambda>_. OutEmpty" "s\<lparr>c_objs := (c_objs s)(h \<mapsto> d')\<rparr>"] c_ok_map[OF ok h fresh m]
      by (simp add: CallMap edu_map_rings_c_def dev m Let_def)
  qed (use ms c_submit_answers[OF ok h] c_completion_answers[OF ok h] in simp_all)
qed

section \<open>Processes that use the interface\<close>

definition c_init :: "'h cstate \<Rightarrow> bool" where
  "c_init s \<longleftrightarrow> process_init \<lparr>objs = c_objs s, world = c_world s, leaked = {}\<rparr>"

inductive c_step :: "'h mmio \<Rightarrow> 'h cstate \<Rightarrow> 'h cstate \<Rightarrow> bool" for D :: "'h mmio" where
  opened: "(case alloc of None \<Rightarrow> True | Some a \<Rightarrow> a \<noteq> 0 \<and> c_objs s a = None) \<Longrightarrow>
    (\<And>p. fresh_answers E p (c_world s)) \<Longrightarrow> edu_open_c D E alloc path s = (h, s') \<Longrightarrow> c_step D s s'"
| called: "c_objs s h = Some d \<Longrightarrow> fresh_mapping E (c_world s) \<Longrightarrow>
    (case call of CallWait ms \<Rightarrow> int32 (ms * 1000) | _ \<Rightarrow> True) \<Longrightarrow>
    c_do D E call h s = Some (v, s') \<Longrightarrow> c_step D s s'"
| unmapped: "c_objs s h = Some d \<Longrightarrow> edu_unmap_rings_c h s = Some s' \<Longrightarrow> c_step D s s'"
| closed: "edu_close_c h s = Some s' \<Longrightarrow> c_step D s s'"

lemma c_ok_open:
  assumes ok: "c_ok s" and a: "case alloc of None \<Rightarrow> True | Some a \<Rightarrow> a \<noteq> 0 \<and> c_objs s a = None"
    and fresh: "\<And>p. fresh_answers E p (c_world s)" and "edu_open_c D E alloc path s = (h, s')"
  shows "c_ok s'"
proof (cases alloc)
  case None
  then show ?thesis using assms by (auto simp: edu_open_c_def)
next
  case (Some a)
  define p where "p = (case path of None \<Rightarrow> ''/dev/edu_pci'' | Some p \<Rightarrow> p)"
  have o: "owned (c_proc s)" using ok by (simp add: c_ok_def)
  obtain r w where con: "ud_construct D E p (c_world s) = (r, w)" by (cases "ud_construct D E p (c_world s)")
  show ?thesis
  proof (cases r)
    case (Inl ex)
    then have "s' = s\<lparr>c_world := w, c_errno := ENODEV\<rparr>"
      using assms(4) con Some by (simp add: edu_open_c_def p_def[symmetric])
    moreover have "owned ((c_proc s)\<lparr>world := w, leaked := leaked (c_proc s) \<union> left_open (c_world s) w\<rparr>)"
      using owned_construct_failed[OF o, of E p D ex w] fresh[of p] con Inl by simp
    ultimately show ?thesis using ok by (intro c_okI) (auto simp: c_ok_def)
  next
    case (Inr d)
    then have s': "s' = s\<lparr>c_objs := (c_objs s)(a \<mapsto> d), c_world := w\<rparr>"
      using assms(4) con Some Inr by (auto simp: edu_open_c_def p_def[symmetric])
    have "ud_fd d \<ge> 0" using construct_effect[OF fresh con] Inr by auto
    moreover have "owned ((c_proc s)\<lparr>objs := (c_objs s)(a \<mapsto> d), world := w\<rparr>)"
      using owned_construct[OF o, of a E p D d w] con fresh a Some Inr by simp
    ultimately show ?thesis using a ok by (intro c_okI) (auto simp: c_ok_def s' Some split: if_splits)
  qed
qed

lemma c_ok_unmap:
  assumes "c_ok s" and "edu_unmap_rings_c h s = Some s'"
  shows "c_ok s'"
proof -
  obtain d where h: "c_objs s h = Some d" using assms(2) by (auto simp: edu_unmap_rings_c_def as_dev_def split: option.splits)
  obtain d' w where m: "ud_unmap_rings d (c_world s) = (d', w)" by (cases "ud_unmap_rings d (c_world s)")
  have s': "s' = s\<lparr>c_objs := (c_objs s)(h \<mapsto> d'), c_world := w\<rparr>"
    using assms(2) h m by (simp add: edu_unmap_rings_c_def as_dev_def)
  have "ud_fd d' = ud_fd d" using m by (auto simp: ud_unmap_rings_def split: if_splits)
  then show ?thesis
    using owned_unmap[OF c_okD(1)[OF assms(1) h], of h d d' w] h m
    unfolding s' by (intro c_ok_owner[OF assms(1) h]) simp_all
qed

lemma c_ok_close:
  assumes "c_ok s" and "edu_close_c h s = Some s'"
  shows "c_ok s'"
proof (cases "h = 0")
  case True
  then show ?thesis using assms by (simp add: edu_close_c_def)
next
  case False
  then obtain d where h: "c_objs s h = Some d" and s': "s' = s\<lparr>c_objs := (c_objs s)(h := None), c_world := ud_destroy d (c_world s)\<rparr>"
    using assms(2) by (auto simp: edu_close_c_def as_dev_def split: option.splits)
  then show ?thesis
    using owned_destroy[OF c_okD(1)[OF assms(1) h], of h d] assms(1)
    by (intro c_okI) (auto simp: s' c_ok_def split: if_splits)
qed

lemma c_ok_step: "c_step D s s' \<Longrightarrow> c_ok s \<Longrightarrow> c_ok s'"
proof (induction rule: c_step.induct)
  case (called s h d E call v s')
  then show ?case using c_do_answers[of s h d E call D] by (auto simp: c_answers_def split: prod.splits)
qed (auto intro: c_ok_open c_ok_unmap c_ok_close)

lemma c_ok_init: "c_init s \<Longrightarrow> c_ok s"
  by (rule c_okI[OF owned_init[of "\<lparr>objs = c_objs s, world = c_world s, leaked = {}\<rparr>"]])
    (simp_all add: c_init_def process_init_def)

interpretation c_sys: inductive_invariant c_init "c_step D" c_ok for D
  by unfold_locales (auto simp: c_ok_init c_ok_step)

lemma catch_io_objs: "catch_io r s = Some (v, s') \<Longrightarrow> c_objs s' = c_objs s"
  by (auto simp: catch_io_def split: prod.splits sum.splits cpp_exn.splits)

lemma completion_out_objs: "completion_out none r s = Some (v, s') \<Longrightarrow> c_objs s' = c_objs s"
  by (auto simp: completion_out_def split: prod.splits sum.splits cpp_exn.splits option.splits)

lemma c_do_keeps_handle:
  assumes "c_do D E call h s = Some (v, s')"
  shows "c_objs s h \<noteq> None \<longrightarrow> c_objs s' h \<noteq> None"
  using assms
  by (cases call)
    (auto simp: edu_factorial_c_def edu_dma_test_c_def edu_state_c_def edu_poll_completion_c_def
      edu_wait_completion_c_def edu_submit_c_def edu_submit_zc_c_def edu_map_rings_c_def Let_def
      dest!: catch_io_objs completion_out_objs split: option.splits prod.splits sum.splits cpp_exn.splits)

section \<open>Claims\<close>

text \<open>C17. Every call of the C interface on an open handle, in any state a process can reach through the
  interface, returns one of two things: 0 with a result of its own type, or -1 with nothing stored
  and one of the values of \<open>errno\<close> that belong to the call. It is never undefined, and the state
  after it is again one in which the same holds; closing the handle is defined as well. The wait
  needs a timeout whose microseconds fit \<open>int\<close>.\<close>

theorem c_interface_answers:
  assumes "reach c_init (c_step D) s" and "c_objs s h = Some d" and "fresh_mapping E (c_world s)"
    and "case call of CallWait ms \<Rightarrow> int32 (ms * 1000) | _ \<Rightarrow> True"
  shows "\<exists>ret out s'. c_do D E call h s = Some ((ret, out), s') \<and> reach c_init (c_step D) s' \<and>
      (ret = 0 \<and> c_typed call out \<or> ret = -1 \<and> out = OutEmpty \<and> c_errno s' \<in> set (c_errors call)) \<and>
      w_bad (c_world s') = 0 \<and> edu_close_c h s' \<noteq> None"
proof -
  have a: "c_answers call (c_do D E call h s)"
    by (rule c_do_answers[OF c_sys.reach_inv[OF assms(1)] assms(2-4)])
  then obtain ret out s' where c: "c_do D E call h s = Some ((ret, out), s')" by (auto simp: c_answers_def split: option.splits)
  have "c_ok s'" using a c by (simp add: c_answers_def)
  then have "w_bad (c_world s') = 0" using ownedD(5)[of "c_proc s'"] by (simp add: c_ok_def)
  moreover have "c_objs s' h \<noteq> None" using c_do_keeps_handle[OF c] assms(2) by simp
  then have "edu_close_c h s' \<noteq> None" by (auto simp: edu_close_c_def as_dev_def)
  moreover have "reach c_init (c_step D) s'"
    using assms(1) called[where D = D, OF assms(2-4) c] by (rule reach_step)
  ultimately show ?thesis using a c by (auto simp: c_answers_def split: if_splits)
qed

definition wit_cstate :: "access list cstate" where
  "wit_cstate = snd (edu_open_c (log_mmio (\<lambda>_. 1)) wit_env_open (Some 1) None
     \<lparr>c_objs = (\<lambda>_. None), c_world = world wit_process, c_errno = EIO\<rparr>)"

definition wit_handle :: edu_device where
  "wit_handle = ud_empty\<lparr>ud_fd := 3, ud_evtfd := 4\<rparr>"

lemma wit_cstate_objs: "c_objs wit_cstate 1 = Some wit_handle"
  by (simp add: wit_cstate_def wit_handle_def edu_open_c_def ud_construct_def sys_open_def sys_eventfd_def
      ud_register_eventfd_def sys_ioctl_def wit_env_open_def wit_process_def env_run_def edu_ioctl_eventfd
      eventfd_fdget_def edu_set_eventfd_def ud_empty_def user_of_def Let_def)

lemma wit_cstate_reach: "reach c_init (c_step (log_mmio (\<lambda>_. 1))) wit_cstate"
proof -
  let ?s = "\<lparr>c_objs = (\<lambda>_. None), c_world = world wit_process, c_errno = EIO\<rparr> :: access list cstate"
  have init: "reach c_init (c_step (log_mmio (\<lambda>_. 1))) ?s"
    by (rule reach_init) (simp add: c_init_def process_init_def wit_process_def)
  obtain h where "edu_open_c (log_mmio (\<lambda>_. 1)) wit_env_open (Some 1) None ?s = (h, wit_cstate)"
    by (metis wit_cstate_def prod.collapse)
  then have "c_step (log_mmio (\<lambda>_. 1)) ?s wit_cstate"
    by (rule opened[rotated 2]) (simp_all add: fresh_answers_def wit_env_open_def wit_process_def)
  then show ?thesis by (rule reach_step[OF init])
qed

theorem c_interface_answers_witness:
  "\<exists>ret out s'. c_do (log_mmio (\<lambda>_. 1)) wit_env_open (CallWait 5) 1 wit_cstate = Some ((ret, out), s') \<and>
    (ret = 0 \<and> c_typed (CallWait 5) out \<or> ret = -1 \<and> out = OutEmpty \<and> c_errno s' = ETIMEDOUT)"
proof -
  have f: "fresh_mapping wit_env_open (c_world wit_cstate)"
    using c_okD(2)[OF c_sys.reach_inv[OF wit_cstate_reach] wit_cstate_objs]
    by (simp add: fresh_mapping_def wit_env_open_def wit_cstate_def edu_open_c_def ud_construct_def sys_open_def
        sys_eventfd_def ud_register_eventfd_def sys_ioctl_def wit_process_def env_run_def edu_ioctl_eventfd
        eventfd_fdget_def edu_set_eventfd_def ud_empty_def user_of_def Let_def)
  show ?thesis using c_interface_answers[OF wit_cstate_reach wit_cstate_objs f, of "CallWait 5"]
    by (simp add: int32_def) blast
qed

text \<open>C22. Submission through the C interface, copied or zero-copy: -1 with \<open>ENOSPC\<close> exactly when the
  driver's ring is full, -1 with \<open>EINVAL\<close> exactly when it is not and the opcode is neither of the two,
  else 0 and the command is queued; the object counts only accepted commands. Without mapped rings
  a zero-copy submission is -1 with \<open>EINVAL\<close> and enters neither the slab nor the driver.\<close>

theorem c_submit_outcome:
  assumes "reach c_init (c_step D) s" and "c_objs s h = Some d"
  shows "(let w = c_world s; e = entered D E w;
           after = (\<lambda>tail. s\<lparr>c_objs := (c_objs s)(h \<mapsto> d\<lparr>ud_sq_tail := tail\<rparr>),
                      c_world := w\<lparr>w_edu := snd (edu_ring_submit D (request tag opcode operand) e)\<rparr>\<rparr>)
       in edu_submit_c D E h tag opcode operand s =
         (if ring_full (sq_tail e) (cq_head e)
          then Some ((-1, OutEmpty), (after (ud_sq_tail d))\<lparr>c_errno := ENOSPC\<rparr>)
          else if opcode = EDU_OP_FACTORIAL \<or> opcode = EDU_OP_DMA_TEST
          then Some ((0, OutEmpty), after (ud_sq_tail d + 1))
          else Some ((-1, OutEmpty), (after (ud_sq_tail d))\<lparr>c_errno := EINVAL\<rparr>))) \<and>
    edu_submit_zc_c D E h tag opcode operand s =
      (if \<not> ud_rings_mapped d then Some ((-1, OutEmpty), s\<lparr>c_objs := (c_objs s)(h \<mapsto> d), c_errno := EINVAL\<rparr>)
       else edu_submit_c D E h tag opcode operand
         (s\<lparr>c_world := (c_world s)\<lparr>w_edu := (w_edu (c_world s))\<lparr>dma_virt :=
            sq_put (dma_virt (w_edu (c_world s))) (unat (ud_sq_tail d AND RING_MASK))
              \<lparr>sq_tag = tag, sq_opcode = opcode, sq_flags = 0, sq_operand = operand, sq_rsvd = 0\<rparr>\<rparr>\<rparr>\<rparr>))"
    (is "?copied \<and> ?zc")
proof
  note I = c_okD[OF c_sys.reach_inv[OF assms(1)] assms(2)]
  show ?copied using assms(2)
    by (simp add: edu_submit_c_def as_dev_def ud_submit_def ud_ioctl_submit_attached[OF I(4)] Let_def)
  show ?zc
  proof (cases "ud_rings_mapped d")
    case True
    then show ?thesis using assms(2) I(4,5)
      by (simp add: edu_submit_zc_c_def edu_submit_c_def as_dev_def ud_submit_zc_def ud_submit_def ud_sq_ptr_def
          store_sq_def ud_ioctl_submit_attached Let_def)
  next
    case False
    then show ?thesis using assms(2) by (simp add: edu_submit_zc_c_def as_dev_def ud_submit_zc_def)
  qed
qed

theorem c_submit_outcome_witness:
  "fst (the (edu_submit_c (log_mmio (\<lambda>_. 1)) (quiet_env (\<lambda>_. [])) 1 5 0x7F 6 wit_cstate)) = (-1, OutEmpty) \<and>
    c_errno (snd (the (edu_submit_zc_c (log_mmio (\<lambda>_. 1)) (quiet_env (\<lambda>_. [])) 1 5 EDU_OP_FACTORIAL 6 wit_cstate))) = EINVAL"
proof -
  have "\<not> ud_rings_mapped wit_handle" by (simp add: wit_handle_def ud_empty_def)
  then show ?thesis
    using c_submit_outcome[OF wit_cstate_reach wit_cstate_objs, of "quiet_env (\<lambda>_. [])" 5 "0x7F" 6]
      c_submit_outcome[OF wit_cstate_reach wit_cstate_objs, of "quiet_env (\<lambda>_. [])" 5 EDU_OP_FACTORIAL 6]
    by (auto simp: Let_def edu_ops)
qed

end
