(* ===== verification/User_Demo.thy ===== *)
theory User_Demo
  imports User_Edu Edu_Files
begin

text \<open>
  The demo program \<open>pcie_prototype_async/userspace/demo.cpp\<close>, section by section and as \<open>main\<close> runs
  it. A section gets the object and the world and leaves them changed, with its output and the
  exception that left it, if any. Each call of the class has an environment of its own.
\<close>

section \<open>Sections\<close>

type_synonym 'h demo = "line list \<times> unit res \<times> edu_device \<times> 'h world"

text \<open>What follows a part of a section runs unless an exception left that part.\<close>

definition demo_then :: "'h demo \<Rightarrow> (edu_device \<Rightarrow> 'h world \<Rightarrow> 'h demo) \<Rightarrow> 'h demo" where
  "demo_then r f =
     (case r of
        (out, Inl ex, d, w) \<Rightarrow> (out, Inl ex, d, w)
      | (out, Inr _, d, w) \<Rightarrow> (let (out', res, d, w) = f d w in (out @ out', res, d, w)))"

definition demo_print :: "line list \<Rightarrow> edu_device \<Rightarrow> 'h world \<Rightarrow> 'h demo" where
  "demo_print ls d w = (ls, Inr (), d, w)"

definition show_state :: "edu_state_req \<Rightarrow> line" where
  "show_state s = Cout
     [Str ''  last_irq=0x'', Hex (uint (sr_last_irq s)),
      Str ''  last_fact_in='', Num (uint (sr_last_fact_in s)),
      Str ''  last_fact_out='', Num (uint (sr_last_fact_out s)),
      Str ''  dma_ok='', Num (uint (sr_dma_ok s)), Endl]"

definition show_completion :: "completion \<Rightarrow> line" where
  "show_completion c = Cout
     [Str ''  tag='', Num (uint (co_tag c)), Str ''  status='', Num (uint (co_status c)),
      Str ''  result='', Num (uint (co_result c)),
      Str (if completion_ok c then ''  [OK]'' else ''  [FAIL]''), Endl]"

section \<open>The blocking ioctls\<close>

fun legacy_loop :: "'h mmio \<Rightarrow> (nat \<Rightarrow> 'h env) \<Rightarrow> nat \<Rightarrow> u32 list \<Rightarrow> edu_device \<Rightarrow> 'h world \<Rightarrow> 'h demo" where
  "legacy_loop D Es k [] d w = ([], Inr (), d, w)"
| "legacy_loop D Es k (n # ns) d w =
     (case ud_factorial D (Es k) n d w of
        (Inl ex, w) \<Rightarrow> ([], Inl ex, d, w)
      | (Inr result, w) \<Rightarrow>
          demo_then
            (demo_print [Cout [Str ''  '', Num (uint n), Str ''! = '', Num (uint result), Endl]] d w)
            (legacy_loop D Es (Suc k) ns))"

text \<open>Calls 0 to 4 are the factorials, call 5 is the DMA test, call 6 reads the state.\<close>

definition demo_legacy :: "'h mmio \<Rightarrow> (nat \<Rightarrow> 'h env) \<Rightarrow> edu_device \<Rightarrow> 'h world \<Rightarrow> 'h demo" where
  "demo_legacy D Es d w =
     demo_then (demo_print [Cout [Endl, Str ''=== Legacy blocking ioctls ==='', Endl]] d w) (\<lambda>d w.
     demo_then (legacy_loop D Es 0 [0, 1, 5, 10, 12] d w) (\<lambda>d w.
     demo_then (demo_print [Cout [Str ''  DMA test... '']] d w) (\<lambda>d w.
     demo_then (let (r, w) = ud_dma_test D (Es 5) d w in ([], r, d, w)) (\<lambda>d w.
     demo_then (demo_print [Cout [Str ''passed'', Endl]] d w) (\<lambda>d w.
       case ud_state D (Es 6) d w of
         (Inl ex, w) \<Rightarrow> ([], Inl ex, d, w)
       | (Inr s, w) \<Rightarrow> ([show_state s], Inr (), d, w))))))"

section \<open>The rings\<close>

text \<open>The loop of the section with \<open>n\<close> rounds to go; its bound is a constant.\<close>

fun async_loop :: "'h mmio \<Rightarrow> (nat \<Rightarrow> 'h env) \<Rightarrow> nat \<Rightarrow> u16 \<Rightarrow> edu_device \<Rightarrow> 'h world \<Rightarrow> 'h demo" where
  "async_loop D Es 0 i d w = ([], Inr (), d, w)"
| "async_loop D Es (Suc n) i d w =
     (case ud_submit_factorial D (Es (unat i)) i (ucast i + 1) d w of
        (Inl ex, d, w) \<Rightarrow> ([], Inl ex, d, w)
      | (Inr _, d, w) \<Rightarrow>
          (case ud_wait_completion D (Es (unat i)) 2000 d w of
             (Inl ex, w) \<Rightarrow> ([], Inl ex, d, w)
           | (Inr None, w) \<Rightarrow>
               ([Cerr [Str ''  Timeout on completion '', Num (uint i), Endl]], Inr (), d, w)
           | (Inr (Some c), w) \<Rightarrow>
               demo_then (demo_print [show_completion c] d w) (async_loop D Es n (i + 1))))"

definition demo_async :: "'h mmio \<Rightarrow> (nat \<Rightarrow> 'h env) \<Rightarrow> edu_device \<Rightarrow> 'h world \<Rightarrow> 'h demo" where
  "demo_async D Es d w =
     demo_then (demo_print
       [Cout [Endl, Str ''=== Async SQ/CQ ring path ==='', Endl],
        Cout [Str ''  Submitting '', Num 8, Str '' factorial commands (one at a time):'', Endl]] d w) (\<lambda>d w.
     demo_then (async_loop D Es 8 0 d w) (\<lambda>d w.
     demo_then (demo_print [Cout [Str ''  Submitting DMA test via ring...'', Endl]] d w) (\<lambda>d w.
       case ud_submit_dma_test D (Es 8) 0xFF d w of
         (Inl ex, d, w) \<Rightarrow> ([], Inl ex, d, w)
       | (Inr _, d, w) \<Rightarrow>
           (case ud_wait_completion D (Es 8) 2000 d w of
              (Inl ex, w) \<Rightarrow> ([], Inl ex, d, w)
            | (Inr None, w) \<Rightarrow> ([Cerr [Str ''  Timeout on DMA ring test'', Endl]], Inr (), d, w)
            | (Inr (Some c), w) \<Rightarrow> ([show_completion c], Inr (), d, w)))))"

section \<open>The mapping\<close>

text \<open>A load of a whole entry \<open>sq[slot]\<close> through a pointer to the start of a mapping of the slab.\<close>

definition load_sq :: "u64 \<Rightarrow> u32 \<Rightarrow> 'h world \<Rightarrow> sq_entry option" where
  "load_sq p slot w = (if p \<in> w_maps w then Some (sq_get (dma_virt (w_edu w)) (unat slot)) else None)"

text \<open>The em dash of the printed texts is three characters in the source's UTF-8.\<close>

definition em_dash :: string where
  "em_dash = [CHR 0xE2, CHR 0x80, CHR 0x94]"

text \<open>The zero-copy submission, what it left in the slab, and the end of the section.\<close>

definition demo_mmap_zc :: "'h mmio \<Rightarrow> 'h env \<Rightarrow> edu_device \<Rightarrow> 'h world \<Rightarrow> 'h demo" where
  "demo_mmap_zc D E d w =
     (let slot_before = ud_sq_tail d in
      demo_then (let (r, d, w) = ud_submit_factorial_zc D E 42 7 d w in ([], r, d, w)) (\<lambda>d w.
        case ud_sq_ptr d of
          Inl ex \<Rightarrow> ([], Inl ex, d, w)
        | Inr sqe \<Rightarrow>
            (case load_sq sqe (slot_before AND RING_MASK) w of
               None \<Rightarrow> ([], Inl Undefined, d, w)
             | Some s \<Rightarrow>
                 demo_then (demo_print
                   [Cout [Str (''  After zc submit '' @ em_dash @ '' SQ[''), Num (uint (slot_before AND RING_MASK)),
                     Str '']: tag='', Num (uint (sq_tag s)), Str '' opcode=0x'',
                     Hex (uint (sq_opcode s)), Endl]] d w) (\<lambda>d w.
                 demo_then (let (r, w) = ud_wait_completion D E 2000 d w in
                   ([], map_sum id (\<lambda>_. ()) r, d, w)) (\<lambda>d w.
                 let (d, w) = ud_unmap_rings d w in
                   demo_print [Cout [Str ''  Rings unmapped'', Endl]] d w)))))"

definition demo_mmap :: "'h mmio \<Rightarrow> 'h env \<Rightarrow> edu_device \<Rightarrow> 'h world \<Rightarrow> 'h demo" where
  "demo_mmap D E d w =
     demo_then (demo_print [Cout [Endl, Str ''=== Zero-copy mmap ring inspection ==='', Endl]] d w) (\<lambda>d w.
     demo_then (let (r, d, w) = ud_map_rings E d w in ([], r, d, w)) (\<lambda>d w.
       case ud_sq_ptr d of
         Inl ex \<Rightarrow> ([], Inl ex, d, w)
       | Inr sq \<Rightarrow>
           (case ud_cq_ptr d of
              Inl ex \<Rightarrow> ([], Inl ex, d, w)
            | Inr cq \<Rightarrow>
                demo_then (demo_print
                  [Cout [Str ''  SQ base VA = '', Ptr sq, Endl],
                   Cout [Str ''  CQ base VA = '', Ptr cq, Endl]] d w) (demo_mmap_zc D E))))"

section \<open>Fault injection\<close>

text \<open>
  The attribute file: whether it can be opened for writing and for reading, and what the kernel
  parses from the two bytes written.
\<close>

record sysfs =
  sy_open :: bool
  sy_read :: bool
  sy_parsed :: "errno + u32"

definition sysfs_path :: string where
  "sysfs_path = ''/sys/class/misc/edu_pci/device/inject_fault''"

text \<open>The section from the write to the file on.\<close>

definition demo_fault_armed ::
    "'h mmio \<Rightarrow> sysfs \<Rightarrow> 'h env \<Rightarrow> 'h env \<Rightarrow> edu_device \<Rightarrow> 'h world \<Rightarrow> 'h demo" where
  "demo_fault_armed D y E1 E2 d w =
     demo_then (demo_print
       [Cout [Str ''  Fault armed via '', Str sysfs_path, Endl],
        Cout [Str ''  Running DMA test with fault armed...'', Endl]] d w) (\<lambda>d w.
     demo_then
       (case ud_dma_test D E1 d w of
          (Inr _, w) \<Rightarrow>
            ([Cerr [Str ''  ERROR: expected DMA failure but got success'', Endl]], Inr (), d, w)
        | (Inl (RuntimeError what), w) \<Rightarrow>
            ([Cout [Str ''  Got expected error: '', Str what, Endl]], Inr (), d, w)
        | (Inl Undefined, w) \<Rightarrow> ([], Inl Undefined, d, w)) (\<lambda>d w.
     demo_then (demo_print
       [Cout [Str ''  inject_fault after trigger = '',
          (if sy_read y then Num (inject_fault_show (w_edu w)) else Str []),
          Str ('' (expected 0 '' @ em_dash @ '' auto-cleared)''), Endl],
        Cout [Str ''  Running DMA test again (should succeed)...'', Endl]] d w) (\<lambda>d w.
     demo_then (let (r, w) = ud_dma_test D E2 d w in ([], r, d, w)) (\<lambda>d w.
       demo_print [Cout [Str (''  Recovery confirmed '' @ em_dash @ '' DMA test passed''), Endl]] d w))))"

definition demo_fault_injection ::
    "'h mmio \<Rightarrow> sysfs \<Rightarrow> 'h env \<Rightarrow> 'h env \<Rightarrow> edu_device \<Rightarrow> 'h world \<Rightarrow> 'h demo" where
  "demo_fault_injection D y E1 E2 d w =
     demo_then (demo_print [Cout [Endl, Str ''=== Fault injection (Phase 7) ==='', Endl]] d w) (\<lambda>d w.
       if \<not> sy_open y then
         demo_print [Cout [Str (''  Skipping '' @ em_dash @ '' sysfs knob not accessible (need root + driver loaded)''), Endl]] d w
       else demo_fault_armed D y E1 E2 d (w\<lparr>w_edu := snd (inject_fault_store (sy_parsed y) 2 (w_edu w))\<rparr>))"

section \<open>Throughput\<close>

fun throughput_loop :: "'h mmio \<Rightarrow> (nat \<Rightarrow> 'h env) \<Rightarrow> nat \<Rightarrow> u16 \<Rightarrow> edu_device \<Rightarrow> 'h world \<Rightarrow> 'h demo" where
  "throughput_loop D Es 0 i d w = ([], Inr (), d, w)"
| "throughput_loop D Es (Suc n) i d w =
     (case ud_submit_factorial D (Es (unat i)) i (ucast (i mod 12) + 1) d w of
        (Inl ex, d, w) \<Rightarrow> ([], Inl ex, d, w)
      | (Inr _, d, w) \<Rightarrow>
          (case ud_wait_completion D (Es (unat i)) 5000 d w of
             (Inl ex, w) \<Rightarrow> ([], Inl ex, d, w)
           | (Inr None, w) \<Rightarrow> ([Cerr [Str ''  Timeout on op '', Num (uint i), Endl]], Inr (), d, w)
           | (Inr (Some c), w) \<Rightarrow> throughput_loop D Es n (i + 1) d w))"

text \<open>\<open>timing\<close> is what the section prints of the clock at its end.\<close>

definition demo_throughput ::
    "'h mmio \<Rightarrow> line list \<Rightarrow> (nat \<Rightarrow> 'h env) \<Rightarrow> edu_device \<Rightarrow> 'h world \<Rightarrow> 'h demo" where
  "demo_throughput D timing Es d w =
     demo_then (demo_print [Cout [Endl, Str ''=== Throughput benchmark (ring submit) ==='', Endl]] d w) (\<lambda>d w.
     demo_then (throughput_loop D Es 64 0 d w) (demo_print timing))"

section \<open>main\<close>

record 'h demo_env =
  de_open :: "'h env"
  de_legacy :: "nat \<Rightarrow> 'h env"
  de_async :: "nat \<Rightarrow> 'h env"
  de_mmap :: "'h env"
  de_sysfs :: sysfs
  de_fault1 :: "'h env"
  de_fault2 :: "'h env"
  de_throughput :: "nat \<Rightarrow> 'h env"
  de_timing :: "line list"

definition demo_body :: "'h mmio \<Rightarrow> 'h demo_env \<Rightarrow> edu_device \<Rightarrow> 'h world \<Rightarrow> 'h demo" where
  "demo_body D V d w =
     demo_then (demo_print [Cout [Str ''Opened /dev/edu_pci  fd='', Num (ud_fd d), Endl]] d w) (\<lambda>d w.
     demo_then (demo_legacy D (de_legacy V) d w) (\<lambda>d w.
     demo_then (demo_async D (de_async V) d w) (\<lambda>d w.
     demo_then (demo_mmap D (de_mmap V) d w) (\<lambda>d w.
     demo_then (demo_fault_injection D (de_sysfs V) (de_fault1 V) (de_fault2 V) d w) (\<lambda>d w.
     demo_then (demo_throughput D (de_timing V) (de_throughput V) d w) (\<lambda>d w.
       demo_print [Cout [Endl, Str ''All demos passed.'', Endl]] d w))))))"

text \<open>
  The exit code, the output and the world at the end; none where C++ defines nothing. The object
  is destroyed before the handler of an exception runs.
\<close>

definition demo_main :: "'h mmio \<Rightarrow> 'h demo_env \<Rightarrow> 'h world \<Rightarrow> (int \<times> line list \<times> 'h world) option" where
  "demo_main D V w =
     (case ud_construct D (de_open V) ''/dev/edu_pci'' w of
        (Inl (RuntimeError what), w) \<Rightarrow> Some (1, [Cerr [Str ''FATAL: '', Str what, Endl]], w)
      | (Inl Undefined, _) \<Rightarrow> None
      | (Inr d, w) \<Rightarrow>
          (case demo_body D V d w of
             (out, Inr _, d, w) \<Rightarrow> Some (0, out, ud_destroy d w)
           | (out, Inl (RuntimeError what), d, w) \<Rightarrow>
               Some (1, out @ [Cerr [Str ''FATAL: '', Str what, Endl]], ud_destroy d w)
           | (_, Inl Undefined, _, _) \<Rightarrow> None))"

end
