(* ===== verification/User_Demo_Claims.thy ===== *)
theory User_Demo_Claims
  imports User_Demo User_Objects User_Claims
begin

text \<open>
  What the demo program prints and leaves behind on a device that answers: the blocking ioctls and
  the rings one after another on the same device, the wrap of the ring in the throughput section,
  the injected fault and the recovery from it.
\<close>

section \<open>Idle rings and the blocking ioctls\<close>

text \<open>The rings are idle at slot \<open>i\<close> and \<open>f\<close> is in the knob.\<close>

definition rest :: "nat \<Rightarrow> u32 \<Rightarrow> 'h edu_dev \<Rightarrow> bool" where
  "rest i f e \<longleftrightarrow> idle_at i e \<and> inject_fault e = f"

lemma idle_at_same:
  assumes "sq_tail e' = sq_tail e" "cq_tail e' = cq_tail e" "cq_head e' = cq_head e" "inflight e' = inflight e"
    and "ring_inv e' = ring_inv e"
  shows "idle_at i e' = idle_at i e"
  using assms by (simp add: idle_at_def inflight_count_def)

lemma rest_busy: "rest i f e \<Longrightarrow> busy_slots e = []"
  using length_busy_slots[of e] by (auto simp: rest_def idle_at_def dest: ring_invD)

text \<open>An interrupt on idle rings changes the registers and the record of the interrupt only.\<close>

lemma irq_at_rest:
  assumes "rest i f e" and "irq_status D e \<noteq> 0"
  shows "snd (edu_irq_handler D e) = (irq_acked D e)\<lparr>irq_done := True\<rparr>"
  using assms(2) rest_busy[OF assms(1)] by (simp add: edu_irq_handler_real)

lemma rest_acked:
  assumes "rest i f e"
  shows "rest i f ((irq_acked D e)\<lparr>irq_done := True\<rparr>)"
  using assms by (subst irq_acked_eq) (simp add: rest_def idle_at_def inflight_count_def)

lemma rest_fields [simp]:
  "rest i f (e\<lparr>bar0 := h\<rparr>) = rest i f e" "rest i f (e\<lparr>irq_done := b\<rparr>) = rest i f e"
  "rest i f (e\<lparr>last_irq := v\<rparr>) = rest i f e" "rest i f (e\<lparr>last_fact_in := v\<rparr>) = rest i f e"
  "rest i f (e\<lparr>last_fact_out := v\<rparr>) = rest i f e" "rest i f (e\<lparr>dma_ok := v\<rparr>) = rest i f e"
  "rest i f (e\<lparr>stat_factorial_ops := n\<rparr>) = rest i f e" "rest i f (e\<lparr>stat_dma_errors := n\<rparr>) = rest i f e"
  "rest i f (e\<lparr>dma_virt := m\<rparr>) = rest i f e" "rest i f (e\<lparr>inject_fault := g\<rparr>) = (idle_at i e \<and> f = g)"
  by (auto simp: rest_def idle_at_def inflight_count_def)

lemma rest_fact_started: "rest i f e \<Longrightarrow> rest i f (fact_started D [] req e)"
  by (simp add: fact_started_def edu_writel_def)

text \<open>A device that interrupts in state \<open>h\<close> during the wait of the factorial ioctl.\<close>

lemma factorial_served:
  assumes "rest i f e" and "dev_status D h \<noteq> 0"
  shows "\<exists>e'. edu_run_factorial D [] [EvDevice h, EvIrq] req e =
      (Inr (req\<lparr>fr_output := dev_fact D h, fr_irq_status := dev_status D h\<rparr>), e') \<and>
    rest i f e' \<and> last_fact_in e' = fr_input req \<and> last_fact_out e' = dev_fact D h"
proof -
  let ?s = "(fact_started D [] req e)\<lparr>bar0 := h\<rparr>"
  let ?t = "(irq_acked D ?s)\<lparr>irq_done := True\<rparr>"
  have r: "rest i f ?s" using rest_fact_started[OF assms(1)] by simp
  have st: "irq_status D ?s = dev_status D h" by (simp add: irq_status_bar0)
  have ev: "snd (edu_irq_handler D ?s) = ?t" using irq_at_rest[OF r] assms(2) st by simp
  have v: "fst (edu_readl D EDU_REG_FACT ?t) = dev_fact D h"
    using irq_fact_bar0[of D ?s] by (simp add: irq_fact_def edu_readl_fst)
  have l: "last_irq ?t = dev_status D h" by (subst irq_acked_eq) (simp add: st)
  have fields: "last_fact_in ?t = fr_input req" by (subst irq_acked_eq) simp
  have rt: "rest i f ?t" by (rule rest_acked[OF r])
  show ?thesis
    using assms(2) v l fields rt
    by (simp add: edu_run_factorial_eq ev st Let_def edu_readl_snd)
qed

lemma rest_dma_legs [simp]:
  "rest i f (edu_dma_out D e) = rest i f e" "rest i f (edu_dma_back D e) = rest i f e"
  by (simp_all add: edu_dma_out_def edu_dma_back_def edu_writel_def edu_writeq_def Let_def)

text \<open>A device that takes the pattern and brings it back, with an interrupt after each leg.\<close>

definition dma_served_by :: "'h \<Rightarrow> 'h \<Rightarrow> ('h edu_event list \<times> 'h edu_event list) \<Rightarrow>
    ('h edu_event list \<times> 'h edu_event list) \<Rightarrow> bool" where
  "dma_served_by h1 h2 w1 w2 \<longleftrightarrow> w1 = ([], [EvDevice h1, EvIrq]) \<and>
     w2 = ([], [EvStore 0 edu_dma_pattern, EvDevice h2, EvIrq])"

lemma rest_dma_check:
  assumes "rest i f e" and "mem_read (dma_virt e) 0 EDU_DMA_TEST_LEN = edu_dma_pattern"
  shows "fst (edu_dma_check e) = (if f = 1 then Inl EIO else ok)"
    "rest i (if f = 1 then 0 else f) (snd (edu_dma_check e))"
    "f \<noteq> 1 \<Longrightarrow> dma_ok (snd (edu_dma_check e)) = 1"
    "last_irq (snd (edu_dma_check e)) = last_irq e"
    "last_fact_in (snd (edu_dma_check e)) = last_fact_in e" "last_fact_out (snd (edu_dma_check e)) = last_fact_out e"
  using assms by (auto simp: edu_dma_check_def rest_def idle_at_def inflight_count_def)

lemmas legacy_irq = legacy_event[where ev = EvIrq, unfolded edu_do.simps]

lemma dma_served:
  assumes "rest i f e" and "dma_served_by h1 h2 w1 w2" and st: "dev_status D h1 \<noteq> 0" "dev_status D h2 \<noteq> 0"
  shows "\<exists>e'. edu_run_dma_test D w1 w2 e = (if f = 1 then Inl EIO else ok, e') \<and>
    rest i (if f = 1 then 0 else f) e' \<and> (f \<noteq> 1 \<longrightarrow> dma_ok e' = 1) \<and> last_irq e' = dev_status D h2 \<and>
    last_fact_in e' = last_fact_in e \<and> last_fact_out e' = last_fact_out e"
proof -
  let ?w1 = "([], [EvDevice h1, EvIrq])" and ?w2 = "([], [EvStore 0 edu_dma_pattern, EvDevice h2, EvIrq])"
  let ?a = "(dma_wait1 D ?w1 e)\<lparr>bar0 := h1\<rparr>"
  let ?b = "(dma_wait2 D ?w1 ?w2 e)\<lparr>dma_virt := mem_write (dma_virt (dma_wait2 D ?w1 ?w2 e)) 0 edu_dma_pattern, bar0 := h2\<rparr>"
  let ?f = "dma_landed D ?w1 ?w2 e"
  have w: "w1 = ?w1" "w2 = ?w2" using assms(2) by (simp_all add: dma_served_by_def)
  have ra: "rest i f ?a" using assms(1) by (simp add: dma_wait1_def)
  have ia: "snd (edu_irq_handler D ?a) = (irq_acked D ?a)\<lparr>irq_done := True\<rparr>"
    using irq_at_rest[OF ra] st(1) by (simp add: irq_status_bar0)
  have rb: "rest i f ?b" using rest_acked[OF ra, of D] by (simp add: dma_wait2_def ia)
  have ib: "?f = (irq_acked D ?b)\<lparr>irq_done := True\<rparr>"
    using irq_at_rest[OF rb] st(2) by (simp add: dma_landed_def irq_status_bar0)
  have rf: "rest i f ?f" unfolding ib by (rule rest_acked[OF rb])
  have read: "mem_read (dma_virt ?f) 0 EDU_DMA_TEST_LEN = edu_dma_pattern"
    by (simp add: ib)
  have last: "last_irq ?f = dev_status D h2" unfolding ib by (subst irq_acked_eq) (simp add: irq_status_bar0)
  have facts: "last_fact_in ?f = last_fact_in e" "last_fact_out ?f = last_fact_out e"
    by (simp_all add: dma_landed_def dma_wait2_def dma_wait1_def del: edu_events_simps)
      (simp_all add: edu_dma_out_def edu_dma_back_def edu_writel_def edu_writeq_def legacy_irq Let_def)
  have "edu_run_dma_test D ?w1 ?w2 e = edu_dma_check ?f"
    using st by (simp add: edu_run_dma_test_eq irq_status_bar0)
  then show ?thesis
    using rest_dma_check[OF rf read] last facts unfolding w
    by (cases "edu_dma_check ?f") simp
qed

section \<open>The methods\<close>

text \<open>
  The driver's file is open, the rings are idle at slot \<open>i\<close>, the object's own count of submissions
  points there, and \<open>f\<close> is in the knob.
\<close>

definition ready :: "nat \<Rightarrow> u32 \<Rightarrow> edu_device \<Rightarrow> 'h world \<Rightarrow> bool" where
  "ready i f d w \<longleftrightarrow> attached d w \<and> rest i f (w_edu w) \<and> unat (ud_sq_tail d AND RING_MASK) = i"

text \<open>Environments in which the device answers one call.\<close>

definition answers_factorial :: "'h mmio \<Rightarrow> 'h env \<Rightarrow> 'h \<Rightarrow> bool" where
  "answers_factorial D E h \<longleftrightarrow> en_pre E = [] \<and> en_wait1 E = ([], [EvDevice h, EvIrq]) \<and> dev_status D h \<noteq> 0"

definition answers_dma :: "'h mmio \<Rightarrow> 'h env \<Rightarrow> 'h \<Rightarrow> 'h \<Rightarrow> bool" where
  "answers_dma D E h1 h2 \<longleftrightarrow> en_pre E = [] \<and> dma_served_by h1 h2 (en_wait1 E) (en_wait2 E) \<and>
     dev_status D h1 \<noteq> 0 \<and> dev_status D h2 \<noteq> 0"

text \<open>One command and its wait of \<open>ms\<close> milliseconds: the answer comes during sleep number \<open>k\<close>.\<close>

definition answers_round :: "'h mmio \<Rightarrow> 'h env \<Rightarrow> int \<Rightarrow> nat \<Rightarrow> 'h \<Rightarrow> bool" where
  "answers_round D E ms k h \<longleftrightarrow> en_pre E = [] \<and> answers_at D E k h \<and> int k < 2 * ms"

lemma ud_factorial_served:
  assumes "ready i f d w" and "answers_factorial D E h"
  shows "\<exists>e'. ud_factorial D E n d w = (Inr (dev_fact D h), w\<lparr>w_edu := e'\<rparr>) \<and> ready i f d (w\<lparr>w_edu := e'\<rparr>) \<and>
    last_fact_in e' = n \<and> last_fact_out e' = dev_fact D h"
  using assms factorial_served[of i f "w_edu w" D h "\<lparr>fr_input = n, fr_output = 0, fr_irq_status = 0\<rparr>"]
  by (auto simp: ready_def answers_factorial_def ud_factorial_def sys_ioctl_attached edu_ioctl_factorial)

lemma ud_dma_served:
  assumes "ready i f d w" and "answers_dma D E h1 h2"
  shows "\<exists>e'. ud_dma_test D E d w = (if f = 1 then throw_errno E ''EDU_IOC_RUN_DMA_TEST'' EIO else Inr (), w\<lparr>w_edu := e'\<rparr>) \<and>
    ready i (if f = 1 then 0 else f) d (w\<lparr>w_edu := e'\<rparr>) \<and> (f \<noteq> 1 \<longrightarrow> dma_ok e' = 1) \<and>
    last_irq e' = dev_status D h2 \<and> last_fact_in e' = last_fact_in (w_edu w) \<and>
    last_fact_out e' = last_fact_out (w_edu w)"
proof -
  obtain e' where "edu_run_dma_test D (en_wait1 E) (en_wait2 E) (w_edu w) = (if f = 1 then Inl EIO else ok, e')"
    "rest i (if f = 1 then 0 else f) e'" "f \<noteq> 1 \<longrightarrow> dma_ok e' = 1" "last_irq e' = dev_status D h2"
    "last_fact_in e' = last_fact_in (w_edu w)" "last_fact_out e' = last_fact_out (w_edu w)"
    using assms dma_served[of i f "w_edu w" h1 h2 "en_wait1 E" "en_wait2 E" D]
    by (auto simp: ready_def answers_dma_def)
  then show ?thesis
    using assms by (intro exI[of _ e'])
      (auto simp: ready_def answers_dma_def ud_dma_test_def sys_ioctl_attached edu_ioctl_dma_test throw_errno_def)
qed

lemma tail_next:
  assumes "unat (t AND RING_MASK) = i"
  shows "unat ((t + 1) AND RING_MASK) = (i + 1) mod RING_SIZE"
proof -
  have "unat (t + 1) mod 64 = (unat t mod 64 + 1) mod 64"
    by (simp add: unat_word_ariths mod_mod_cancel mod_Suc_eq)
  then show ?thesis using assms by (simp add: unat_ring_mask RING_SIZE_def)
qed

lemma client_step:
  assumes r: "ready i f d w" and a: "answers_round D E ms k h" and "int32 (ms * 1000)"
    and opc: "opcode = EDU_OP_FACTORIAL \<or> opcode = EDU_OP_DMA_TEST"
  shows "\<exists>e1 e2. let d' = d\<lparr>ud_sq_tail := ud_sq_tail d + 1\<rparr>; w1 = w\<lparr>w_edu := e1\<rparr>; w2 = w\<lparr>w_edu := e2\<rparr> in
    ud_submit D E tag opcode operand d w = (Inr (), d', w1) \<and>
    ud_wait_completion D E ms d' w1 = (Inr (Some (served tag opcode (dev_fact D h))), w2) \<and>
    ready ((i + 1) mod RING_SIZE) f d' w2 \<and>
    sq_get (dma_virt e1) i = sq_entry_of (request tag opcode operand)"
proof -
  let ?e = "w_edu w" and ?q = "request tag opcode operand"
  let ?d = "d\<lparr>ud_sq_tail := ud_sq_tail d + 1\<rparr>" and ?w = "w\<lparr>w_edu := snd (edu_ring_submit D ?q ?e)\<rparr>"
  have at: "attached d w" and idle: "idle_at i ?e" and f: "inject_fault ?e = f" and t: "unat (ud_sq_tail d AND RING_MASK) = i"
    using r by (auto simp: ready_def rest_def)
  note I = idle_atD[OF idle]
  have "ud_submit D E tag opcode operand d w = (Inr (), ?d, ?w)"
    using I(6) opc a by (simp add: ud_submit_def ud_ioctl_submit_attached[OF at] answers_round_def Let_def)
  moreover have "sub_opcode ?q \<noteq> 0" using opc by (auto simp: edu_ops)
  then obtain e2 where "ud_wait_completion D E ms ?d ?w = (Inr (Some (served tag opcode (dev_fact D h))), ?w\<lparr>w_edu := e2\<rparr>)"
    "idle_at ((i + 1) mod RING_SIZE) e2" "inject_fault e2 = f"
    using ud_wait_served[of ?d ?w ms k D E h i ?e ?q] at a assms(3) idle f by (auto simp: answers_round_def)
  moreover have "sq_get (dma_virt (snd (edu_ring_submit D ?q ?e))) i = sq_entry_of ?q"
    using sq_get_enqueue[OF I(1,6), of ?q] I(2,6) by (simp add: edu_ring_submit_snd)
  ultimately show ?thesis
    using at tail_next[OF t]
    by (intro exI[of _ "snd (edu_ring_submit D ?q ?e)"] exI[of _ e2]) (simp add: ready_def rest_def)
qed

section \<open>The sections\<close>

lemma demo_then_print [simp]:
  "demo_then (demo_print ls d w) f = (let (out, res, d, w) = f d w in (ls @ out, res, d, w))"
  by (simp add: demo_then_def demo_print_def)

lemma demo_then_ok [simp]:
  "demo_then (ls, Inr u, d, w) f = (let (out, res, d, w) = f d w in (ls @ out, res, d, w))"
  by (simp add: demo_then_def)

definition fact_line :: "u32 \<Rightarrow> u32 \<Rightarrow> line" where
  "fact_line n v = Cout [Str ''  '', Num (uint n), Str ''! = '', Num (uint v), Endl]"

lemma legacy_loop_served:
  assumes "ready i f d w" and "\<And>j. j < length ns \<Longrightarrow> answers_factorial D (Es (k + j)) (H (k + j))"
  shows "\<exists>e'. legacy_loop D Es k ns d w =
      (map2 (\<lambda>j n. fact_line n (dev_fact D (H j))) [k..<k + length ns] ns, Inr (), d, w\<lparr>w_edu := e'\<rparr>) \<and>
    ready i f d (w\<lparr>w_edu := e'\<rparr>) \<and>
    (ns \<noteq> [] \<longrightarrow> last_fact_in e' = last ns \<and> last_fact_out e' = dev_fact D (H (k + length ns - 1)))"
  using assms
proof (induction ns arbitrary: k w)
  case Nil
  then show ?case by (intro exI[of _ "w_edu w"]) simp
next
  case (Cons n ns)
  obtain e1 where e1: "ud_factorial D (Es k) n d w = (Inr (dev_fact D (H k)), w\<lparr>w_edu := e1\<rparr>)"
    "ready i f d (w\<lparr>w_edu := e1\<rparr>)" "last_fact_in e1 = n" "last_fact_out e1 = dev_fact D (H k)"
    using ud_factorial_served[OF Cons.prems(1), of D "Es k" "H k" n] Cons.prems(2)[of 0] by auto
  obtain e2 where e2: "legacy_loop D Es (Suc k) ns d (w\<lparr>w_edu := e1\<rparr>) =
      (map2 (\<lambda>j n. fact_line n (dev_fact D (H j))) [Suc k..<Suc k + length ns] ns, Inr (), d, w\<lparr>w_edu := e2\<rparr>)"
    "ready i f d (w\<lparr>w_edu := e2\<rparr>)"
    "ns \<noteq> [] \<longrightarrow> last_fact_in e2 = last ns \<and> last_fact_out e2 = dev_fact D (H (Suc k + length ns - 1))"
    using Cons.IH[OF e1(2), of "Suc k"] Cons.prems(2)[of "Suc j" for j] by auto
  have ks: "[k..<k + length (n # ns)] = k # [Suc k..<Suc k + length ns]" by (subst upt_conv_Cons) simp_all
  show ?case
  proof (cases "ns = []")
    case True
    then show ?thesis using e1 by (intro exI[of _ e1]) (simp add: fact_line_def)
  next
    case False
    then show ?thesis using e1 e2 unfolding ks
      by (intro exI[of _ e2]) (simp add: fact_line_def)
  qed
qed

definition legacy_lines :: "'h mmio \<Rightarrow> (nat \<Rightarrow> 'h) \<Rightarrow> 'h \<Rightarrow> line list" where
  "legacy_lines D H h2 =
     Cout [Endl, Str ''=== Legacy blocking ioctls ==='', Endl] #
     map2 (\<lambda>j n. fact_line n (dev_fact D (H j))) [0..<5] [0, 1, 5, 10, 12] @
     [Cout [Str ''  DMA test... ''], Cout [Str ''passed'', Endl],
      show_state \<lparr>sr_last_irq = dev_status D h2, sr_last_fact_in = 12,
        sr_last_fact_out = dev_fact D (H 4), sr_dma_ok = 1\<rparr>]"

lemma ud_state_ready:
  "ready i f d w \<Longrightarrow> en_pre E = [] \<Longrightarrow> ud_state D E d w = (Inr (edu_get_state (w_edu w)), w)"
  by (simp add: ready_def ud_state_def sys_ioctl_attached edu_ioctl_get_state)

lemma demo_legacy_served:
  assumes r: "ready i 0 d w" and "\<And>j. j < 5 \<Longrightarrow> answers_factorial D (Es j) (H j)"
    and "answers_dma D (Es 5) h1 h2" and "en_pre (Es 6) = []"
  shows "\<exists>e'. demo_legacy D Es d w = (legacy_lines D H h2, Inr (), d, w\<lparr>w_edu := e'\<rparr>) \<and> ready i 0 d (w\<lparr>w_edu := e'\<rparr>)"
proof -
  let ?ns = "[0, 1, 5, 10, 12] :: u32 list"
  have len: "length ?ns = 5" by simp
  obtain e1 where e1: "legacy_loop D Es 0 ?ns d w =
      (map2 (\<lambda>j n. fact_line n (dev_fact D (H j))) [0..<5] ?ns, Inr (), d, w\<lparr>w_edu := e1\<rparr>)"
    "ready i 0 d (w\<lparr>w_edu := e1\<rparr>)"
    "?ns \<noteq> [] \<longrightarrow> last_fact_in e1 = last ?ns \<and> last_fact_out e1 = dev_fact D (H (5 - 1))"
    using legacy_loop_served[OF r, of ?ns D Es 0 H, unfolded len add_0] assms(2) by blast
  then have facts: "last_fact_in e1 = 12" "last_fact_out e1 = dev_fact D (H 4)" by simp_all
  obtain e2 where e2: "ud_dma_test D (Es 5) d (w\<lparr>w_edu := e1\<rparr>) = (Inr (), w\<lparr>w_edu := e2\<rparr>)"
    "ready i 0 d (w\<lparr>w_edu := e2\<rparr>)" "dma_ok e2 = 1" "last_irq e2 = dev_status D h2"
    "last_fact_in e2 = 12" "last_fact_out e2 = dev_fact D (H 4)"
    using ud_dma_served[OF e1(2) assms(3)] facts by auto
  have "demo_legacy D Es d w = (legacy_lines D H h2, Inr (), d, w\<lparr>w_edu := e2\<rparr>)"
    using e2(3-6) by (simp add: demo_legacy_def e1(1) e2(1) ud_state_ready[OF e2(2) assms(4)] legacy_lines_def
        edu_get_state_def del: legacy_loop.simps upt_Suc upt.simps upt_rec_numeral)
  then show ?thesis using e2(2) by blast
qed

subsection \<open>The loops over the rings\<close>

text \<open>Round \<open>j\<close> of a loop is answered with the device in state \<open>H j\<close>.\<close>

definition rounds_answered :: "'h mmio \<Rightarrow> (nat \<Rightarrow> 'h env) \<Rightarrow> int \<Rightarrow> nat set \<Rightarrow> (nat \<Rightarrow> 'h) \<Rightarrow> bool" where
  "rounds_answered D Es ms js H \<longleftrightarrow> (\<forall>j \<in> js. \<exists>k. answers_round D (Es j) ms k (H j))"

definition after_rounds :: "nat \<Rightarrow> edu_device \<Rightarrow> edu_device" where
  "after_rounds n d = d\<lparr>ud_sq_tail := ud_sq_tail d + of_nat n\<rparr>"

lemma after_rounds_simps [simp]:
  "after_rounds 0 d = d"
  "after_rounds n (d\<lparr>ud_sq_tail := ud_sq_tail d + 1\<rparr>) = after_rounds (Suc n) d"
  "after_rounds m (after_rounds n d) = after_rounds (n + m) d"
  by (simp_all add: after_rounds_def algebra_simps)

lemma served_ops:
  "served t EDU_OP_FACTORIAL v = \<lparr>co_tag = t, co_status = 0, co_result = v\<rparr>"
  "served t EDU_OP_DMA_TEST v = \<lparr>co_tag = t, co_status = 0, co_result = 0\<rparr>"
  by (simp_all add: served_def edu_ops)

lemma loop_step:
  assumes "ready i f d w" and "rounds_answered D Es ms js H" and "m \<in> js" and "m < 2 ^ 16" and "int32 (ms * 1000)"
  obtains e1 e2 where
    "ud_submit_factorial D (Es (unat (of_nat m :: u16))) (of_nat m) x d w = (Inr (), after_rounds 1 d, w\<lparr>w_edu := e1\<rparr>)"
    "ud_wait_completion D (Es (unat (of_nat m :: u16))) ms (after_rounds 1 d) (w\<lparr>w_edu := e1\<rparr>) =
      (Inr (Some \<lparr>co_tag = of_nat m, co_status = 0, co_result = dev_fact D (H m)\<rparr>), w\<lparr>w_edu := e2\<rparr>)"
    "ready ((i + 1) mod RING_SIZE) f (after_rounds 1 d) (w\<lparr>w_edu := e2\<rparr>)"
proof -
  have m: "unat (of_nat m :: u16) = m" using assms(4) by (simp add: unsigned_of_nat take_bit_nat_eq_self)
  obtain k where "answers_round D (Es m) ms k (H m)" using assms(2,3) by (auto simp: rounds_answered_def)
  from client_step[OF assms(1) this assms(5), of EDU_OP_FACTORIAL "of_nat m" x]
  show ?thesis using that m by (auto simp: Let_def ud_submit_factorial_def after_rounds_def served_ops)
qed

text \<open>The lines of the rounds from \<open>m\<close> on.\<close>

definition round_line :: "'h mmio \<Rightarrow> (nat \<Rightarrow> 'h) \<Rightarrow> nat \<Rightarrow> line" where
  "round_line D H j = show_completion \<lparr>co_tag = of_nat j, co_status = 0, co_result = dev_fact D (H j)\<rparr>"

lemma async_loop_served:
  assumes "ready i f d w" and "rounds_answered D Es 2000 {m..<m + n} H" and "m + n \<le> 2 ^ 16"
  shows "\<exists>e'. async_loop D Es n (of_nat m) d w =
      (map (round_line D H) [m..<m + n], Inr (), after_rounds n d, w\<lparr>w_edu := e'\<rparr>) \<and>
    ready ((i + n) mod RING_SIZE) f (after_rounds n d) (w\<lparr>w_edu := e'\<rparr>)"
  using assms
proof (induction n arbitrary: m i d w)
  case 0
  have "i mod RING_SIZE = i" using "0.prems"(1) ring_mask_less[of "ud_sq_tail d"] by (auto simp: ready_def)
  then show ?case using "0.prems"(1) by (intro exI[of _ "w_edu w"]) simp
next
  case (Suc n)
  have "m \<in> {m..<m + Suc n}" "m < 2 ^ 16" using Suc.prems(3) by auto
  from loop_step[OF Suc.prems(1,2) this] obtain e1 e2 where e: "ud_submit_factorial D (Es (unat (of_nat m :: u16))) (of_nat m) (ucast (of_nat m :: u16) + 1) d w = (Inr (), after_rounds 1 d, w\<lparr>w_edu := e1\<rparr>)"
    "ud_wait_completion D (Es (unat (of_nat m :: u16))) 2000 (after_rounds 1 d) (w\<lparr>w_edu := e1\<rparr>) =
      (Inr (Some \<lparr>co_tag = of_nat m, co_status = 0, co_result = dev_fact D (H m)\<rparr>), w\<lparr>w_edu := e2\<rparr>)"
    "ready ((i + 1) mod RING_SIZE) f (after_rounds 1 d) (w\<lparr>w_edu := e2\<rparr>)"
    by (auto simp: int32_def)
  have "rounds_answered D Es 2000 {Suc m..<Suc m + n} H" using Suc.prems(2) by (simp add: rounds_answered_def)
  from Suc.IH[OF e(3) this] Suc.prems(3) obtain e3 where
    "async_loop D Es n (of_nat (Suc m)) (after_rounds 1 d) (w\<lparr>w_edu := e2\<rparr>) =
      (map (round_line D H) [Suc m..<Suc m + n], Inr (), after_rounds (Suc n) d, w\<lparr>w_edu := e3\<rparr>)"
    "ready ((i + Suc n) mod RING_SIZE) f (after_rounds (Suc n) d) (w\<lparr>w_edu := e3\<rparr>)"
    by (auto simp: mod_simps)
  moreover have "[m..<m + Suc n] = m # [Suc m..<Suc m + n]" by (subst upt_conv_Cons) simp_all
  moreover have "of_nat m + 1 = (of_nat (Suc m) :: u16)" by simp
  ultimately show ?case using e(1,2)
    by (intro exI[of _ e3]) (simp add: round_line_def del: upt_Suc of_nat_Suc)
qed

lemma throughput_loop_served:
  assumes "ready i f d w" and "rounds_answered D Es 5000 {m..<m + n} H" and "m + n \<le> 2 ^ 16"
  shows "\<exists>e'. throughput_loop D Es n (of_nat m) d w = ([], Inr (), after_rounds n d, w\<lparr>w_edu := e'\<rparr>) \<and>
    ready ((i + n) mod RING_SIZE) f (after_rounds n d) (w\<lparr>w_edu := e'\<rparr>)"
  using assms
proof (induction n arbitrary: m i d w)
  case 0
  have "i mod RING_SIZE = i" using "0.prems"(1) ring_mask_less[of "ud_sq_tail d"] by (auto simp: ready_def)
  then show ?case using "0.prems"(1) by (intro exI[of _ "w_edu w"]) simp
next
  case (Suc n)
  have "m \<in> {m..<m + Suc n}" "m < 2 ^ 16" using Suc.prems(3) by auto
  from loop_step[OF Suc.prems(1,2) this] obtain e1 e2 where e: "ud_submit_factorial D (Es (unat (of_nat m :: u16))) (of_nat m) (ucast ((of_nat m :: u16) mod 12) + 1) d w = (Inr (), after_rounds 1 d, w\<lparr>w_edu := e1\<rparr>)"
    "ud_wait_completion D (Es (unat (of_nat m :: u16))) 5000 (after_rounds 1 d) (w\<lparr>w_edu := e1\<rparr>) =
      (Inr (Some \<lparr>co_tag = of_nat m, co_status = 0, co_result = dev_fact D (H m)\<rparr>), w\<lparr>w_edu := e2\<rparr>)"
    "ready ((i + 1) mod RING_SIZE) f (after_rounds 1 d) (w\<lparr>w_edu := e2\<rparr>)"
    by (auto simp: int32_def)
  have "rounds_answered D Es 5000 {Suc m..<Suc m + n} H" using Suc.prems(2) by (simp add: rounds_answered_def)
  from Suc.IH[OF e(3) this] Suc.prems(3) obtain e3 where
    "throughput_loop D Es n (of_nat (Suc m)) (after_rounds 1 d) (w\<lparr>w_edu := e2\<rparr>) =
      ([], Inr (), after_rounds (Suc n) d, w\<lparr>w_edu := e3\<rparr>)"
    "ready ((i + Suc n) mod RING_SIZE) f (after_rounds (Suc n) d) (w\<lparr>w_edu := e3\<rparr>)"
    by (auto simp: mod_simps)
  moreover have "of_nat m + 1 = (of_nat (Suc m) :: u16)" by simp
  ultimately show ?case using e(1,2)
    by (intro exI[of _ e3]) (simp del: of_nat_Suc)
qed

definition async_lines :: "'h mmio \<Rightarrow> (nat \<Rightarrow> 'h) \<Rightarrow> line list" where
  "async_lines D H =
     [Cout [Endl, Str ''=== Async SQ/CQ ring path ==='', Endl],
      Cout [Str ''  Submitting '', Num 8, Str '' factorial commands (one at a time):'', Endl]] @
     map (round_line D H) [0..<8] @
     [Cout [Str ''  Submitting DMA test via ring...'', Endl],
      show_completion \<lparr>co_tag = 0xFF, co_status = 0, co_result = 0\<rparr>]"

lemma demo_async_served:
  assumes r: "ready i f d w" and a: "rounds_answered D Es 2000 {0..8} H"
  shows "\<exists>e'. demo_async D Es d w = (async_lines D H, Inr (), after_rounds 9 d, w\<lparr>w_edu := e'\<rparr>) \<and>
    ready ((i + 9) mod RING_SIZE) f (after_rounds 9 d) (w\<lparr>w_edu := e'\<rparr>)"
proof -
  have a8: "rounds_answered D Es 2000 {0..<0 + 8} H" using a by (simp add: rounds_answered_def)
  obtain e1 where e1: "async_loop D Es 8 0 d w =
      (map (round_line D H) [0..<8], Inr (), after_rounds 8 d, w\<lparr>w_edu := e1\<rparr>)"
    "ready ((i + 8) mod RING_SIZE) f (after_rounds 8 d) (w\<lparr>w_edu := e1\<rparr>)"
    using async_loop_served[OF r a8] by (auto simp del: async_loop.simps upt_Suc upt.simps)
  obtain k where k: "answers_round D (Es 8) 2000 k (H 8)"
    using a unfolding rounds_answered_def by (metis atLeastAtMost_iff le_refl zero_le)
  obtain e2 e3 where e2:
    "ud_submit_dma_test D (Es 8) 0xFF (after_rounds 8 d) (w\<lparr>w_edu := e1\<rparr>) = (Inr (), after_rounds 9 d, w\<lparr>w_edu := e2\<rparr>)"
    "ud_wait_completion D (Es 8) 2000 (after_rounds 9 d) (w\<lparr>w_edu := e2\<rparr>) =
      (Inr (Some \<lparr>co_tag = 0xFF, co_status = 0, co_result = 0\<rparr>), w\<lparr>w_edu := e3\<rparr>)"
    "ready ((i + 9) mod RING_SIZE) f (after_rounds 9 d) (w\<lparr>w_edu := e3\<rparr>)"
    using client_step[OF e1(2) k, of EDU_OP_DMA_TEST "0xFF" 0]
    by (auto simp: Let_def ud_submit_dma_test_def served_ops int32_def after_rounds_def mod_simps add.commute)
  have "demo_async D Es d w = (async_lines D H, Inr (), after_rounds 9 d, w\<lparr>w_edu := e3\<rparr>)"
    using e1(1) e2(1,2) by (simp add: demo_async_def async_lines_def del: async_loop.simps upt_Suc upt.simps upt_rec_numeral)
  then show ?thesis using e2(3) by blast
qed

definition mmap_lines :: "u64 \<Rightarrow> nat \<Rightarrow> line list" where
  "mmap_lines p i =
     [Cout [Endl, Str ''=== Zero-copy mmap ring inspection ==='', Endl],
      Cout [Str ''  SQ base VA = '', Ptr p, Endl], Cout [Str ''  CQ base VA = '', Ptr (p + of_nat SQ_SIZE), Endl],
      Cout [Str (''  After zc submit '' @ em_dash @ '' SQ[''), Num (int i), Str '']: tag='', Num 42, Str '' opcode=0x'', Hex 1, Endl],
      Cout [Str ''  Rings unmapped'', Endl]]"

definition maps_at :: "'h env \<Rightarrow> u64 \<Rightarrow> bool" where
  "maps_at E p \<longleftrightarrow> en_mmap E = Inr p \<and> en_remap E p (en_pfn E) (of_nat DMA_BUF_TOTAL) = ok"

lemma sys_mmap_attached:
  "attached d w \<Longrightarrow> maps_at E p \<Longrightarrow>
    sys_mmap E (ud_fd d) DMA_BUF_TOTAL w = (Inr p, w\<lparr>w_maps := insert p (w_maps w)\<rparr>)"
  by (simp add: sys_mmap_def attached_def maps_at_def edu_mmap_def)

lemma demo_mmap_served:
  assumes r: "ready i f d w" and a: "answers_round D E 2000 k h" and m: "maps_at E p" "p \<notin> w_maps w"
    and d: "\<not> ud_rings_mapped d" "ud_ring_map d = 0"
  shows "\<exists>e'. demo_mmap D E d w = (mmap_lines p i, Inr (), after_rounds 1 d, w\<lparr>w_edu := e'\<rparr>) \<and>
    ready ((i + 1) mod RING_SIZE) f (after_rounds 1 d) (w\<lparr>w_edu := e'\<rparr>)"
proof -
  let ?d = "d\<lparr>ud_ring_map := p, ud_rings_mapped := True\<rparr>" and ?q = "request 42 EDU_OP_FACTORIAL 7"
  let ?w = "w\<lparr>w_maps := insert p (w_maps w)\<rparr>"
  let ?z = "?w\<lparr>w_edu := zc_stored ?d ?q (w_edu w)\<rparr>"
  have at: "attached d w" and i: "unat (ud_sq_tail d AND RING_MASK) = i" using r by (auto simp: ready_def)
  then have map: "ud_map_rings E d w = (Inr (), ?d, ?w)"
    using d(1) m(1) by (simp add: ud_map_rings_def sys_mmap_attached)
  have "ready i f ?d ?z" using r by (simp add: ready_def attached_def zc_stored_def)
  from client_step[OF this a, of EDU_OP_FACTORIAL 42 7] obtain e1 e2 where e:
    "ud_submit D E 42 EDU_OP_FACTORIAL 7 ?d ?z = (Inr (), after_rounds 1 ?d, ?w\<lparr>w_edu := e1\<rparr>)"
    "ud_wait_completion D E 2000 (after_rounds 1 ?d) (?w\<lparr>w_edu := e1\<rparr>) =
      (Inr (Some (served 42 EDU_OP_FACTORIAL (dev_fact D h))), ?w\<lparr>w_edu := e2\<rparr>)"
    "ready ((i + 1) mod RING_SIZE) f (after_rounds 1 ?d) (?w\<lparr>w_edu := e2\<rparr>)"
    "sq_get (dma_virt e1) i = sq_entry_of ?q"
    by (auto simp: Let_def int32_def after_rounds_def)
  define d1 where "d1 = after_rounds 1 ?d"
  note e = e[folded d1_def]
  have zc: "ud_submit_factorial_zc D E 42 7 ?d ?w = (Inr (), d1, ?w\<lparr>w_edu := e1\<rparr>)"
    using e(1) by (simp add: ud_submit_factorial_zc_def ud_submit_zc_mapped mapped_def ud_submit_def)
  have ptr: "ud_sq_ptr ?d = Inr p" "ud_cq_ptr ?d = Inr (p + of_nat SQ_SIZE)" "ud_sq_ptr d1 = Inr p"
    by (simp_all add: ud_sq_ptr_def ud_cq_ptr_def d1_def after_rounds_def)
  have load: "load_sq p (ud_sq_tail d AND RING_MASK) (?w\<lparr>w_edu := e1\<rparr>) = Some (sq_entry_of ?q)"
    using e(4) i by (simp add: load_sq_def)
  have un: "ud_unmap_rings d1 (?w\<lparr>w_edu := e2\<rparr>) = (after_rounds 1 d, w\<lparr>w_edu := e2\<rparr>)"
    using m(2) d by (simp add: ud_unmap_rings_def sys_munmap_def d1_def after_rounds_def)
  have "uint (ud_sq_tail d AND RING_MASK) = int i" using i by (simp add: uint_nat)
  then have "demo_mmap D E d w = (mmap_lines p i, Inr (), after_rounds 1 d, w\<lparr>w_edu := e2\<rparr>)"
    using e(2) by (simp add: demo_mmap_def demo_mmap_zc_def map ptr zc load un mmap_lines_def demo_print_def sq_entry_of_def edu_ops Let_def)
  moreover have "ready ((i + 1) mod RING_SIZE) f (after_rounds 1 d) (w\<lparr>w_edu := e2\<rparr>)"
    using e(3) by (simp add: ready_def attached_def d1_def after_rounds_def)
  ultimately show ?thesis by blast
qed

definition fault_lines :: "sysfs \<Rightarrow> 'h env \<Rightarrow> line list" where
  "fault_lines y E =
     Cout [Endl, Str ''=== Fault injection (Phase 7) ==='', Endl] #
     (if \<not> sy_open y then [Cout [Str (''  Skipping '' @ em_dash @ '' sysfs knob not accessible (need root + driver loaded)''), Endl]]
      else
     [Cout [Str ''  Fault armed via '', Str sysfs_path, Endl],
      Cout [Str ''  Running DMA test with fault armed...'', Endl],
      Cout [Str ''  Got expected error: '',
        Str (''EDU_IOC_RUN_DMA_TEST'' @ '': '' @ en_strerror E EIO), Endl],
      Cout [Str ''  inject_fault after trigger = '', (if sy_read y then Num 0 else Str []),
        Str ('' (expected 0 '' @ em_dash @ '' auto-cleared)''), Endl],
      Cout [Str ''  Running DMA test again (should succeed)...'', Endl],
      Cout [Str (''  Recovery confirmed '' @ em_dash @ '' DMA test passed''), Endl]])"

lemma demo_fault_served:
  assumes r: "ready i 0 d w" and a: "answers_dma D E1 g1 g2" "answers_dma D E2 h1 h2"
    and y: "sy_open y \<Longrightarrow> sy_parsed y = Inr 1"
  shows "\<exists>e'. demo_fault_injection D y E1 E2 d w = (fault_lines y E1, Inr (), d, w\<lparr>w_edu := e'\<rparr>) \<and>
    ready i 0 d (w\<lparr>w_edu := e'\<rparr>)"
proof (cases "sy_open y")
  case False
  then show ?thesis using r
    by (intro exI[of _ "w_edu w"]) (simp add: demo_fault_injection_def demo_print_def fault_lines_def)
next
  case True
  let ?w = "w\<lparr>w_edu := snd (inject_fault_store (sy_parsed y) 2 (w_edu w))\<rparr>"
  have "ready i 1 d ?w"
    using r y[OF True] by (simp add: ready_def attached_def inject_fault_store_def) (simp add: rest_def)
  from ud_dma_served[OF this a(1)] obtain e1 where
    e1: "ud_dma_test D E1 d ?w = (throw_errno E1 ''EDU_IOC_RUN_DMA_TEST'' EIO, w\<lparr>w_edu := e1\<rparr>)"
      "ready i 0 d (w\<lparr>w_edu := e1\<rparr>)" by auto
  obtain e2 where e2: "ud_dma_test D E2 d (w\<lparr>w_edu := e1\<rparr>) = (Inr (), w\<lparr>w_edu := e2\<rparr>)"
      "ready i 0 d (w\<lparr>w_edu := e2\<rparr>)" using ud_dma_served[OF e1(2) a(2)] by auto
  have "inject_fault e1 = 0" using e1(2) by (simp add: ready_def rest_def)
  then have "demo_fault_injection D y E1 E2 d w = (fault_lines y E1, Inr (), d, w\<lparr>w_edu := e2\<rparr>)"
    using True e1(1) e2(1)
    by (simp add: demo_fault_injection_def demo_fault_armed_def demo_print_def throw_errno_def inject_fault_show_def fault_lines_def Let_def)
  then show ?thesis using e2(2) by blast
qed

lemma demo_throughput_served:
  assumes r: "ready i f d w" and a: "rounds_answered D Es 5000 {0..<64} H"
  shows "\<exists>e'. demo_throughput D timing Es d w =
      (Cout [Endl, Str ''=== Throughput benchmark (ring submit) ==='', Endl] # timing, Inr (), after_rounds 64 d,
       w\<lparr>w_edu := e'\<rparr>) \<and>
    ready i f (after_rounds 64 d) (w\<lparr>w_edu := e'\<rparr>)"
proof -
  have "rounds_answered D Es 5000 {0..<0 + 64} H" using a by simp
  from throughput_loop_served[OF r this] obtain e' where
    e: "throughput_loop D Es 64 (of_nat 0) d w = ([], Inr (), after_rounds 64 d, w\<lparr>w_edu := e'\<rparr>)"
      "ready ((i + 64) mod RING_SIZE) f (after_rounds 64 d) (w\<lparr>w_edu := e'\<rparr>)" by auto
  have "i < RING_SIZE" using r ring_mask_less[of "ud_sq_tail d"] by (auto simp: ready_def)
  then have i: "(i + 64) mod RING_SIZE = i" by (simp add: RING_SIZE_def)
  have "throughput_loop D Es 64 0 d w = ([], Inr (), after_rounds 64 d, w\<lparr>w_edu := e'\<rparr>)" using e(1) by (simp del: throughput_loop.simps)
  then show ?thesis
    using e(2) unfolding i by (intro exI[of _ e']) (simp add: demo_throughput_def demo_print_def del: throughput_loop.simps)
qed

section \<open>The whole program\<close>

text \<open>The system opens the driver's file and an eventfd on two new descriptors, and nobody else uses the
  device between the \<open>open\<close> and the end of the registration.\<close>

definition opens_at :: "'h env \<Rightarrow> int \<Rightarrow> int \<Rightarrow> 'h world \<Rightarrow> bool" where
  "opens_at E fd efd w \<longleftrightarrow> en_open E ''/dev/edu_pci'' = Inr (fd, FileEdu) \<and> (\<exists>c. en_eventfd E = Inr (efd, c)) \<and>
     en_pre E = [] \<and> fst (en_wait1 E) = [] \<and> fd \<ge> 0 \<and> efd \<ge> 0 \<and> fd \<noteq> efd \<and> w_files w fd = None \<and> w_files w efd = None"

lemma construct_ready:
  assumes "opens_at E fd efd w"
  shows "\<exists>c e'. ud_construct D E ''/dev/edu_pci'' w =
      (Inr (ud_empty\<lparr>ud_fd := fd, ud_evtfd := efd\<rparr>),
       w\<lparr>w_files := (w_files w)(fd \<mapsto> FileEdu, efd \<mapsto> FileEvent c), w_edu := e'\<rparr>) \<and>
    ready 0 (inject_fault (w_edu w)) (ud_empty\<lparr>ud_fd := fd, ud_evtfd := efd\<rparr>)
      (w\<lparr>w_files := (w_files w)(fd \<mapsto> FileEdu, efd \<mapsto> FileEvent c), w_edu := e'\<rparr>)"
proof -
  obtain c where c: "en_eventfd E = Inr (efd, c)" using assms by (auto simp: opens_at_def)
  have "rest 0 (inject_fault (w_edu w)) (snd (edu_set_eventfd D [] (Inr c) (edu_open (w_edu w))))"
    using idle_at_open[of "w_edu w"]
    by (simp add: rest_def edu_set_eventfd_def edu_eventfd_defs idle_at_def inflight_count_def edu_open_def Let_def split: option.split)
  then show ?thesis
    using assms c
    by (intro exI[of _ c] exI[of _ "snd (edu_set_eventfd D [] (Inr c) (edu_open (w_edu w)))"])
      (simp add: opens_at_def ud_construct_def sys_open_def sys_eventfd_def ud_register_eventfd_def sys_ioctl_def
        env_run_def edu_ioctl_eventfd eventfd_fdget_def edu_set_eventfd_def ud_empty_def ready_def attached_def Let_def)
qed

text \<open>What the device answers to each call of the program, and what the system does.\<close>

definition demo_answered ::
    "'h mmio \<Rightarrow> 'h demo_env \<Rightarrow> (nat \<Rightarrow> 'h) \<Rightarrow> 'h \<Rightarrow> (nat \<Rightarrow> 'h) \<Rightarrow> u64 \<Rightarrow> 'h world \<Rightarrow> bool" where
  "demo_answered D V LH h2 AH p w \<longleftrightarrow>
     (\<forall>j < 5. answers_factorial D (de_legacy V j) (LH j)) \<and> (\<exists>h1. answers_dma D (de_legacy V 5) h1 h2) \<and>
     en_pre (de_legacy V 6) = [] \<and> rounds_answered D (de_async V) 2000 {0..8} AH \<and>
     (\<exists>k h. answers_round D (de_mmap V) 2000 k h) \<and> maps_at (de_mmap V) p \<and> p \<notin> w_maps w \<and>
     (\<exists>g1 g2. answers_dma D (de_fault1 V) g1 g2) \<and> (\<exists>g1 g2. answers_dma D (de_fault2 V) g1 g2) \<and>
     (sy_open (de_sysfs V) \<longrightarrow> sy_parsed (de_sysfs V) = Inr 1) \<and>
     (\<exists>TH. rounds_answered D (de_throughput V) 5000 {0..<64} TH)"

definition demo_lines :: "'h mmio \<Rightarrow> 'h demo_env \<Rightarrow> (nat \<Rightarrow> 'h) \<Rightarrow> 'h \<Rightarrow> (nat \<Rightarrow> 'h) \<Rightarrow> u64 \<Rightarrow> int \<Rightarrow> line list" where
  "demo_lines D V LH h2 AH p fd =
     [Cout [Str ''Opened /dev/edu_pci  fd='', Num fd, Endl]] @ legacy_lines D LH h2 @ async_lines D AH @
     mmap_lines p 9 @ fault_lines (de_sysfs V) (de_fault1 V) @
     [Cout [Endl, Str ''=== Throughput benchmark (ring submit) ==='', Endl]] @ de_timing V @
     [Cout [Endl, Str ''All demos passed.'', Endl]]"

lemma demo_body_served:
  assumes r: "ready 0 0 d w" and a: "demo_answered D V LH h2 AH p w"
    and d: "\<not> ud_rings_mapped d" "ud_ring_map d = 0"
  shows "\<exists>e'. demo_body D V d w = (demo_lines D V LH h2 AH p (ud_fd d), Inr (), after_rounds 74 d, w\<lparr>w_edu := e'\<rparr>) \<and>
    ready 10 0 (after_rounds 74 d) (w\<lparr>w_edu := e'\<rparr>)"
proof -
  obtain h1 k h g1 g2 g3 g4 TH where
    a1: "\<And>j. j < 5 \<Longrightarrow> answers_factorial D (de_legacy V j) (LH j)" "answers_dma D (de_legacy V 5) h1 h2"
      "en_pre (de_legacy V 6) = []" and
    a2: "rounds_answered D (de_async V) 2000 {0..8} AH" and
    a3: "answers_round D (de_mmap V) 2000 k h" "maps_at (de_mmap V) p" "p \<notin> w_maps w" and
    a4: "answers_dma D (de_fault1 V) g1 g2" "answers_dma D (de_fault2 V) g3 g4"
      "sy_open (de_sysfs V) \<Longrightarrow> sy_parsed (de_sysfs V) = Inr 1" and
    a5: "rounds_answered D (de_throughput V) 5000 {0..<64} TH"
    using a unfolding demo_answered_def by blast
  obtain e1 where e1: "demo_legacy D (de_legacy V) d w = (legacy_lines D LH h2, Inr (), d, w\<lparr>w_edu := e1\<rparr>)"
    "ready 0 0 d (w\<lparr>w_edu := e1\<rparr>)" using demo_legacy_served[OF r a1] by blast
  obtain e2 where e2: "demo_async D (de_async V) d (w\<lparr>w_edu := e1\<rparr>) =
      (async_lines D AH, Inr (), after_rounds 9 d, w\<lparr>w_edu := e2\<rparr>)" "ready 9 0 (after_rounds 9 d) (w\<lparr>w_edu := e2\<rparr>)"
    using demo_async_served[OF e1(2) a2] by (auto simp: RING_SIZE_def)
  have "\<not> ud_rings_mapped (after_rounds 9 d)" "ud_ring_map (after_rounds 9 d) = 0" "p \<notin> w_maps (w\<lparr>w_edu := e2\<rparr>)"
    using d a3(3) by (simp_all add: after_rounds_def)
  then obtain e3 where e3: "demo_mmap D (de_mmap V) (after_rounds 9 d) (w\<lparr>w_edu := e2\<rparr>) =
      (mmap_lines p 9, Inr (), after_rounds 10 d, w\<lparr>w_edu := e3\<rparr>)" "ready 10 0 (after_rounds 10 d) (w\<lparr>w_edu := e3\<rparr>)"
    using demo_mmap_served[OF e2(2) a3(1,2)] by (auto simp: RING_SIZE_def)
  obtain e4 where e4: "demo_fault_injection D (de_sysfs V) (de_fault1 V) (de_fault2 V) (after_rounds 10 d) (w\<lparr>w_edu := e3\<rparr>) =
      (fault_lines (de_sysfs V) (de_fault1 V), Inr (), after_rounds 10 d, w\<lparr>w_edu := e4\<rparr>)"
    "ready 10 0 (after_rounds 10 d) (w\<lparr>w_edu := e4\<rparr>)"
    using demo_fault_served[OF e3(2) a4] by auto
  obtain e5 where e5: "demo_throughput D (de_timing V) (de_throughput V) (after_rounds 10 d) (w\<lparr>w_edu := e4\<rparr>) =
      (Cout [Endl, Str ''=== Throughput benchmark (ring submit) ==='', Endl] # de_timing V, Inr (), after_rounds 74 d,
       w\<lparr>w_edu := e5\<rparr>)" "ready 10 0 (after_rounds 74 d) (w\<lparr>w_edu := e5\<rparr>)"
    using demo_throughput_served[OF e4(2) a5] by auto
  have "demo_body D V d w = (demo_lines D V LH h2 AH p (ud_fd d), Inr (), after_rounds 74 d, w\<lparr>w_edu := e5\<rparr>)"
    by (simp add: demo_body_def e1(1) e2(1) e3(1) e4(1) e5(1) demo_print_def demo_lines_def)
  then show ?thesis using e5(2) by blast
qed

text \<open>C19. The demo program on a system that opens the device for it alone and a device that answers every call in time:
  it exits with 0 and prints the banner of every section in order, the five factorials and the
  state, the eight completions of the asynchronous section with tags 0 to 7 and the status and
  result of each, the slot its zero-copy store went to, slot 9, with tag 42 and opcode 1, the
  injected fault and the recovery, and no timeout. 74 commands have gone through the rings, once
  around, which are idle at slot 10, the knob is cleared again, and the process has its descriptors
  and mappings of before.\<close>

theorem demo_main_passes:
  assumes "opens_at (de_open V) fd efd w" and "inject_fault (w_edu w) = 0"
    and "demo_answered D V LH h2 AH p w"
  shows "\<exists>e'. demo_main D V w = Some (0, demo_lines D V LH h2 AH p fd, w\<lparr>w_edu := e'\<rparr>) \<and>
    idle_at 10 e' \<and> inject_fault e' = 0"
proof -
  let ?d = "ud_empty\<lparr>ud_fd := fd, ud_evtfd := efd\<rparr>"
  obtain c e where con: "ud_construct D (de_open V) ''/dev/edu_pci'' w =
      (Inr ?d, w\<lparr>w_files := (w_files w)(fd \<mapsto> FileEdu, efd \<mapsto> FileEvent c), w_edu := e\<rparr>)"
    and r: "ready 0 0 ?d (w\<lparr>w_files := (w_files w)(fd \<mapsto> FileEdu, efd \<mapsto> FileEvent c), w_edu := e\<rparr>)"
    using construct_ready[OF assms(1), of D] assms(2) by auto
  let ?w = "w\<lparr>w_files := (w_files w)(fd \<mapsto> FileEdu, efd \<mapsto> FileEvent c), w_edu := e\<rparr>"
  have "demo_answered D V LH h2 AH p ?w" using assms(3) by (simp add: demo_answered_def)
  moreover have "\<not> ud_rings_mapped ?d" "ud_ring_map ?d = 0" by (simp_all add: ud_empty_def)
  ultimately obtain e' where b: "demo_body D V ?d ?w = (demo_lines D V LH h2 AH p (ud_fd ?d), Inr (), after_rounds 74 ?d, ?w\<lparr>w_edu := e'\<rparr>)"
    "ready 10 0 (after_rounds 74 ?d) (?w\<lparr>w_edu := e'\<rparr>)"
    using demo_body_served[OF r] by blast
  have "(w_files w)(fd := None, efd := None) = w_files w" using assms(1) by (auto simp: opens_at_def)
  then have "ud_destroy (after_rounds 74 ?d) (?w\<lparr>w_edu := e'\<rparr>) = w\<lparr>w_edu := e'\<rparr>"
    using assms(1) by (simp add: ud_destroy_def ud_unmap_rings_def close_if_def sys_close_def after_rounds_def
        ud_empty_def opens_at_def fun_upd_twist)
  then have "demo_main D V w = Some (0, demo_lines D V LH h2 AH p fd, w\<lparr>w_edu := e'\<rparr>)"
    using b(1) by (simp add: demo_main_def con)
  then show ?thesis using b(2) by (intro exI[of _ e']) (simp add: ready_def rest_def)
qed

text \<open>One environment that answers every kind of call of the witnesses' device.\<close>

definition wit_answers_all :: "access list env" where
  "wit_answers_all = (quiet_env wit_sch)\<lparr>en_wait1 := ([], [EvDevice [], EvIrq]),
     en_wait2 := ([], [EvStore 0 edu_dma_pattern, EvDevice [], EvIrq]),
     en_open := (\<lambda>_. Inr (3, FileEdu)), en_eventfd := Inr (4, 1), en_mmap := Inr 0x7000\<rparr>"

definition wit_demo :: "access list demo_env" where
  "wit_demo = \<lparr>de_open = wit_answers_all, de_legacy = (\<lambda>_. wit_answers_all), de_async = (\<lambda>_. wit_answers_all),
     de_mmap = wit_answers_all, de_sysfs = \<lparr>sy_open = True, sy_read = True, sy_parsed = Inr 1\<rparr>,
     de_fault1 = wit_answers_all, de_fault2 = wit_answers_all, de_throughput = (\<lambda>_. wit_answers_all), de_timing = []\<rparr>"

lemma wit_demo_answered: "demo_answered wit_dev wit_demo (\<lambda>_. []) [] (\<lambda>_. []) 0x7000 (world wit_process)"
proof -
  have "answers_at wit_dev wit_answers_all 1 []" using wit_answers by (simp add: answers_at_def wit_answers_all_def)
  then have round: "answers_round wit_dev wit_answers_all ms 1 []" if "ms \<ge> 1" for ms
    using that by (simp add: answers_round_def wit_answers_all_def)
  then have all: "rounds_answered wit_dev (\<lambda>_. wit_answers_all) ms js (\<lambda>_. [])" if "ms \<ge> 1" for ms js
    using that unfolding rounds_answered_def by blast
  have "\<exists>k h. answers_round wit_dev wit_answers_all 2000 k h"
    "\<exists>TH. rounds_answered wit_dev (\<lambda>_. wit_answers_all) 5000 {0..<64} TH"
    "rounds_answered wit_dev (\<lambda>_. wit_answers_all) 2000 {0..8} (\<lambda>_. [])"
    using round[of 2000] all[of 5000] all[of 2000] by (auto intro!: exI)
  moreover have "answers_factorial wit_dev wit_answers_all []" "\<exists>h1 h2. answers_dma wit_dev wit_answers_all h1 h2"
    "\<exists>h1. answers_dma wit_dev wit_answers_all h1 []"
    by (auto simp: answers_factorial_def answers_dma_def dma_served_by_def wit_answers_all_def)
  moreover have "maps_at wit_answers_all 0x7000" by (simp add: maps_at_def wit_answers_all_def quiet_env_def)
  moreover have "en_pre wit_answers_all = []" by (simp add: wit_answers_all_def)
  ultimately show ?thesis unfolding demo_answered_def by (simp add: wit_demo_def wit_process_def)
qed

theorem demo_main_passes_witness:
  "\<exists>e'. demo_main wit_dev wit_demo (world wit_process) =
      Some (0, demo_lines wit_dev wit_demo (\<lambda>_. []) [] (\<lambda>_. []) 0x7000 3, (world wit_process)\<lparr>w_edu := e'\<rparr>) \<and>
    fact_line 5 120 \<in> set (demo_lines wit_dev wit_demo (\<lambda>_. []) [] (\<lambda>_. []) 0x7000 3)"
proof -
  have "opens_at (de_open wit_demo) 3 4 (world wit_process)"
    by (simp add: opens_at_def wit_demo_def wit_answers_all_def wit_process_def)
  moreover have "inject_fault (w_edu (world wit_process)) = 0" by (simp add: wit_process_def edu_fresh_def)
  moreover have "fact_line 5 120 \<in> set (demo_lines wit_dev wit_demo (\<lambda>_. []) [] (\<lambda>_. []) 0x7000 3)"
    by (simp add: demo_lines_def legacy_lines_def upt_rec numeral_eq_Suc)
  ultimately show ?thesis using demo_main_passes[OF _ _ wit_demo_answered] by blast
qed

end
