(* ===== verification/User_Demo_Owns.thy ===== *)
theory User_Demo_Owns
  imports User_Demo User_Edu_C
begin

text \<open>
  The demo program whatever the device and the system answer: no section meets what C++ leaves
  undefined, and on every path, normal or exceptional, the process gives back what it took, except
  the two descriptors of a constructor that throws on a file that is not the driver's.
\<close>

section \<open>A process with one object\<close>

abbreviation alone :: "edu_device \<Rightarrow> 'h world \<Rightarrow> 'h process" where
  "alone d w \<equiv> \<lparr>objs = [0 \<mapsto> d], world = w, leaked = {}\<rparr>"

definition live :: "edu_device \<Rightarrow> 'h world \<Rightarrow> bool" where
  "live d w \<longleftrightarrow> owned (alone d w) \<and> ud_fd d \<ge> 0"

lemma live_attached: "live d w \<Longrightarrow> attached d w"
  using ownedD(4)[of "alone d w" 0 d] by (simp add: live_def device_files_def attached_def)

lemma live_mapped: "live d w \<Longrightarrow> ud_rings_mapped d \<Longrightarrow> ud_ring_map d \<in> w_maps w"
  using ownedD(6)[of "alone d w" 0 d "Mapping (ud_ring_map d)"] by (simp add: live_def)

lemma live_unmapped: "live d w \<Longrightarrow> \<not> ud_rings_mapped d \<Longrightarrow> p \<notin> w_maps w"
  using ownedD(1)[of "alone d w" "Mapping p"]
  by (auto simp: live_def owner_of_def split: if_splits option.splits)

lemma live_same: "live d w \<Longrightarrow> same_process w w' \<Longrightarrow> same_owned d d' \<Longrightarrow> live d' w'"
  using owned_same[of "alone d w" 0 d w' d']
  by (auto simp: live_def same_owned_def)

text \<open>
  How a part of a section leaves the object and the world: never undefined, and with \<open>Q\<close> of the
  object when no exception left it.
\<close>

definition leaves :: "(edu_device \<Rightarrow> bool) \<Rightarrow> 'h demo \<Rightarrow> bool" where
  "leaves Q r \<longleftrightarrow> (case r of (out, res, d, w) \<Rightarrow> live d w \<and> res \<noteq> Inl Undefined \<and> (\<forall>u. res = Inr u \<longrightarrow> Q d))"

lemma leaves_then:
  assumes "leaves Q r" and "\<And>d w. live d w \<Longrightarrow> Q d \<Longrightarrow> leaves R (f d w)"
  shows "leaves R (demo_then r f)"
proof -
  obtain out res d w where r: "r = (out, res, d, w)" by (cases r)
  show ?thesis
  proof (cases res)
    case (Inl ex)
    then show ?thesis using assms(1) by (simp add: r leaves_def demo_then_def)
  next
    case (Inr u)
    then have "leaves R (f d w)" using assms by (simp add: r leaves_def)
    then show ?thesis using Inr by (cases "f d w") (simp add: r leaves_def demo_then_def)
  qed
qed

lemma leaves_print [simp]: "live d w \<Longrightarrow> Q d \<Longrightarrow> leaves Q (demo_print ls d w)"
  by (simp add: leaves_def demo_print_def)

lemma leaves_mono: "leaves Q r \<Longrightarrow> (\<And>d. Q d \<Longrightarrow> R d) \<Longrightarrow> leaves R r"
  by (auto simp: leaves_def split: prod.splits)

text \<open>The calls the sections make.\<close>

lemma live_client:
  assumes "live d w"
  shows "live d (snd (ud_factorial D E n d w))" "live d (snd (ud_dma_test D E d w))" "live d (snd (ud_state D E d w))"
    "live d (snd (ud_wait_completion D E ms d w))"
  using client_frame[of w D E "OpFactorial n" d] client_frame[of w D E OpDmaTest d] client_frame[of w D E OpState d]
    client_frame[of w D E "OpWait ms" d] assms
  by (auto intro: live_same)

lemma live_submit:
  assumes "live d w"
  shows "live (fst (snd (ud_submit D E t opc x d w))) (snd (snd (ud_submit D E t opc x d w)))"
    "ud_rings_mapped (fst (snd (ud_submit D E t opc x d w))) = ud_rings_mapped d"
    "fst (ud_submit D E t opc x d w) \<noteq> Inl Undefined"
proof -
  show "live (fst (snd (ud_submit D E t opc x d w))) (snd (snd (ud_submit D E t opc x d w)))"
    "ud_rings_mapped (fst (snd (ud_submit D E t opc x d w))) = ud_rings_mapped d"
    using submit_frame[of w D E t opc x d] live_same[OF assms] by (auto simp: ud_submit_def same_owned_def)
  show "fst (ud_submit D E t opc x d w) \<noteq> Inl Undefined"
    by (simp add: ud_submit_def ud_ioctl_submit_attached[OF live_attached[OF assms]] Let_def)
qed

lemma live_submit_zc:
  assumes "live d w" and "ud_rings_mapped d"
  shows "live (fst (snd (ud_submit_zc D E t opc x d w))) (snd (snd (ud_submit_zc D E t opc x d w)))"
    "ud_rings_mapped (fst (snd (ud_submit_zc D E t opc x d w)))"
    "fst (ud_submit_zc D E t opc x d w) \<noteq> Inl Undefined"
  using client_frame[of w D E "OpSubmitZc t opc x" d] assms ud_submit_zc_answer[OF live_attached live_mapped, OF assms(1) assms(1), of D E t opc x]
  by (auto simp: same_owned_def intro: live_same)

lemma wait_defined:
  assumes "live d w" and "int32 (ms * 1000)"
  shows "fst (ud_wait_completion D E ms d w) \<noteq> Inl ex"
  using assms by (simp add: ud_wait_completion_spec[OF live_attached] wait_spec_def split: option.split)

lemma state_defined: "live d w \<Longrightarrow> fst (ud_state D E d w) \<noteq> Inl ex"
  by (simp add: ud_state_attached[OF live_attached])

lemma ud_construct_defined: "fst (ud_construct D E path w) \<noteq> Inl Undefined"
  by (auto simp: ud_construct_def ud_register_eventfd_def throw_errno_def Let_def split: prod.splits sum.splits)

section \<open>The sections\<close>

abbreviation no_map :: "edu_device \<Rightarrow> bool" where
  "no_map d \<equiv> \<not> ud_rings_mapped d"

lemma legacy_loop_leaves: "live d w \<Longrightarrow> no_map d \<Longrightarrow> leaves no_map (legacy_loop D Es k ns d w)"
proof (induction ns arbitrary: k d w)
  case Nil
  then show ?case by (simp add: leaves_def)
next
  case (Cons n ns)
  obtain r v where c: "ud_factorial D (Es k) n d w = (r, v)" by (cases "ud_factorial D (Es k) n d w")
  have "live d v" "r \<noteq> Inl Undefined"
    using live_client(1)[OF Cons.prems(1), of D "Es k" n] ud_factorial_defined[of D "Es k" n d w] c by simp_all
  then show ?case using Cons c by (cases r) (auto simp: leaves_def[of _ "(_, Inl _, _, _)"] intro!: leaves_then[of no_map])
qed

lemma dma_part: "live d w \<Longrightarrow> Q d \<Longrightarrow> leaves Q (let (r, w) = ud_dma_test D E d w in ([], r, d, w))"
  using live_client(2)[of d w D E] ud_dma_test_defined[of D E d w]
  by (simp add: leaves_def split_def Let_def)

lemma demo_legacy_leaves:
  assumes "live d w" and "no_map d"
  shows "leaves no_map (demo_legacy D Es d w)"
  unfolding demo_legacy_def
proof (intro leaves_then[of no_map] leaves_print legacy_loop_leaves dma_part assms)
  fix d and w :: "'a world"
  assume l: "live d w" "no_map d"
  obtain r v where c: "ud_state D (Es 6) d w = (r, v)" by (cases "ud_state D (Es 6) d w")
  then show "leaves no_map (case ud_state D (Es 6) d w of (Inl ex, w) \<Rightarrow> ([], Inl ex, d, w)
       | (Inr s, w) \<Rightarrow> ([show_state s], Inr (), d, w))"
    using live_client(3)[OF l(1), of D "Es 6"] state_defined[OF l(1), of D "Es 6"] l(2)
    by (cases r) (auto simp: leaves_def)
qed

text \<open>A submission and its wait, with what the section does on a timeout and on a completion.\<close>

lemma round_leaves:
  assumes "live d w" and "no_map d" and ms: "int32 (ms * 1000)"
    and "\<And>d w c. live d w \<Longrightarrow> no_map d \<Longrightarrow> leaves no_map (f d w c)"
  shows "leaves no_map
    (case ud_submit D E t opc x d w of
       (Inl ex, d, w) \<Rightarrow> ([], Inl ex, d, w)
     | (Inr _, d, w) \<Rightarrow>
         (case ud_wait_completion D E ms d w of
            (Inl ex, w) \<Rightarrow> ([], Inl ex, d, w)
          | (Inr None, w) \<Rightarrow> (late, Inr (), d, w)
          | (Inr (Some c), w) \<Rightarrow> f d w c))"
proof -
  obtain r d1 w1 where s: "ud_submit D E t opc x d w = (r, d1, w1)" by (cases "ud_submit D E t opc x d w")
  have l: "live d1 w1" "no_map d1" "r \<noteq> Inl Undefined"
    using live_submit[OF assms(1), of D E t opc x] assms(2) s by simp_all
  obtain r2 w2 where c: "ud_wait_completion D E ms d1 w1 = (r2, w2)" by (cases "ud_wait_completion D E ms d1 w1")
  have "live d1 w2" "r2 \<noteq> Inl ex" for ex
    using live_client(4)[OF l(1), of D E ms] wait_defined[OF l(1) ms, of D E ex] c by simp_all
  then show ?thesis
    using l assms(4) s c by (cases r; cases r2; auto simp: leaves_def[of _ "(_, _, _, _)"] split: option.split)
qed

lemma async_loop_leaves: "live d w \<Longrightarrow> no_map d \<Longrightarrow> leaves no_map (async_loop D Es n i d w)"
proof (induction n arbitrary: i d w)
  case 0
  then show ?case by (simp add: leaves_def)
next
  case (Suc n)
  show ?case unfolding async_loop.simps ud_submit_factorial_def
    by (rule round_leaves) (use Suc in \<open>auto simp: int32_def intro!: leaves_then[of no_map]\<close>)
qed

lemma throughput_loop_leaves: "live d w \<Longrightarrow> no_map d \<Longrightarrow> leaves no_map (throughput_loop D Es n i d w)"
proof (induction n arbitrary: i d w)
  case 0
  then show ?case by (simp add: leaves_def)
next
  case (Suc n)
  show ?case unfolding throughput_loop.simps ud_submit_factorial_def
    by (rule round_leaves) (use Suc in \<open>auto simp: int32_def\<close>)
qed

lemma demo_async_leaves: "live d w \<Longrightarrow> no_map d \<Longrightarrow> leaves no_map (demo_async D Es d w)"
  unfolding demo_async_def ud_submit_dma_test_def
  by (intro leaves_then[of no_map] leaves_print async_loop_leaves round_leaves) (auto simp: int32_def leaves_def)

lemma demo_throughput_leaves: "live d w \<Longrightarrow> no_map d \<Longrightarrow> leaves no_map (demo_throughput D timing Es d w)"
  unfolding demo_throughput_def
  by (intro leaves_then[of no_map] leaves_print throughput_loop_leaves)

text \<open>The section over the mapping: an exception may leave it mapped, for the destructor to unmap.\<close>

lemma map_part:
  assumes "live d w" and "no_map d" and "\<And>p. en_mmap E = Inr p \<Longrightarrow> p \<noteq> 0"
  shows "leaves ud_rings_mapped (let (r, d, w) = ud_map_rings E d w in ([], r, d, w))"
proof -
  obtain r d' w' where m: "ud_map_rings E d w = (r, d', w')" by (cases "ud_map_rings E d w")
  have f: "fresh_mapping E w"
    using assms(3) live_unmapped[OF assms(1,2)] by (auto simp: fresh_mapping_def split: sum.split)
  have fd: "ud_fd d' = ud_fd d" and q: "\<And>u. r = Inr u \<Longrightarrow> ud_rings_mapped d'"
    using m assms(2) by (auto simp: ud_map_rings_def throw_errno_def split: prod.splits sum.splits if_splits)
  have "owned (alone d' w')"
    using owned_map[of "alone d w" 0 d E r d' w'] assms(1) f m by (simp add: live_def)
  then show ?thesis
    using assms(1) fd q ud_map_rings_defined[of E d w] m by (auto simp: leaves_def live_def)
qed

lemma unmap_part:
  assumes "live d w"
  shows "leaves no_map (let (d, w) = ud_unmap_rings d w in demo_print ls d w)"
proof -
  obtain d' w' where m: "ud_unmap_rings d w = (d', w')" by (cases "ud_unmap_rings d w")
  have "ud_fd d' = ud_fd d" "no_map d'" using m by (auto simp: ud_unmap_rings_def split: if_splits)
  moreover have "owned (alone d' w')"
    using owned_unmap[of "alone d w" 0 d d' w'] assms m by (simp add: live_def)
  ultimately show ?thesis using assms m by (simp add: leaves_def live_def demo_print_def)
qed

lemma wait_part:
  assumes l: "live d w"
  shows "leaves (\<lambda>_. True) (let (r, w) = ud_wait_completion D E 2000 d w in ([], map_sum id (\<lambda>_. ()) r, d, w))"
proof -
  obtain r v where c: "ud_wait_completion D E 2000 d w = (r, v)" by (cases "ud_wait_completion D E 2000 d w")
  have "live d v" "\<And>ex. r \<noteq> Inl ex"
    using live_client(4)[OF l, of D E 2000] wait_defined[OF l, of 2000 D E] c by (simp_all add: int32_def)
  then show ?thesis using c by (cases r) (auto simp: leaves_def)
qed

lemma zc_part:
  assumes "live d w" and "ud_rings_mapped d"
  shows "leaves ud_rings_mapped (let (r, d, w) = ud_submit_factorial_zc D E 42 7 d w in ([], r, d, w))"
  using live_submit_zc[OF assms, of D E 42 EDU_OP_FACTORIAL 7]
  by (simp add: leaves_def ud_submit_factorial_zc_def split_def Let_def)

lemma demo_mmap_zc_leaves:
  assumes "live d w" and "ud_rings_mapped d"
  shows "leaves no_map (demo_mmap_zc D E d w)"
  unfolding demo_mmap_zc_def Let_def[of "ud_sq_tail d"]
  by (rule leaves_then[OF zc_part[OF assms]])
    (simp add: ud_sq_ptr_def load_sq_def live_mapped,
     intro leaves_then[where Q = "\<lambda>_. True"] leaves_print wait_part[unfolded Let_def] unmap_part[unfolded Let_def]; simp)

lemma demo_mmap_leaves:
  assumes "live d w" and "no_map d" and "\<And>p. en_mmap E = Inr p \<Longrightarrow> p \<noteq> 0"
  shows "leaves no_map (demo_mmap D E d w)"
  unfolding demo_mmap_def
  by (intro leaves_then[where Q = no_map, OF leaves_print] leaves_then[where Q = ud_rings_mapped, OF map_part]
      assms; simp add: ud_sq_ptr_def ud_cq_ptr_def Let_def)
    (rule leaves_then[where Q = ud_rings_mapped, OF leaves_print demo_mmap_zc_leaves])

lemma live_knob: "live d w \<Longrightarrow> live d (w\<lparr>w_edu := e\<rparr>)"
  by (erule live_same) (simp_all add: same_owned_def)

text \<open>A failing DMA test is caught where the fault was armed; the second one is not.\<close>

lemma caught_part:
  assumes "live d w" and "no_map d"
  shows "leaves no_map
    (case ud_dma_test D E d w of
       (Inr _, w) \<Rightarrow> (l1, Inr (), d, w)
     | (Inl (RuntimeError what), w) \<Rightarrow> (l2 what, Inr (), d, w)
     | (Inl Undefined, w) \<Rightarrow> ([], Inl Undefined, d, w))"
  using live_client(2)[OF assms(1), of D E] ud_dma_test_defined[of D E d w] assms(2)
  by (cases "ud_dma_test D E d w") (auto simp: leaves_def split: sum.split cpp_exn.split)

lemma demo_fault_leaves:
  assumes "live d w" and "no_map d"
  shows "leaves no_map (demo_fault_injection D y E1 E2 d w)"
proof -
  have armed: "leaves no_map (demo_fault_armed D y E1 E2 d (w\<lparr>w_edu := e\<rparr>))"
    if "live d w" "no_map d" for d e and w :: "'a world"
    unfolding demo_fault_armed_def
    by (intro leaves_then[where Q = no_map] leaves_print caught_part dma_part live_knob that)
  show ?thesis
    unfolding demo_fault_injection_def Let_def
    by (intro leaves_then[where Q = no_map] leaves_print assms) (simp add: armed)
qed

lemma demo_body_leaves:
  assumes "live d w" and "no_map d" and "\<And>p. en_mmap (de_mmap V) = Inr p \<Longrightarrow> p \<noteq> 0"
  shows "leaves no_map (demo_body D V d w)"
  unfolding demo_body_def
  by (intro leaves_then[where Q = no_map] leaves_print demo_legacy_leaves demo_async_leaves demo_mmap_leaves
      demo_fault_leaves demo_throughput_leaves assms)

text \<open>C18. Whatever the device does and the system answers, with new descriptors that are new and no
  mapping at the null address: the demo program never meets what C++ leaves undefined, exits with 0
  or 1, and ends with no mapping left and nothing closed or unmapped that it did not have, on the
  paths an exception takes through its sections too. When the file at the path is the driver's, or
  \<open>open\<close> or \<open>eventfd\<close> fails, it ends with no descriptor left; when it is another file, it exits
  with 1 and leaves exactly the file and the eventfd open.\<close>

theorem demo_main_gives_back:
  assumes "w_files w = (\<lambda>_. None)" and "w_maps w = {}" and "w_bad w = 0"
    and "fresh_answers (de_open V) ''/dev/edu_pci'' w" and "\<And>p. en_mmap (de_mmap V) = Inr p \<Longrightarrow> p \<noteq> 0"
  shows "\<exists>code out w'. demo_main D V w = Some (code, out, w') \<and> code \<in> {0, 1} \<and> w_maps w' = {} \<and> w_bad w' = 0 \<and>
    (case (en_open (de_open V) ''/dev/edu_pci'', en_eventfd (de_open V)) of
       (Inr (fd, f), Inr (efd, c)) \<Rightarrow>
         if f = FileEdu then w_files w' = (\<lambda>_. None)
         else code = 1 \<and> w_files w' = [fd \<mapsto> f, efd \<mapsto> FileEvent c]
     | _ \<Rightarrow> code = 1 \<and> w_files w' = (\<lambda>_. None))"
proof -
  let ?s = "\<lparr>objs = (\<lambda>_. None), world = w, leaked = {}\<rparr> :: 'a process"
  have o: "owned ?s" by (rule owned_init) (simp add: process_init_def assms)
  obtain r v where con: "ud_construct D (de_open V) ''/dev/edu_pci'' w = (r, v)"
    by (cases "ud_construct D (de_open V) ''/dev/edu_pci'' w")
  note C = con[unfolded ud_construct_eq[OF assms(4)]]
  show ?thesis
  proof (cases r)
    case (Inl ex)
    moreover have "ex \<noteq> Undefined" using ud_construct_defined[of D "de_open V" "''/dev/edu_pci''" w] con Inl by auto
    ultimately have "\<exists>out. demo_main D V w = Some (1, out, v)" using con by (cases ex) (auto simp: demo_main_def)
    then show ?thesis
      using C Inl assms(1-3)
      by (auto simp: throw_errno_def env_run_def Let_def split: sum.splits prod.splits if_splits)
  next
    case (Inr d)
    have "owned (alone d v)" using owned_construct[OF o, of 0] assms(4) con Inr by simp
    moreover have "ud_fd d \<ge> 0" "no_map d" using construct_effect[OF assms(4) con] Inr by (auto simp: ud_empty_def)
    ultimately have "leaves no_map (demo_body D V d v)" by (intro demo_body_leaves assms(5)) (simp_all add: live_def)
    moreover obtain out res d' v' where b: "demo_body D V d v = (out, res, d', v')" by (cases "demo_body D V d v")
    ultimately have l: "live d' v'" "res \<noteq> Inl Undefined" by (simp_all add: leaves_def)
    let ?v = "ud_destroy d' v'"
    have owned: "owned \<lparr>objs = (\<lambda>_. None), world = ?v, leaked = {}\<rparr>"
      using owned_destroy[of "alone d' v'" 0 d'] l(1) by (simp add: live_def)
    have "\<not> holding ?v r" for r using ownedD(1)[OF owned, of r] by (simp add: owner_of_def)
    from this[of "Descriptor fd" for fd] this[of "Mapping p" for p]
    have gone: "w_files ?v = (\<lambda>_. None) \<and> w_maps ?v = {} \<and> w_bad ?v = 0" using ownedD(5)[OF owned] by auto
    have "\<exists>code out. demo_main D V w = Some (code, out, ?v) \<and> code \<in> {0, 1}"
      using l(2) con Inr b by (cases res rule: sum.exhaust) (auto simp: demo_main_def split: cpp_exn.split)
    moreover have "\<exists>fd efd c. en_open (de_open V) ''/dev/edu_pci'' = Inr (fd, FileEdu) \<and> en_eventfd (de_open V) = Inr (efd, c)"
      using C Inr by (auto simp: throw_errno_def Let_def split: sum.splits prod.splits if_splits)
    ultimately show ?thesis using gone by auto
  qed
qed

text \<open>A device that never interrupts.\<close>

definition wit_silent :: "access list demo_env" where
  "wit_silent = \<lparr>de_open = wit_env_open, de_legacy = (\<lambda>_. wit_env_open), de_async = (\<lambda>_. wit_env_open),
     de_mmap = wit_env_open, de_sysfs = \<lparr>sy_open = False, sy_read = False, sy_parsed = Inl EINVAL\<rparr>,
     de_fault1 = wit_env_open, de_fault2 = wit_env_open, de_throughput = (\<lambda>_. wit_env_open), de_timing = []\<rparr>"

theorem demo_main_gives_back_witness:
  "(\<exists>code out w'. demo_main (log_mmio (\<lambda>_. 1)) wit_silent (world wit_process) = Some (code, out, w') \<and>
      w_files w' = (\<lambda>_. None) \<and> w_maps w' = {}) \<and>
    (\<exists>out w'. demo_main (log_mmio (\<lambda>_. 1))
        (wit_silent\<lparr>de_open := wit_env_open\<lparr>en_open := (\<lambda>_. Inr (3, FileOther))\<rparr>\<rparr>) (world wit_process) = Some (1, out, w') \<and>
      w_files w' = [3 \<mapsto> FileOther, 4 \<mapsto> FileEvent 1] \<and> w_maps w' = {})"
proof
  let ?V = "wit_silent\<lparr>de_open := wit_env_open\<lparr>en_open := (\<lambda>_. Inr (3, FileOther))\<rparr>\<rparr>"
  have w: "w_files (world wit_process) = (\<lambda>_. None)" "w_maps (world wit_process) = {}" "w_bad (world wit_process) = 0"
    by (simp_all add: wit_process_def)
  have f: "fresh_answers (de_open wit_silent) ''/dev/edu_pci'' (world wit_process)"
    "fresh_answers (de_open ?V) ''/dev/edu_pci'' (world wit_process)"
    "\<And>p. en_mmap (de_mmap wit_silent) = Inr p \<Longrightarrow> p \<noteq> 0" "\<And>p. en_mmap (de_mmap ?V) = Inr p \<Longrightarrow> p \<noteq> 0"
    by (simp_all add: w fresh_answers_def wit_silent_def wit_env_open_def)
  have a: "en_open (de_open wit_silent) ''/dev/edu_pci'' = Inr (3, FileEdu)" "en_eventfd (de_open wit_silent) = Inr (4, 1)"
    "en_open (de_open ?V) ''/dev/edu_pci'' = Inr (3, FileOther)" "en_eventfd (de_open ?V) = Inr (4, 1)"
    by (simp_all add: wit_silent_def wit_env_open_def)
  show "\<exists>code out w'. demo_main (log_mmio (\<lambda>_. 1)) wit_silent (world wit_process) = Some (code, out, w') \<and>
      w_files w' = (\<lambda>_. None) \<and> w_maps w' = {}"
    using demo_main_gives_back[OF w f(1,3), of "log_mmio (\<lambda>_. 1)"] a(1,2) by auto
  show "\<exists>out w'. demo_main (log_mmio (\<lambda>_. 1)) ?V (world wit_process) = Some (1, out, w') \<and>
      w_files w' = [3 \<mapsto> FileOther, 4 \<mapsto> FileEvent 1] \<and> w_maps w' = {}"
    using demo_main_gives_back[OF w f(2,4), of "log_mmio (\<lambda>_. 1)"] a(3,4) by auto
qed

end
