(* ===== verification/User_Proto.thy ===== *)
theory User_Proto
  imports User_Base Proto_Ring
begin

text \<open>
  The class \<open>ProtoPcie\<close> of the three prototypes, \<open>userspace/proto_pcie.cpp\<close> under \<open>pcie_prototype\<close>,
  \<open>pcie_prototype_sim\<close> and \<open>pcie_prototype_ring\<close>, each over the ioctls of its own driver, and their
  demo programs. The process has a table of descriptors; an object is its descriptor.
\<close>

section \<open>System calls\<close>

text \<open>
  A descriptor refers to the driver's device file (\<open>True\<close>) or to another file. \<open>pe_pre\<close> is what
  interrupts and other processes do to the driver before a call enters it.
\<close>

record 'd pworld =
  pw_dev :: 'd
  pw_files :: "int \<Rightarrow> bool option"

record 'd penv =
  pe_pre :: "'d \<Rightarrow> 'd"
  pe_strerror :: "errno \<Rightarrow> string"
  pe_open :: "string \<Rightarrow> errno + int \<times> bool"

type_synonym 'd pioctl = "proto_user \<Rightarrow> u32 \<Rightarrow> 'd \<Rightarrow> ret \<times> proto_pcie_ring_state proto_out \<times> 'd"

definition p_open :: "'d penv \<Rightarrow> string \<Rightarrow> 'd pworld \<Rightarrow> (errno + int) \<times> 'd pworld" where
  "p_open E path w =
     (case pe_open E path of
        Inl err \<Rightarrow> (Inl err, w)
      | Inr (fd, f) \<Rightarrow> (Inr fd, w\<lparr>pw_files := (pw_files w)(fd \<mapsto> f)\<rparr>))"

definition p_close :: "int \<Rightarrow> 'd pworld \<Rightarrow> 'd pworld" where
  "p_close fd w = w\<lparr>pw_files := (pw_files w)(fd := None)\<rparr>"

definition p_ioctl ::
    "'d pioctl \<Rightarrow> 'd penv \<Rightarrow> int \<Rightarrow> u32 \<Rightarrow> proto_pcie_command option \<Rightarrow> 'd pworld \<Rightarrow>
      ret \<times> proto_pcie_ring_state proto_out \<times> 'd pworld" where
  "p_ioctl io E fd cmd arg w =
     (let w = w\<lparr>pw_dev := pe_pre E (pw_dev w)\<rparr>
      in case pw_files w fd of
           None \<Rightarrow> (Inl EBADF, PoutNone, w)
         | Some f \<Rightarrow>
             if \<not> f then (Inl ENOTTY, PoutNone, w)
             else (let (r, out, d) = io \<lparr>pu_cmd = arg, pu_writable = True\<rparr> cmd (pw_dev w)
                   in (r, out, w\<lparr>pw_dev := d\<rparr>)))"

text \<open>\<open>std::runtime_error(what + std::strerror(errno))\<close>\<close>

definition p_throw :: "'d penv \<Rightarrow> string \<Rightarrow> errno \<Rightarrow> 'a res" where
  "p_throw E what err = Inl (RuntimeError (what @ pe_strerror E err))"

text \<open>\<open>proto_pcie_command cmd{}\<close> and the other value-initialised structures.\<close>

definition zero_command :: proto_pcie_command where
  "zero_command = \<lparr>cmd_opcode = 0, cmd_length = 0, cmd_payload = replicate (unat PROTO_PCIE_MAX_PAYLOAD) 0\<rparr>"

definition zero_info :: proto_pcie_info where
  "zero_info = \<lparr>info_bar0_len = 0, info_irq = 0, info_ring_entries = 0, info_ring_entry_size = 0\<rparr>"

definition zero_ring_state :: proto_pcie_ring_state where
  "zero_ring_state = \<lparr>rs_cmd_head = 0, rs_cmd_tail = 0, rs_cmd_pending = 0, rs_comp_head = 0, rs_comp_tail = 0,
     rs_comp_pending = 0, rs_completed_total = 0, rs_last_opcode = 0, rs_last_length = 0, rs_last_status = 0,
     rs_next_seqno = 0\<rparr>"

text \<open>\<open>std::memcpy\<close> of the first \<open>n\<close> bytes of \<open>src\<close> over those of \<open>dst\<close>.\<close>

definition copy_bytes :: "u8 list \<Rightarrow> u8 list \<Rightarrow> nat \<Rightarrow> u8 list" where
  "copy_bytes dst src n = take n src @ drop n dst"

section \<open>The library of the basic prototype\<close>

definition base_lib_open :: "'d penv \<Rightarrow> string \<Rightarrow> 'd pworld \<Rightarrow> int res \<times> 'd pworld" where
  "base_lib_open E device_path w =
     (case p_open E device_path w of
        (Inl err, w) \<Rightarrow> (p_throw E (''failed to open device: '' @ device_path @ '': '') err, w)
      | (Inr fd, w) \<Rightarrow> (Inr fd, w))"

definition base_lib_close :: "int \<Rightarrow> 'd pworld \<Rightarrow> 'd pworld" where
  "base_lib_close fd w = (if fd \<ge> 0 then p_close fd w else w)"

definition base_lib_info ::
    "'h mmio \<Rightarrow> ('h, 'x) proto_dev_scheme penv \<Rightarrow> int \<Rightarrow> ('h, 'x) proto_dev_scheme pworld \<Rightarrow> proto_pcie_info res \<times> ('h, 'x) proto_dev_scheme pworld" where
  "base_lib_info D E fd w =
     (case p_ioctl (base_proto_ioctl D) E fd PROTO_PCIE_IOC_GET_INFO None w of
        (Inl err, _, w) \<Rightarrow> (p_throw E ''ioctl(GET_INFO) failed: '' err, w)
      | (Inr _, out, w) \<Rightarrow> (Inr (case out of PoutInfo i \<Rightarrow> i | _ \<Rightarrow> zero_info), w))"

definition base_lib_reset ::
    "'h mmio \<Rightarrow> ('h, 'x) proto_dev_scheme penv \<Rightarrow> int \<Rightarrow> ('h, 'x) proto_dev_scheme pworld \<Rightarrow> unit res \<times> ('h, 'x) proto_dev_scheme pworld" where
  "base_lib_reset D E fd w =
     (case p_ioctl (base_proto_ioctl D) E fd PROTO_PCIE_IOC_RESET None w of
        (Inl err, _, w) \<Rightarrow> (p_throw E ''ioctl(RESET) failed: '' err, w)
      | (Inr _, _, w) \<Rightarrow> (Inr (), w))"

text \<open>A \<open>memcpy\<close> of no bytes, which this copy of the library calls too, leaves the payload as it is.\<close>

definition base_lib_send_command ::
    "'h mmio \<Rightarrow> ('h, 'x) proto_dev_scheme penv \<Rightarrow> int \<Rightarrow> u32 \<Rightarrow> u8 list \<Rightarrow> ('h, 'x) proto_dev_scheme pworld \<Rightarrow> unit res \<times> ('h, 'x) proto_dev_scheme pworld" where
  "base_lib_send_command D E fd opcode payload w =
     (let cmd = zero_command;
          cmd = cmd\<lparr>cmd_opcode := opcode\<rparr>;
          cmd = cmd\<lparr>cmd_length := (if length payload > unat PROTO_PCIE_MAX_PAYLOAD
                       then PROTO_PCIE_MAX_PAYLOAD else of_nat (length payload))\<rparr>;
          cmd = cmd\<lparr>cmd_payload := copy_bytes (cmd_payload cmd) payload (unat (cmd_length cmd))\<rparr>
      in case p_ioctl (base_proto_ioctl D) E fd PROTO_PCIE_IOC_SEND_CMD (Some cmd) w of
           (Inl err, _, w) \<Rightarrow> (p_throw E ''ioctl(SEND_CMD) failed: '' err, w)
         | (Inr _, _, w) \<Rightarrow> (Inr (), w))"

definition base_lib_status ::
    "'h mmio \<Rightarrow> ('h, 'x) proto_dev_scheme penv \<Rightarrow> int \<Rightarrow> ('h, 'x) proto_dev_scheme pworld \<Rightarrow> u32 res \<times> ('h, 'x) proto_dev_scheme pworld" where
  "base_lib_status D E fd w =
     (case p_ioctl (base_proto_ioctl D) E fd PROTO_PCIE_IOC_GET_STATUS None w of
        (Inl err, _, w) \<Rightarrow> (p_throw E ''ioctl(GET_STATUS) failed: '' err, w)
      | (Inr _, out, w) \<Rightarrow> (Inr (case out of PoutStatus s \<Rightarrow> s | _ \<Rightarrow> 0), w))"

section \<open>The library of the simulated prototype\<close>

definition sim_lib_open :: "'d penv \<Rightarrow> string \<Rightarrow> 'd pworld \<Rightarrow> int res \<times> 'd pworld" where
  "sim_lib_open E device_path w =
     (case p_open E device_path w of
        (Inl err, w) \<Rightarrow> (p_throw E (''failed to open device: '' @ device_path @ '': '') err, w)
      | (Inr fd, w) \<Rightarrow> (Inr fd, w))"

definition sim_lib_close :: "int \<Rightarrow> 'd pworld \<Rightarrow> 'd pworld" where
  "sim_lib_close fd w = (if fd \<ge> 0 then p_close fd w else w)"

definition sim_lib_info ::
    "'h mmio \<Rightarrow> 'h sim_dev penv \<Rightarrow> int \<Rightarrow> 'h sim_dev pworld \<Rightarrow> proto_pcie_info res \<times> 'h sim_dev pworld" where
  "sim_lib_info D E fd w =
     (case p_ioctl (sim_proto_ioctl D) E fd PROTO_PCIE_IOC_GET_INFO None w of
        (Inl err, _, w) \<Rightarrow> (p_throw E ''ioctl(GET_INFO) failed: '' err, w)
      | (Inr _, out, w) \<Rightarrow> (Inr (case out of PoutInfo i \<Rightarrow> i | _ \<Rightarrow> zero_info), w))"

definition sim_lib_reset ::
    "'h mmio \<Rightarrow> 'h sim_dev penv \<Rightarrow> int \<Rightarrow> 'h sim_dev pworld \<Rightarrow> unit res \<times> 'h sim_dev pworld" where
  "sim_lib_reset D E fd w =
     (case p_ioctl (sim_proto_ioctl D) E fd PROTO_PCIE_IOC_RESET None w of
        (Inl err, _, w) \<Rightarrow> (p_throw E ''ioctl(RESET) failed: '' err, w)
      | (Inr _, _, w) \<Rightarrow> (Inr (), w))"

definition sim_lib_send_command ::
    "'h mmio \<Rightarrow> 'h sim_dev penv \<Rightarrow> int \<Rightarrow> u32 \<Rightarrow> u8 list \<Rightarrow> 'h sim_dev pworld \<Rightarrow> unit res \<times> 'h sim_dev pworld" where
  "sim_lib_send_command D E fd opcode payload w =
     (let cmd = zero_command;
          cmd = cmd\<lparr>cmd_opcode := opcode\<rparr>;
          cmd = cmd\<lparr>cmd_length := (if length payload > unat PROTO_PCIE_MAX_PAYLOAD
                       then PROTO_PCIE_MAX_PAYLOAD else of_nat (length payload))\<rparr>;
          cmd = (if cmd_length cmd > 0
                 then cmd\<lparr>cmd_payload := copy_bytes (cmd_payload cmd) payload (unat (cmd_length cmd))\<rparr>
                 else cmd)
      in case p_ioctl (sim_proto_ioctl D) E fd PROTO_PCIE_IOC_SEND_CMD (Some cmd) w of
           (Inl err, _, w) \<Rightarrow> (p_throw E ''ioctl(SEND_CMD) failed: '' err, w)
         | (Inr _, _, w) \<Rightarrow> (Inr (), w))"

definition sim_lib_status ::
    "'h mmio \<Rightarrow> 'h sim_dev penv \<Rightarrow> int \<Rightarrow> 'h sim_dev pworld \<Rightarrow> u32 res \<times> 'h sim_dev pworld" where
  "sim_lib_status D E fd w =
     (case p_ioctl (sim_proto_ioctl D) E fd PROTO_PCIE_IOC_GET_STATUS None w of
        (Inl err, _, w) \<Rightarrow> (p_throw E ''ioctl(GET_STATUS) failed: '' err, w)
      | (Inr _, out, w) \<Rightarrow> (Inr (case out of PoutStatus s \<Rightarrow> s | _ \<Rightarrow> 0), w))"

section \<open>The library of the ring prototype\<close>

definition ring_lib_open :: "'d penv \<Rightarrow> string \<Rightarrow> 'd pworld \<Rightarrow> int res \<times> 'd pworld" where
  "ring_lib_open E device_path w =
     (case p_open E device_path w of
        (Inl err, w) \<Rightarrow> (p_throw E (''failed to open device: '' @ device_path @ '': '') err, w)
      | (Inr fd, w) \<Rightarrow> (Inr fd, w))"

definition ring_lib_close :: "int \<Rightarrow> 'd pworld \<Rightarrow> 'd pworld" where
  "ring_lib_close fd w = (if fd \<ge> 0 then p_close fd w else w)"

definition ring_lib_info ::
    "'h mmio \<Rightarrow> 'h ring_dev penv \<Rightarrow> int \<Rightarrow> 'h ring_dev pworld \<Rightarrow> proto_pcie_info res \<times> 'h ring_dev pworld" where
  "ring_lib_info D E fd w =
     (case p_ioctl (ring_proto_ioctl D) E fd PROTO_PCIE_IOC_GET_INFO None w of
        (Inl err, _, w) \<Rightarrow> (p_throw E ''ioctl(GET_INFO) failed: '' err, w)
      | (Inr _, out, w) \<Rightarrow> (Inr (case out of PoutInfo i \<Rightarrow> i | _ \<Rightarrow> zero_info), w))"

definition ring_lib_ring_state ::
    "'h mmio \<Rightarrow> 'h ring_dev penv \<Rightarrow> int \<Rightarrow> 'h ring_dev pworld \<Rightarrow> proto_pcie_ring_state res \<times> 'h ring_dev pworld" where
  "ring_lib_ring_state D E fd w =
     (case p_ioctl (ring_proto_ioctl D) E fd PROTO_PCIE_IOC_GET_RING_STATE None w of
        (Inl err, _, w) \<Rightarrow> (p_throw E ''ioctl(GET_RING_STATE) failed: '' err, w)
      | (Inr _, out, w) \<Rightarrow> (Inr (case out of PoutRing s \<Rightarrow> s | _ \<Rightarrow> zero_ring_state), w))"

definition ring_lib_reset ::
    "'h mmio \<Rightarrow> 'h ring_dev penv \<Rightarrow> int \<Rightarrow> 'h ring_dev pworld \<Rightarrow> unit res \<times> 'h ring_dev pworld" where
  "ring_lib_reset D E fd w =
     (case p_ioctl (ring_proto_ioctl D) E fd PROTO_PCIE_IOC_RESET None w of
        (Inl err, _, w) \<Rightarrow> (p_throw E ''ioctl(RESET) failed: '' err, w)
      | (Inr _, _, w) \<Rightarrow> (Inr (), w))"

text \<open>The command the library makes of its arguments.\<close>

definition lib_command :: "u32 \<Rightarrow> u8 list \<Rightarrow> proto_pcie_command" where
  "lib_command opcode payload =
     (let cmd = zero_command;
          cmd = cmd\<lparr>cmd_opcode := opcode\<rparr>;
          cmd = cmd\<lparr>cmd_length := (if length payload > unat PROTO_PCIE_MAX_PAYLOAD
                       then PROTO_PCIE_MAX_PAYLOAD else of_nat (length payload))\<rparr>
      in if cmd_length cmd > 0
         then cmd\<lparr>cmd_payload := copy_bytes (cmd_payload cmd) payload (unat (cmd_length cmd))\<rparr>
         else cmd)"

definition ring_lib_send_command ::
    "'h mmio \<Rightarrow> 'h ring_dev penv \<Rightarrow> int \<Rightarrow> u32 \<Rightarrow> u8 list \<Rightarrow> 'h ring_dev pworld \<Rightarrow> unit res \<times> 'h ring_dev pworld" where
  "ring_lib_send_command D E fd opcode payload w =
     (case p_ioctl (ring_proto_ioctl D) E fd PROTO_PCIE_IOC_SEND_CMD (Some (lib_command opcode payload)) w of
        (Inl err, _, w) \<Rightarrow> (p_throw E ''ioctl(SEND_CMD) failed: '' err, w)
      | (Inr _, _, w) \<Rightarrow> (Inr (), w))"

definition ring_lib_process_pending ::
    "'h mmio \<Rightarrow> 'h ring_dev penv \<Rightarrow> int \<Rightarrow> 'h ring_dev pworld \<Rightarrow> unit res \<times> 'h ring_dev pworld" where
  "ring_lib_process_pending D E fd w =
     (case p_ioctl (ring_proto_ioctl D) E fd PROTO_PCIE_IOC_PROCESS_PENDING None w of
        (Inl err, _, w) \<Rightarrow> (p_throw E ''ioctl(PROCESS_PENDING) failed: '' err, w)
      | (Inr _, _, w) \<Rightarrow> (Inr (), w))"

definition ring_lib_status ::
    "'h mmio \<Rightarrow> 'h ring_dev penv \<Rightarrow> int \<Rightarrow> 'h ring_dev pworld \<Rightarrow> u32 res \<times> 'h ring_dev pworld" where
  "ring_lib_status D E fd w =
     (case p_ioctl (ring_proto_ioctl D) E fd PROTO_PCIE_IOC_GET_STATUS None w of
        (Inl err, _, w) \<Rightarrow> (p_throw E ''ioctl(GET_STATUS) failed: '' err, w)
      | (Inr _, out, w) \<Rightarrow> (Inr (case out of PoutStatus s \<Rightarrow> s | _ \<Rightarrow> 0), w))"

section \<open>The demo programs\<close>

text \<open>
  A part of a program: its output, its value or the exception that left it, and the world after it.
  What follows it runs unless an exception left it. \<open>Es k\<close> is the environment of call number \<open>k\<close>.
\<close>

type_synonym ('a, 'd) part = "line list \<times> 'a res \<times> 'd pworld"

definition p_then :: "('a, 'd) part \<Rightarrow> ('a \<Rightarrow> 'd pworld \<Rightarrow> ('b, 'd) part) \<Rightarrow> ('b, 'd) part" where
  "p_then r f =
     (case r of
        (out, Inl ex, w) \<Rightarrow> (out, Inl ex, w)
      | (out, Inr v, w) \<Rightarrow> (let (out', res, w) = f v w in (out @ out', res, w)))"

definition p_call :: "('d pworld \<Rightarrow> 'a res \<times> 'd pworld) \<Rightarrow> 'd pworld \<Rightarrow> ('a, 'd) part" where
  "p_call f w = (let (r, w) = f w in ([], r, w))"

definition p_print :: "line list \<Rightarrow> 'd pworld \<Rightarrow> (unit, 'd) part" where
  "p_print ls w = (ls, Inr (), w)"

text \<open>The end of \<open>main\<close>: the object is destroyed, then an exception is reported. None is undefined behaviour.\<close>

definition p_exit :: "'d pworld \<Rightarrow> (unit, 'd) part \<Rightarrow> (int \<times> line list \<times> 'd pworld) option" where
  "p_exit w' r =
     (case r of
        (out, Inr _, _) \<Rightarrow> Some (0, out, w')
      | (out, Inl (RuntimeError what), _) \<Rightarrow> Some (1, out @ [Cerr [Str what, Endl]], w')
      | (_, Inl Undefined, _) \<Rightarrow> None)"

definition info_line :: "proto_pcie_info \<Rightarrow> line" where
  "info_line i = Cout [Str ''bar0_len='', Num (uint (info_bar0_len i)), Str '' irq='', Num (uint (info_irq i)),
     Str '' ring_entries='', Num (uint (info_ring_entries i)),
     Str '' ring_entry_size='', Num (uint (info_ring_entry_size i)), Endl]"

definition base_demo ::
    "'h mmio \<Rightarrow> (nat \<Rightarrow> ('h, 'x) proto_dev_scheme penv) \<Rightarrow> int \<Rightarrow> ('h, 'x) proto_dev_scheme pworld \<Rightarrow> (unit, ('h, 'x) proto_dev_scheme) part" where
  "base_demo D Es fd w =
     p_then (p_call (base_lib_info D (Es 1) fd) w) (\<lambda>info w.
     p_then (p_print [info_line info] w) (\<lambda>_ w.
     p_then (p_call (base_lib_reset D (Es 2) fd) w) (\<lambda>_ w.
     p_then (p_call (base_lib_send_command D (Es 3) fd 1 [0x10, 0x20, 0x30, 0x40]) w) (\<lambda>_ w.
     p_then (p_print [Cout [Str ''status='']] w) (\<lambda>_ w.
     p_then (p_call (base_lib_status D (Es 4) fd) w) (\<lambda>s w.
     p_print [Cout [Num (uint s), Endl]] w))))))"

definition base_demo_main ::
    "'h mmio \<Rightarrow> (nat \<Rightarrow> ('h, 'x) proto_dev_scheme penv) \<Rightarrow> ('h, 'x) proto_dev_scheme pworld \<Rightarrow> (int \<times> line list \<times> ('h, 'x) proto_dev_scheme pworld) option" where
  "base_demo_main D Es w =
     (case base_lib_open (Es 0) ''/dev/proto_pcie'' w of
        (Inl ex, w) \<Rightarrow> p_exit w ([], Inl ex, w)
      | (Inr fd, w) \<Rightarrow> (let (out, r, w) = base_demo D Es fd w in p_exit (base_lib_close fd w) (out, r, w)))"

definition sim_demo ::
    "'h mmio \<Rightarrow> (nat \<Rightarrow> 'h sim_dev penv) \<Rightarrow> int \<Rightarrow> 'h sim_dev pworld \<Rightarrow> (unit, 'h sim_dev) part" where
  "sim_demo D Es fd w =
     p_then (p_call (sim_lib_info D (Es 1) fd) w) (\<lambda>info w.
     p_then (p_print [info_line info] w) (\<lambda>_ w.
     p_then (p_call (sim_lib_reset D (Es 2) fd) w) (\<lambda>_ w.
     p_then (p_call (sim_lib_send_command D (Es 3) fd 1 [0x10, 0x20, 0x30, 0x40]) w) (\<lambda>_ w.
     p_then (p_print [Cout [Str ''status='']] w) (\<lambda>_ w.
     p_then (p_call (sim_lib_status D (Es 4) fd) w) (\<lambda>s w.
     p_print [Cout [Num (uint s), Endl]] w))))))"

definition sim_demo_main ::
    "'h mmio \<Rightarrow> (nat \<Rightarrow> 'h sim_dev penv) \<Rightarrow> 'h sim_dev pworld \<Rightarrow> (int \<times> line list \<times> 'h sim_dev pworld) option" where
  "sim_demo_main D Es w =
     (case sim_lib_open (Es 0) ''/dev/proto_pcie'' w of
        (Inl ex, w) \<Rightarrow> p_exit w ([], Inl ex, w)
      | (Inr fd, w) \<Rightarrow> (let (out, r, w) = sim_demo D Es fd w in p_exit (sim_lib_close fd w) (out, r, w)))"

definition show_ring_state :: "proto_pcie_ring_state \<Rightarrow> string \<Rightarrow> line" where
  "show_ring_state s label = Cout
     [Str label, Str '' cmd_head='', Num (uint (rs_cmd_head s)), Str '' cmd_tail='', Num (uint (rs_cmd_tail s)),
      Str '' cmd_pending='', Num (uint (rs_cmd_pending s)), Str '' comp_head='', Num (uint (rs_comp_head s)),
      Str '' comp_tail='', Num (uint (rs_comp_tail s)), Str '' comp_pending='', Num (uint (rs_comp_pending s)),
      Str '' completed_total='', Num (uint (rs_completed_total s)),
      Str '' last_opcode='', Num (uint (rs_last_opcode s)), Str '' last_length='', Num (uint (rs_last_length s)),
      Str '' last_status='', Num (uint (rs_last_status s)), Str '' next_seqno='', Num (uint (rs_next_seqno s)), Endl]"

definition ring_demo ::
    "'h mmio \<Rightarrow> (nat \<Rightarrow> 'h ring_dev penv) \<Rightarrow> int \<Rightarrow> 'h ring_dev pworld \<Rightarrow> (unit, 'h ring_dev) part" where
  "ring_demo D Es fd w =
     p_then (p_call (ring_lib_info D (Es 1) fd) w) (\<lambda>info w.
     p_then (p_print [info_line info] w) (\<lambda>_ w.
     p_then (p_call (ring_lib_ring_state D (Es 2) fd) w) (\<lambda>s w.
     p_then (p_print [show_ring_state s ''before reset:''] w) (\<lambda>_ w.
     p_then (p_call (ring_lib_reset D (Es 3) fd) w) (\<lambda>_ w.
     p_then (p_call (ring_lib_ring_state D (Es 4) fd) w) (\<lambda>s w.
     p_then (p_print [show_ring_state s ''after reset:''] w) (\<lambda>_ w.
     p_then (p_call (ring_lib_send_command D (Es 5) fd 1 [0x10, 0x20, 0x30, 0x40]) w) (\<lambda>_ w.
     p_then (p_call (ring_lib_send_command D (Es 6) fd 2 [0x55, 0x66, 0x77, 0x88, 0x99]) w) (\<lambda>_ w.
     p_then (p_call (ring_lib_ring_state D (Es 7) fd) w) (\<lambda>s w.
     p_then (p_print [show_ring_state s ''after queueing:'', Cout [Str ''status(before process)='']] w) (\<lambda>_ w.
     p_then (p_call (ring_lib_status D (Es 8) fd) w) (\<lambda>s w.
     p_then (p_print [Cout [Num (uint s), Endl]] w) (\<lambda>_ w.
     p_then (p_call (ring_lib_process_pending D (Es 9) fd) w) (\<lambda>_ w.
     p_then (p_call (ring_lib_ring_state D (Es 10) fd) w) (\<lambda>s w.
     p_then (p_print [show_ring_state s ''after process:'', Cout [Str ''status(after process)='']] w) (\<lambda>_ w.
     p_then (p_call (ring_lib_status D (Es 11) fd) w) (\<lambda>s w.
     p_print [Cout [Num (uint s), Endl]] w)))))))))))))))))"

definition ring_demo_main ::
    "'h mmio \<Rightarrow> (nat \<Rightarrow> 'h ring_dev penv) \<Rightarrow> 'h ring_dev pworld \<Rightarrow> (int \<times> line list \<times> 'h ring_dev pworld) option" where
  "ring_demo_main D Es w =
     (case ring_lib_open (Es 0) ''/dev/proto_pcie'' w of
        (Inl ex, w) \<Rightarrow> p_exit w ([], Inl ex, w)
      | (Inr fd, w) \<Rightarrow> (let (out, r, w) = ring_demo D Es fd w in p_exit (ring_lib_close fd w) (out, r, w)))"

end
