(* ===== verification/User_Proto_Claims.thy ===== *)
theory User_Proto_Claims
  imports User_Proto Proto_Claims
begin

text \<open>
  The libraries and demos of the \<open>proto_pcie\<close> prototypes over their drivers: a payload through the
  ring library, what the ring demo prints, and the two other demos on a hardware device.
\<close>

section \<open>The ioctls of an open object\<close>

text \<open>The object's descriptor is the driver's file and nobody else uses the driver.\<close>

definition lib_attached :: "'d penv \<Rightarrow> int \<Rightarrow> 'd pworld \<Rightarrow> bool" where
  "lib_attached E fd w \<longleftrightarrow> pw_files w fd = Some True \<and> pe_pre E = (\<lambda>d. d)"

lemma p_ioctl_attached:
  "lib_attached E fd w \<Longrightarrow> p_ioctl io E fd cmd arg w =
    (let (r, out, d) = io \<lparr>pu_cmd = arg, pu_writable = True\<rparr> cmd (pw_dev w) in (r, out, w\<lparr>pw_dev := d\<rparr>))"
  by (simp add: p_ioctl_def lib_attached_def)

lemma lib_attached_dev [simp]: "lib_attached E fd (w\<lparr>pw_dev := d\<rparr>) = lib_attached E fd w"
  by (simp add: lib_attached_def)

lemma ring_ioctl_cmds:
  "ring_proto_ioctl D u PROTO_PCIE_IOC_RESET d = (ok, PoutNone, ring_finish_reset D d)"
  "pu_writable u \<Longrightarrow> ring_proto_ioctl D u PROTO_PCIE_IOC_GET_STATUS d = (ok, PoutStatus (last_status d), d)"
  "pu_writable u \<Longrightarrow> simulated d \<Longrightarrow> ring_proto_ioctl D u PROTO_PCIE_IOC_GET_RING_STATE d =
    (ok, PoutRing (proto_sim_get_ring_state d), d)"
  "pu_writable u \<Longrightarrow> ring_proto_ioctl D u PROTO_PCIE_IOC_GET_INFO d =
    (ok, PoutInfo \<lparr>info_bar0_len = ucast (bar0_len d), info_irq = irq_no d,
       info_ring_entries = ring_entries d, info_ring_entry_size = ring_entry_size d\<rparr>, d)"
  by (simp_all add: ring_proto_ioctl_def proto_ioc_values ring_ioc_values IOC_TYPE_def PROTO_PCIE_IOC_MAGIC_def reply_def)

lemma sending_command: "\<lparr>pu_cmd = Some c, pu_writable = True\<rparr> = sending c"
  by (simp add: sending_def)

lemma ring_lib_attached:
  assumes "lib_attached E fd w" and ok: "ring_ok (pw_dev w)"
  shows "ring_lib_ring_state D E fd w = (Inr (proto_sim_get_ring_state (pw_dev w)), w)"
    "ring_lib_reset D E fd w = (Inr (), w\<lparr>pw_dev := ring_finish_reset D (pw_dev w)\<rparr>)"
    "ring_lib_status D E fd w = (Inr (last_status (pw_dev w)), w)"
    "ring_lib_process_pending D E fd w = (Inr (), w\<lparr>pw_dev := snd (proto_sim_process_pending (pw_dev w))\<rparr>)"
    "unat (cmd_pending (pw_dev w)) < 64 \<Longrightarrow> ring_lib_send_command D E fd opcode payload w =
      (Inr (), w\<lparr>pw_dev := snd (proto_sim_enqueue_command (lib_command opcode payload) (pw_dev w))\<rparr>)"
    "ring_lib_info D E fd w = (Inr \<lparr>info_bar0_len = ucast (bar0_len (pw_dev w)), info_irq = irq_no (pw_dev w),
       info_ring_entries = 64, info_ring_entry_size = ring_entry_size (pw_dev w)\<rparr>, w)"
  using ring_okD(1,2)[OF ok] process_pending_effect[OF ok] enqueue_fields(8)[OF ok]
  by (simp_all add: ring_lib_ring_state_def ring_lib_reset_def ring_lib_status_def ring_lib_process_pending_def
      ring_lib_send_command_def ring_lib_info_def p_ioctl_attached[OF assms(1)] ring_ioctl_cmds ring_ioctl_process
      sending_command ring_ioctl_send)

section \<open>The command a library makes\<close>

lemma unat_of_nat_small: "n \<le> 256 \<Longrightarrow> unat (of_nat n :: u32) = n"
  by (simp add: unsigned_of_nat take_bit_nat_eq_self)

lemma lib_command_length: "unat (cmd_length (lib_command opcode payload)) = min (length payload) 256"
  by (simp add: lib_command_def zero_command_def PROTO_PCIE_MAX_PAYLOAD_def unat_of_nat_small Let_def)

lemma lib_command_fields:
  "cmd_opcode (lib_command opcode payload) = opcode"
  "clamp_len (lib_command opcode payload) = of_nat (min (length payload) 256)"
  "take (min (length payload) 256) (cmd_payload (lib_command opcode payload)) = take 256 payload"
proof -
  let ?c = "lib_command opcode payload"
  show "cmd_opcode ?c = opcode" by (simp add: lib_command_def zero_command_def Let_def)
  have n: "unat (clamp_len ?c) = min (length payload) 256" by (simp add: unat_clamp_len lib_command_length)
  then show "clamp_len ?c = of_nat (min (length payload) 256)"
    by (simp add: word_unat_eq_iff unat_of_nat_small)
  show "take (min (length payload) 256) (cmd_payload ?c) = take 256 payload"
  proof (cases "payload = []")
    case True
    then show ?thesis by simp
  next
    case False
    then have "cmd_length ?c > 0"
      using lib_command_length[of opcode payload] by (simp add: word_less_nat_alt)
    then have "cmd_payload ?c = copy_bytes (replicate 256 0) payload (unat (cmd_length ?c))"
      by (auto simp: lib_command_def zero_command_def PROTO_PCIE_MAX_PAYLOAD_def Let_def split: if_splits)
    then show ?thesis by (simp add: lib_command_length copy_bytes_def min_def)
  qed
qed

lemma queued_of_lib:
  "queued_of (lib_command opcode payload) = (opcode, of_nat (min (length payload) 256), padded 256 (take 256 payload))"
  by (simp add: queued_of_def lib_command_fields unat_of_nat_small)

lemma image_of_lib:
  "image_of (opcode, of_nat (min (length payload) 256), padded 256 (take 256 payload)) = padded 4096 (take 256 payload)"
proof -
  have "take (min (length payload) 256) (padded 256 (take 256 payload)) = take 256 payload"
    by (simp add: padded_def min_def)
  then show ?thesis by (simp add: image_of_def unat_of_nat_small)
qed

text \<open>C9. A command through the ring library, in any state in which the driver's ring is empty: after
  \<open>send_command\<close> and \<open>process_pending\<close> the buffer holds the payload's first 256 bytes and zeros
  behind them, the completion that was added has the caller's opcode, the length of what arrived
  and the next sequence number, and \<open>status\<close> is ready and done. Whatever the payload's size, no
  call fails.\<close>

theorem library_payload_arrives:
  assumes "reach ring_init (ring_step D) (pw_dev w)" and "queue (pw_dev w) = []"
    and "lib_attached E1 fd w" and "lib_attached E2 fd w" and "lib_attached E3 fd w"
  shows "\<exists>w1 w2. ring_lib_send_command D E1 fd opcode payload w = (Inr (), w1) \<and>
    ring_lib_process_pending D E2 fd w1 = (Inr (), w2) \<and>
    delivered (pw_dev w2) = padded 4096 (take 256 payload) \<and>
    comp_list (pw_dev w2) = last_n 64 (comp_list (pw_dev w) @
      [completion_for (completed_total (pw_dev w) + 1)
        (opcode, of_nat (min (length payload) 256), padded 256 (take 256 payload))]) \<and>
    ring_lib_status D E3 fd w2 = (Inr (STATUS_READY OR STATUS_DONE), w2)"
proof -
  let ?d = "pw_dev w" and ?c = "lib_command opcode payload"
  let ?d1 = "snd (proto_sim_enqueue_command ?c ?d)"
  have ok: "ring_ok ?d" using assms(1) by (rule ring_sys.reach_inv)
  have room: "unat (cmd_pending ?d) < 64" using assms(2) by (simp add: queue_Nil_iff)
  have ok1: "ring_ok ?d1" by (rule ring_ok_enqueue[OF ok])
  have q1: "queue ?d1 = [queued_of ?c]" using queue_enqueue[OF ok room] assms(2) by simp
  note P = process_pending_effect[OF ok1]
  have ok2: "ring_ok (snd (proto_sim_process_pending ?d1))" using P by simp
  show ?thesis
    using P q1 room assms(3-5) ok ok1 ok2
    by (simp add: ring_lib_attached image_of_lib queued_of_lib)
qed

definition wit_penv :: "'d penv" where
  "wit_penv = \<lparr>pe_pre = (\<lambda>d. d), pe_strerror = (\<lambda>_. ''error''), pe_open = (\<lambda>_. Inr (3, True))\<rparr>"

definition wit_pworld :: "access list ring_dev pworld" where
  "wit_pworld = \<lparr>pw_dev = wit_ring, pw_files = [3 \<mapsto> True]\<rparr>"

theorem library_payload_arrives_witness:
  "\<exists>w1 w2. ring_lib_send_command wit_rdev wit_penv 3 7 (replicate 300 0xAB) wit_pworld = (Inr (), w1) \<and>
    ring_lib_process_pending wit_rdev wit_penv 3 w1 = (Inr (), w2) \<and>
    delivered (pw_dev w2) = replicate 256 0xAB @ replicate 3840 0"
proof -
  have a: "lib_attached wit_penv 3 wit_pworld" by (simp add: lib_attached_def wit_penv_def wit_pworld_def)
  have "padded 4096 (take 256 (replicate 300 (0xAB :: u8))) = replicate 256 0xAB @ replicate 3840 0"
    by (simp add: padded_replicate min_def)
  then show ?thesis
    using library_payload_arrives[of wit_rdev wit_pworld wit_penv 3 wit_penv wit_penv 7 "replicate 300 0xAB"] a
    by (auto simp: wit_pworld_def)
qed

section \<open>What the ring demo prints\<close>

definition lib_opens :: "(nat \<Rightarrow> 'd penv) \<Rightarrow> nat \<Rightarrow> int \<Rightarrow> 'd pworld \<Rightarrow> bool" where
  "lib_opens Es n fd w \<longleftrightarrow> pe_open (Es 0) ''/dev/proto_pcie'' = Inr (fd, True) \<and> fd \<ge> 0 \<and> pw_files w fd = None \<and>
     (\<forall>k \<le> n. pe_pre (Es k) = (\<lambda>d. d))"

lemma p_open_at:
  "lib_opens Es n fd w \<Longrightarrow> p_open (Es 0) ''/dev/proto_pcie'' w = (Inr fd, w\<lparr>pw_files := (pw_files w)(fd \<mapsto> True)\<rparr>)"
  by (simp add: p_open_def lib_opens_def)

lemma p_then_simps [simp]:
  "p_then (ls, Inr v, w) f = (let (out, r, w) = f v w in (ls @ out, r, w))"
  "p_print ls w = (ls, Inr (), w)"
  by (simp_all add: p_then_def p_print_def)

lemma p_call_ok: "g w = (Inr v, w') \<Longrightarrow> p_call g w = ([], Inr v, w')"
  by (simp add: p_call_def)

text \<open>The state of the rings after the reset, after the two commands, and after they are processed.\<close>

definition demo_state :: "nat \<Rightarrow> nat \<Rightarrow> u32 \<Rightarrow> u32 \<Rightarrow> u32 \<Rightarrow> proto_pcie_ring_state" where
  "demo_state queued finished opcode len status =
     \<lparr>rs_cmd_head = of_nat finished, rs_cmd_tail = of_nat queued, rs_cmd_pending = of_nat queued - of_nat finished,
      rs_comp_head = 0, rs_comp_tail = of_nat finished, rs_comp_pending = of_nat finished,
      rs_completed_total = of_nat finished, rs_last_opcode = opcode, rs_last_length = len,
      rs_last_status = status, rs_next_seqno = of_nat queued + 1\<rparr>"

lemma reset_state:
  assumes "ring_ok d"
  shows "proto_sim_get_ring_state (ring_finish_reset D d) = demo_state 0 0 0 0 STATUS_READY"
  using ring_okD[OF assms]
  by (auto simp: ring_finish_reset_def proto_sim_clear_rings_def proto_sim_get_ring_state_def demo_state_def Let_def
      split: option.split)

lemma enqueue_state:
  assumes "ring_ok d" and "proto_sim_get_ring_state d = demo_state n 0 0 0 STATUS_READY" and "n < 2"
  shows "proto_sim_get_ring_state (snd (proto_sim_enqueue_command c d)) = demo_state (Suc n) 0 0 0 STATUS_READY"
proof -
  have n: "n = 0 \<or> n = 1" using assms(3) by linarith
  have "last_opcode (snd (proto_sim_enqueue_command c d)) = last_opcode d"
    "last_length (snd (proto_sim_enqueue_command c d)) = last_length d"
    "comp_head (snd (proto_sim_enqueue_command c d)) = comp_head d"
    "comp_tail (snd (proto_sim_enqueue_command c d)) = comp_tail d"
    "comp_pending (snd (proto_sim_enqueue_command c d)) = comp_pending d"
    by (simp_all add: proto_sim_enqueue_command_def Let_def)
  moreover have p: "unat (cmd_pending d) < 64" using assms(2) n
    by (auto simp: proto_sim_get_ring_state_def demo_state_def)
  moreover have "last_status (snd (proto_sim_enqueue_command c d)) = STATUS_READY"
    using enqueue_full_iff[OF assms(1)] p by (simp add: proto_sim_enqueue_command_def Let_def)
  ultimately show ?thesis
    using enqueue_fields[OF assms(1) p, of c] assms(2) n
    by (auto simp: proto_sim_get_ring_state_def demo_state_def)
qed

lemma process_state:
  assumes ok: "ring_ok d" and s: "proto_sim_get_ring_state d = demo_state 2 0 0 0 STATUS_READY"
    and q: "queue d = [q1, q2]"
  shows "proto_sim_get_ring_state (snd (proto_sim_process_pending d)) =
    demo_state 2 2 (fst q2) (fst (snd q2)) (STATUS_READY OR STATUS_DONE)"
proof -
  let ?d1 = "process_one d" and ?d2 = "process_one (process_one d)"
  have p: "cmd_pending d = 2" using s by (simp add: proto_sim_get_ring_state_def demo_state_def)
  then have p1: "cmd_pending d \<noteq> 0" "cmd_pending ?d1 \<noteq> 0" by simp_all
  have "snd (proto_sim_process_pending d) = ?d2"
    using p by (simp add: proto_sim_process_pending.simps[of d] proto_sim_process_pending.simps[of ?d1]
        proto_sim_process_pending.simps[of ?d2])
  moreover note ok1 = ring_ok_process_one[OF ok p1(1)]
  note F1 = process_one_fields[OF ring_okD(2)[OF ok]]
  note F2 = process_one_fields[OF F1(8)]
  have "queue ?d1 = [q2]" using queue_process_one[OF ok p1(1)] q by simp
  then have "last_opcode ?d2 = fst q2" "last_length ?d2 = fst (snd q2)"
    using process_one_effect(3,4)[OF ok1 p1(2)] by simp_all
  ultimately show ?thesis
    using s p F1 F2 by (simp add: proto_sim_get_ring_state_def demo_state_def)
qed

definition status_lines :: "string \<Rightarrow> u32 \<Rightarrow> line list" where
  "status_lines label s = [Cout [Str label], Cout [Num (uint s), Endl]]"

text \<open>C36. The ring demo on a simulated device in whatever state earlier clients left it: it exits with 0,
  closes its descriptor and prints the device, the rings as they were, the rings empty after the
  reset with sequence number 1, two commands queued and not ready to be read as done, then both
  processed, in order, with opcode 2, length 5 and status ready and done last.\<close>

theorem ring_demo_outcome:
  assumes "reach ring_init (ring_step D) (pw_dev w)" and "lib_opens Es 11 fd w"
  shows "\<exists>d. ring_demo_main D Es w = Some (0,
      [info_line \<lparr>info_bar0_len = ucast (bar0_len (pw_dev w)), info_irq = irq_no (pw_dev w),
         info_ring_entries = 64, info_ring_entry_size = ring_entry_size (pw_dev w)\<rparr>,
       show_ring_state (proto_sim_get_ring_state (pw_dev w)) ''before reset:'',
       show_ring_state (demo_state 0 0 0 0 1) ''after reset:'',
       show_ring_state (demo_state 2 0 0 0 1) ''after queueing:''] @ status_lines ''status(before process)='' 1 @
      [show_ring_state (demo_state 2 2 2 5 3) ''after process:''] @ status_lines ''status(after process)='' 3,
      w\<lparr>pw_dev := d\<rparr>) \<and> queue d = []"
proof -
  let ?d0 = "pw_dev w" and ?w = "w\<lparr>pw_files := (pw_files w)(fd \<mapsto> True)\<rparr>"
  let ?c1 = "lib_command 1 [0x10, 0x20, 0x30, 0x40]" and ?c2 = "lib_command 2 [0x55, 0x66, 0x77, 0x88, 0x99]"
  let ?d1 = "ring_finish_reset D ?d0"
  let ?d2 = "snd (proto_sim_enqueue_command ?c1 ?d1)"
  let ?d3 = "snd (proto_sim_enqueue_command ?c2 ?d2)"
  let ?d4 = "snd (proto_sim_process_pending ?d3)"
  have ok0: "ring_ok ?d0" using assms(1) by (rule ring_sys.reach_inv)
  have ok1: "ring_ok ?d1" "queue ?d1 = []" by (rule ring_reset_effect[OF ok0])+
  have room1: "unat (cmd_pending ?d1) < 64" using ok1(2) by (simp add: queue_Nil_iff)
  have ok2: "ring_ok ?d2" by (rule ring_ok_enqueue[OF ok1(1)])
  have q2: "queue ?d2 = [queued_of ?c1]" using queue_enqueue[OF ok1(1) room1] ok1(2) by simp
  have room2: "unat (cmd_pending ?d2) < 64" using arg_cong[OF q2, of length] by simp
  have ok3: "ring_ok ?d3" by (rule ring_ok_enqueue[OF ok2])
  have q3: "queue ?d3 = [queued_of ?c1, queued_of ?c2]" using queue_enqueue[OF ok2 room2] q2 by simp
  have ok4: "ring_ok ?d4" "queue ?d4 = []" using process_pending_effect[OF ok3] by simp_all
  have s1: "proto_sim_get_ring_state ?d1 = demo_state 0 0 0 0 STATUS_READY" by (rule reset_state[OF ok0])
  have s2: "proto_sim_get_ring_state ?d2 = demo_state 1 0 0 0 STATUS_READY" using enqueue_state[OF ok1(1) s1] by simp
  have s3: "proto_sim_get_ring_state ?d3 = demo_state 2 0 0 0 STATUS_READY"
    using enqueue_state[OF ok2 s2] by (simp add: numeral_2_eq_2)
  have s4: "proto_sim_get_ring_state ?d4 = demo_state 2 2 2 5 (STATUS_READY OR STATUS_DONE)"
    using process_state[OF ok3 s3 q3] by (simp add: queued_of_lib)
  have st: "last_status d = rs_last_status (proto_sim_get_ring_state d)" for d :: "'a ring_dev"
    by (simp add: proto_sim_get_ring_state_def)
  have pre: "\<And>k. k \<le> 11 \<Longrightarrow> pe_pre (Es k) = (\<lambda>d. d)" using assms(2) by (simp add: lib_opens_def)
  have body: "ring_demo D Es fd (?w\<lparr>pw_dev := ?d0\<rparr>) = (
      [info_line \<lparr>info_bar0_len = ucast (bar0_len (pw_dev w)), info_irq = irq_no (pw_dev w),
         info_ring_entries = 64, info_ring_entry_size = ring_entry_size (pw_dev w)\<rparr>,
       show_ring_state (proto_sim_get_ring_state (pw_dev w)) ''before reset:'',
       show_ring_state (demo_state 0 0 0 0 1) ''after reset:'',
       show_ring_state (demo_state 2 0 0 0 1) ''after queueing:''] @ status_lines ''status(before process)='' 1 @
      [show_ring_state (demo_state 2 2 2 5 3) ''after process:''] @ status_lines ''status(after process)='' 3,
      Inr (), ?w\<lparr>pw_dev := ?d4\<rparr>)"
    using ok0 ok1(1) ok2 ok3 ok4(1) room1 room2
    by (simp add: ring_demo_def p_call_def ring_lib_attached lib_attached_def pre s1 s3 s4 st proto_bits status_lines_def)
      (simp add: demo_state_def)
  have "pw_files w fd = None" "fd \<ge> 0" using assms(2) by (simp_all add: lib_opens_def)
  then have "(pw_files w)(fd := None) = pw_files w" by auto
  then have "ring_demo_main D Es w = p_exit (w\<lparr>pw_dev := ?d4\<rparr>) (ring_demo D Es fd (?w\<lparr>pw_dev := ?d0\<rparr>))"
    using \<open>fd \<ge> 0\<close> body by (simp add: ring_demo_main_def ring_lib_open_def p_open_at[OF assms(2)] ring_lib_close_def p_close_def)
  then show ?thesis unfolding body using ok4(2) by (intro exI[of _ ?d4]) (simp add: p_exit_def)
qed

theorem ring_demo_outcome_witness:
  "\<exists>out d. ring_demo_main wit_rdev (\<lambda>_. wit_penv) \<lparr>pw_dev = wit_ring, pw_files = (\<lambda>_. None)\<rparr> =
    Some (0, out, \<lparr>pw_dev = d, pw_files = (\<lambda>_. None)\<rparr>) \<and> Cout [Num 3, Endl] \<in> set out"
  using ring_demo_outcome[of wit_rdev "\<lparr>pw_dev = wit_ring, pw_files = (\<lambda>_. None)\<rparr>" "\<lambda>_. wit_penv" 3]
  by (auto simp: lib_opens_def wit_penv_def status_lines_def)

section \<open>The libraries of the basic and the simulated prototype\<close>

text \<open>Nothing that runs between the calls makes a hardware device a simulated one.\<close>

definition stays_hardware :: "('h, 'x) sim_dev_scheme penv \<Rightarrow> bool" where
  "stays_hardware E \<longleftrightarrow> (\<forall>d. \<not> simulated d \<longrightarrow> \<not> simulated (pe_pre E d))"

lemma p_ioctl_hw:
  assumes "\<not> simulated (pw_dev w)" and "stays_hardware E"
  shows "p_ioctl (sim_proto_ioctl D) E fd cmd arg w = p_ioctl (base_proto_ioctl D) E fd cmd arg w"
  using assms by (simp add: p_ioctl_def stays_hardware_def sim_ioctl_hw Let_def split: option.split)

lemma base_ioctl_hw:
  assumes "\<not> simulated (d :: 'h sim_dev)"
  shows "\<not> simulated (snd (snd (base_proto_ioctl D u cmd d)))"
  using assms
  by (simp add: base_proto_ioctl_def base_reset_def base_send_cmd_def proto_mmio reply_def split_def Let_def
      split: option.split)

lemma p_ioctl_stays:
  assumes "\<not> simulated (pw_dev w)" and "stays_hardware E"
  shows "\<not> simulated (pw_dev (snd (snd (p_ioctl (base_proto_ioctl D) E fd cmd arg (w :: 'h sim_dev pworld)))))"
  using assms by (simp add: p_ioctl_def stays_hardware_def base_ioctl_hw split_def Let_def split: option.split)

definition on_hardware :: "'h sim_dev pworld \<Rightarrow> bool" where
  "on_hardware w \<longleftrightarrow> \<not> simulated (pw_dev w)"

lemma same_command: "(if n > (0 :: u32) then c\<lparr>cmd_payload := copy_bytes (cmd_payload c) p (unat n)\<rparr> else c) =
    c\<lparr>cmd_payload := copy_bytes (cmd_payload c) p (unat n)\<rparr>"
  by (cases "n = 0") (simp_all add: copy_bytes_def word_gt_0)

lemma lib_same:
  assumes "on_hardware w" and "stays_hardware E"
  shows "sim_lib_info D E fd w = base_lib_info D E fd w" "sim_lib_reset D E fd w = base_lib_reset D E fd w"
    "sim_lib_send_command D E fd opcode payload w = base_lib_send_command D E fd opcode payload w"
    "sim_lib_status D E fd w = base_lib_status D E fd w"
  using assms
  by (simp_all add: sim_lib_info_def base_lib_info_def sim_lib_reset_def base_lib_reset_def sim_lib_status_def
      base_lib_status_def sim_lib_send_command_def base_lib_send_command_def on_hardware_def p_ioctl_hw same_command Let_def)

lemma lib_stays:
  assumes "on_hardware w" and "stays_hardware E"
  shows "on_hardware (snd (base_lib_info D E fd w))" "on_hardware (snd (base_lib_reset D E fd w))"
    "on_hardware (snd (base_lib_send_command D E fd opcode payload w))" "on_hardware (snd (base_lib_status D E fd w))"
  using p_ioctl_stays[of w E D fd] assms
  by (simp_all add: base_lib_info_def base_lib_reset_def base_lib_status_def base_lib_send_command_def
      on_hardware_def split_def Let_def split: sum.split)

lemma p_then_hw:
  assumes "r = r'" and "on_hardware (snd (snd r'))" and "\<And>v w. on_hardware w \<Longrightarrow> f v w = g v w"
  shows "p_then r f = p_then r' g"
proof -
  obtain out res w where r: "r' = (out, res, w)" by (cases r')
  then show ?thesis using assms by (cases res) (simp_all add: p_then_def)
qed

lemma sim_demo_hw:
  assumes "on_hardware w" and s: "\<And>k. stays_hardware (Es k)"
  shows "sim_demo D Es fd w = base_demo D Es fd w"
  using assms(1) unfolding sim_demo_def base_demo_def
  by (intro p_then_hw; simp add: p_call_def split_def lib_same[OF _ s] lib_stays[OF _ s])


definition wit_hw :: "access list sim_dev" where
  "wit_hw = (sim_zeroed [])\<lparr>has_pdev := True, dma_buf := Some (\<lambda>_. 0), dma_len := 4096\<rparr>"


end
