(* ===== verification/Base_System.thy ===== *)
theory Base_System
  imports User_Proto_Claims Qemu_Device
begin

text \<open>
  The basic prototype as a whole: \<open>userspace/demo.cpp\<close> and its library over the driver, the driver over
  the device model of \<open>proto_pcie_device.c\<close>.
\<close>

section \<open>Time between the calls\<close>

text \<open>\<open>n\<close> milliseconds pass; then the handler runs if the device holds the interrupt line.\<close>

definition pause :: "nat \<Rightarrow> machine proto_dev \<Rightarrow> machine proto_dev" where
  "pause n d =
     (let d = proto_msleep qemu_mmio n d
      in if q_irq (snd (p_bar0 d)) then snd (proto_irq_handler qemu_mmio d) else d)"

lemma handler_on_qemu:
  "snd (proto_irq_handler qemu_mmio d) = d\<lparr>last_status := q_status (snd (p_bar0 d))\<rparr>"
  by (cases d) (simp add: proto_irq_handler_def proto_mmio Let_def)

lemma pause_fields [simp]:
  "dma_buf (pause n d) = dma_buf d" "bar0_len (pause n d) = bar0_len d" "irq_no (pause n d) = irq_no d"
  by (simp_all add: pause_def handler_on_qemu proto_msleep_def Let_def)

lemma pause_quiet:
  assumes "qemu_quiet (p_bar0 d)"
  shows "p_bar0 (pause n d) = (fst (p_bar0 d) + n, snd (p_bar0 d))"
  using assms
  by (cases "p_bar0 d") (simp add: pause_def handler_on_qemu proto_msleep_def qemu_msleep run_timer_def qemu_quiet_def Let_def)

text \<open>A pause while a command runs: the handler finds it done exactly when its time has come.\<close>

lemma pause_running:
  assumes "qemu_pending (p_bar0 d) k" and "\<not> q_irq (snd (p_bar0 d))"
  shows "if n < k
    then pause n d = d\<lparr>p_bar0 := (fst (p_bar0 d) + n, snd (p_bar0 d))\<rparr> \<and> qemu_pending (p_bar0 (pause n d)) (k - n)
    else last_status (pause n d) = STATUS_READY OR STATUS_DONE \<and> q_irq (snd (p_bar0 (pause n d))) \<and>
      q_last_opcode (snd (p_bar0 (pause n d))) = q_last_opcode (snd (p_bar0 d)) \<and>
      q_dma_len (snd (p_bar0 (pause n d))) = q_dma_len (snd (p_bar0 d))"
  using assms
  by (auto simp: pause_def handler_on_qemu proto_msleep_def qemu_msleep run_timer_def qemu_pending_def
      proto_pcie_complete_def proto_pcie_raise_irq_def Let_def)

lemma reset_on_qemu:
  assumes "qemu_quiet (p_bar0 d)"
  shows "qemu_quiet (p_bar0 (base_reset qemu_mmio d))" "\<not> q_irq (snd (p_bar0 (base_reset qemu_mmio d)))"
    "dma_buf (base_reset qemu_mmio d) = dma_buf d"
  using assms by (simp_all add: base_reset_def proto_mmio qemu_msleep run_timer_def qemu_quiet_def Let_def)

section \<open>The demo\<close>

lemma base_ioctl_cmds:
  "base_proto_ioctl D u PROTO_PCIE_IOC_RESET d = (ok, PoutNone, base_reset D d)"
  "pu_writable u \<Longrightarrow> base_proto_ioctl D u PROTO_PCIE_IOC_GET_STATUS d = (ok, PoutStatus (last_status d), d)"
  "pu_writable u \<Longrightarrow> base_proto_ioctl D u PROTO_PCIE_IOC_GET_INFO d =
    (ok, PoutInfo \<lparr>info_bar0_len = ucast (bar0_len d), info_irq = irq_no d,
       info_ring_entries = 64, info_ring_entry_size = 64\<rparr>, d)"
  "base_proto_ioctl D (sending c) PROTO_PCIE_IOC_SEND_CMD d = (ok, PoutNone, base_send_cmd D c d)"
  by (simp_all add: base_proto_ioctl_def proto_ioc_values IOC_TYPE_def PROTO_PCIE_IOC_MAGIC_def reply_def sending_def)

lemma p_ioctl_open:
  "pw_files w fd = Some True \<Longrightarrow> p_ioctl io E fd cmd arg w =
    (let (r, out, d) = io \<lparr>pu_cmd = arg, pu_writable = True\<rparr> cmd (pe_pre E (pw_dev w)) in (r, out, w\<lparr>pw_dev := d\<rparr>))"
  by (simp add: p_ioctl_def)

lemma base_lib_open_calls:
  assumes "pw_files w fd = Some True"
  shows "base_lib_reset D E fd w = (Inr (), w\<lparr>pw_dev := base_reset D (pe_pre E (pw_dev w))\<rparr>)"
    "base_lib_status D E fd w = (Inr (last_status (pe_pre E (pw_dev w))), w\<lparr>pw_dev := pe_pre E (pw_dev w)\<rparr>)"
    "base_lib_send_command D E fd opcode payload w =
      (Inr (), w\<lparr>pw_dev := base_send_cmd D (lib_command opcode payload) (pe_pre E (pw_dev w))\<rparr>)"
    "base_lib_info D E fd w = (Inr \<lparr>info_bar0_len = ucast (bar0_len (pe_pre E (pw_dev w))),
       info_irq = irq_no (pe_pre E (pw_dev w)), info_ring_entries = 64, info_ring_entry_size = 64\<rparr>,
       w\<lparr>pw_dev := pe_pre E (pw_dev w)\<rparr>)"
  using assms
  by (simp_all add: base_lib_reset_def base_lib_status_def base_lib_send_command_def base_lib_info_def p_ioctl_open
      base_ioctl_cmds sending_command lib_command_def same_command Let_def)

text \<open>C38. The demo of the basic prototype on the device model, from any state of the device in which no
  command runs, with any times between its calls: it exits with 0, closes its descriptor and prints
  the device and the status. That is ready and not done, with the command still running, unless 25 ms
  pass between its last two calls: it does not wait. The device has the opcode and the length, the
  coherent buffer the four bytes of the payload.\<close>

theorem base_demo_on_qemu:
  assumes "qemu_quiet (p_bar0 (pw_dev w))" and "dma_buf (pw_dev w) = Some m"
    and "pe_open (Es 0) ''/dev/proto_pcie'' = Inr (fd, True)" and "fd \<ge> 0"
    and "\<And>k. pe_pre (Es k) = pause (t k)"
  shows "\<exists>d. base_demo_main qemu_mmio Es w = Some (0,
      [info_line \<lparr>info_bar0_len = ucast (bar0_len (pw_dev w)), info_irq = irq_no (pw_dev w),
         info_ring_entries = 64, info_ring_entry_size = 64\<rparr>,
       Cout [Str ''status=''], Cout [Num (if t 4 < 25 then 1 else 3), Endl]],
      w\<lparr>pw_dev := d, pw_files := (pw_files w)(fd := None)\<rparr>) \<and>
    (if t 4 < 25 then qemu_pending (p_bar0 d) (25 - t 4) else q_irq (snd (p_bar0 d))) \<and>
    q_last_opcode (snd (p_bar0 d)) = 1 \<and> q_dma_len (snd (p_bar0 d)) = 4 \<and>
    mem_read (the (dma_buf d)) 0 4 = [0x10, 0x20, 0x30, 0x40]"
proof -
  let ?c = "lib_command 1 [0x10, 0x20, 0x30, 0x40]"
  define d1 where "d1 = pause (t 1) (pw_dev w)"
  define d2 where "d2 = base_reset qemu_mmio (pause (t 2) d1)"
  define d3 where "d3 = base_send_cmd qemu_mmio ?c (pause (t 3) d2)"
  define d4 where "d4 = pause (t 4) d3"
  have "qemu_quiet (p_bar0 d1)" using pause_quiet[OF assms(1)] assms(1) by (simp add: d1_def qemu_quiet_def)
  then have q1: "qemu_quiet (p_bar0 (pause (t 2) d1))" using pause_quiet by (simp add: qemu_quiet_def)
  have q2: "qemu_quiet (p_bar0 d2)" "\<not> q_irq (snd (p_bar0 d2))" "dma_buf d2 = Some m"
    using reset_on_qemu[OF q1] assms(2) by (simp_all add: d2_def d1_def)
  have b3: "p_bar0 d3 = (fst (p_bar0 d2) + t 3, (snd (p_bar0 d2))
    \<lparr>q_dma_len := clamp_len ?c, q_last_opcode := 1, q_status := STATUS_READY, q_timer := Some (fst (p_bar0 d2) + t 3 + 25)\<rparr>)"
    unfolding d3_def send_on_qemu pause_quiet[OF q2(1)] by (simp add: lib_command_def zero_command_def Let_def)
  have p3: "qemu_pending (p_bar0 d3) 25" "\<not> q_irq (snd (p_bar0 d3))" using q2(2) by (simp_all add: b3 qemu_pending_def)
  have s3: "last_status d3 = STATUS_READY" using qemu.send_pending[of ?c "pause (t 3) d2"] by (simp add: d3_def)
  have len: "clamp_len ?c = 4"
    by (simp add: clamp_len_def lib_command_def zero_command_def PROTO_PCIE_MAX_PAYLOAD_def Let_def)
  have "take 4 (cmd_payload ?c) = [0x10, 0x20, 0x30, 0x40]"
    by (simp add: lib_command_def zero_command_def copy_bytes_def PROTO_PCIE_MAX_PAYLOAD_def Let_def)
  then have "dma_buf d3 = Some (mem_write m 0 [0x10, 0x20, 0x30, 0x40])"
    using q2(3) by (simp add: d3_def base_send_cmd_def proto_mmio len Let_def)
  then have buf: "mem_read (the (dma_buf d4)) 0 4 = [0x10, 0x20, 0x30, 0x40]" by (simp add: d4_def)
  have s4: "last_status d4 = (if t 4 < 25 then 1 else 3)"
    using pause_running[OF p3, of "t 4"] s3 by (auto simp: d4_def proto_bits split: if_splits)
  have e4: "(if t 4 < 25 then qemu_pending (p_bar0 d4) (25 - t 4) else q_irq (snd (p_bar0 d4))) \<and>
    q_last_opcode (snd (p_bar0 d4)) = 1 \<and> q_dma_len (snd (p_bar0 d4)) = 4"
    using pause_running[OF p3, of "t 4"] by (auto simp: d4_def b3 len split: if_splits)
  have "base_demo_main qemu_mmio Es w = Some (0,
      [info_line \<lparr>info_bar0_len = ucast (bar0_len (pw_dev w)), info_irq = irq_no (pw_dev w),
         info_ring_entries = 64, info_ring_entry_size = 64\<rparr>,
       Cout [Str ''status=''], Cout [Num (if t 4 < 25 then 1 else 3), Endl]],
      w\<lparr>pw_dev := d4, pw_files := (pw_files w)(fd := None)\<rparr>)"
    using assms(3,4) s4 unfolding d4_def d3_def d2_def d1_def
    by (simp add: base_demo_main_def base_lib_open_def p_open_def base_demo_def p_call_def base_lib_open_calls
        assms(5) p_exit_def base_lib_close_def p_close_def)
  then show ?thesis using e4 buf by (intro exI[of _ d4]) simp
qed

theorem base_demo_on_qemu_witness:
  "\<exists>out d. base_demo_main qemu_mmio (\<lambda>_. (wit_penv :: machine proto_dev penv)\<lparr>pe_pre := pause 30\<rparr>)
      \<lparr>pw_dev = wit_proto, pw_files = (\<lambda>_. None)\<rparr> = Some (0, out, \<lparr>pw_dev = d, pw_files = (\<lambda>_. None)\<rparr>) \<and>
    Cout [Num 3, Endl] \<in> set out \<and> mem_read (the (dma_buf d)) 0 4 = [0x10, 0x20, 0x30, 0x40]"
  using base_demo_on_qemu[of "\<lparr>pw_dev = wit_proto, pw_files = (\<lambda>_. None)\<rparr>" "\<lambda>_. 0"
      "\<lambda>_. wit_penv\<lparr>pe_pre := pause 30\<rparr>" 3 "\<lambda>_. 30"]
  by (auto simp: wit_proto_def wit_penv_def qemu_quiet_def proto_pcie_realize_def)

end
