(* ===== verification/Abi.thy ===== *)
theory Abi
  imports Proto_Ring
begin

text \<open>
  The headers of both sides of each ioctl interface as data: the structures with the types of their
  fields, the constants, and the commands with their directions, numbers and arguments. Sizes,
  offsets and command numbers are computed by the rules of the C ABI (x86-64 and i386), so that what the two
  sides were compiled with can be compared, and compared with the numbers the drivers' models use.
\<close>

section \<open>C structures\<close>

datatype ctype = U8 | U16 | U32 | U64 | S32

fun csize :: "ctype \<Rightarrow> nat" where
  "csize U8 = 1" | "csize U16 = 2" | "csize U32 = 4" | "csize U64 = 8" | "csize S32 = 4"

text \<open>A field is a name, an element type and a number of elements, 1 for what is not an array.\<close>

type_synonym cfield = "string \<times> ctype \<times> nat"

record cstruct =
  cs_packed :: bool
  cs_fields :: "cfield list"

definition round_up :: "nat \<Rightarrow> nat \<Rightarrow> nat" where
  "round_up n a = (n + a - 1) div a * a"

text \<open>
  A field is aligned to its size, but to no more than \<open>w\<close> bytes: 8 on x86-64, 4 on i386, where a
  caller of \<open>compat_ioctl\<close> comes from. The fields of a packed structure are not aligned.
\<close>

definition calign :: "nat \<Rightarrow> bool \<Rightarrow> ctype \<Rightarrow> nat" where
  "calign w packed t = (if packed then 1 else min w (csize t))"

text \<open>Each field's name, offset and size, from offset \<open>n\<close> on, and the first offset behind them.\<close>

fun place :: "nat \<Rightarrow> bool \<Rightarrow> nat \<Rightarrow> cfield list \<Rightarrow> (string \<times> nat \<times> nat) list \<times> nat" where
  "place w packed n [] = ([], n)"
| "place w packed n ((name, t, k) # fs) =
     (let off = round_up n (calign w packed t);
          (ps, e) = place w packed (off + csize t * k) fs
      in ((name, off, csize t * k) # ps, e))"

definition layout_at :: "nat \<Rightarrow> cstruct \<Rightarrow> (string \<times> nat \<times> nat) list" where
  "layout_at w s = fst (place w (cs_packed s) 0 (cs_fields s))"

definition sizeof_at :: "nat \<Rightarrow> cstruct \<Rightarrow> nat" where
  "sizeof_at w s = round_up (snd (place w (cs_packed s) 0 (cs_fields s)))
     (Max (insert 1 (set (map (\<lambda>(_, t, _). calign w (cs_packed s) t) (cs_fields s)))))"

abbreviation layout :: "cstruct \<Rightarrow> (string \<times> nat \<times> nat) list" where
  "layout \<equiv> layout_at 8"

abbreviation sizeof :: "cstruct \<Rightarrow> nat" where
  "sizeof \<equiv> sizeof_at 8"

section \<open>Headers\<close>

datatype carg = NoArg | Struct string | Scalar ctype

datatype cdir = DirNone | DirW | DirR | DirWR

record header =
  hd_consts :: "(string \<times> nat) list"
  hd_structs :: "(string \<times> cstruct) list"
  hd_magic :: u32
  hd_ioctls :: "(string \<times> cdir \<times> u32 \<times> carg) list"

definition arg_size :: "header \<Rightarrow> carg \<Rightarrow> nat" where
  "arg_size h a = (case a of NoArg \<Rightarrow> 0 | Scalar t \<Rightarrow> csize t
     | Struct n \<Rightarrow> (case map_of (hd_structs h) n of None \<Rightarrow> 0 | Some s \<Rightarrow> sizeof s))"

fun encode :: "u32 \<Rightarrow> cdir \<Rightarrow> u32 \<Rightarrow> nat \<Rightarrow> u32" where
  "encode m DirNone nr sz = IO m nr"
| "encode m DirW nr sz = IOW m nr (of_nat sz)"
| "encode m DirR nr sz = IOR m nr (of_nat sz)"
| "encode m DirWR nr sz = IOWR m nr (of_nat sz)"

definition command :: "header \<Rightarrow> string \<Rightarrow> u32 option" where
  "command h name = (case map_of (hd_ioctls h) name of None \<Rightarrow> None
     | Some (dir, nr, a) \<Rightarrow> Some (encode (hd_magic h) dir nr (arg_size h a)))"

section \<open>The EDU interface\<close>

text \<open>The driver's side, in \<open>kernel/edu_pci.c\<close>.\<close>

definition edu_kernel_header :: header where
  "edu_kernel_header = \<lparr>
     hd_consts = [(''RING_SIZE'', 64), (''RING_MASK'', 63), (''EDU_OP_FACTORIAL'', 1), (''EDU_OP_DMA_TEST'', 2)],
     hd_structs =
      [(''sq_entry'', \<lparr>cs_packed = True, cs_fields =
          [(''tag'', U16, 1), (''opcode'', U8, 1), (''flags'', U8, 1), (''operand'', U32, 1), (''rsvd'', U64, 1)]\<rparr>),
       (''cq_entry'', \<lparr>cs_packed = True, cs_fields =
          [(''tag'', U16, 1), (''status'', U8, 1), (''flags'', U8, 1), (''result'', U32, 1), (''rsvd'', U64, 1)]\<rparr>),
       (''edu_fact_req'', \<lparr>cs_packed = False, cs_fields =
          [(''input'', U32, 1), (''output'', U32, 1), (''irq_status'', U32, 1)]\<rparr>),
       (''edu_state_req'', \<lparr>cs_packed = False, cs_fields =
          [(''last_irq'', U32, 1), (''last_fact_in'', U32, 1), (''last_fact_out'', U32, 1), (''dma_ok'', U32, 1)]\<rparr>),
       (''edu_submit_req'', \<lparr>cs_packed = False, cs_fields =
          [(''tag'', U16, 1), (''opcode'', U8, 1), (''pad'', U8, 1), (''operand'', U32, 1)]\<rparr>),
       (''edu_completion_req'', \<lparr>cs_packed = False, cs_fields =
          [(''tag'', U16, 1), (''status'', U8, 1), (''pad'', U8, 1), (''result'', U32, 1)]\<rparr>)],
     hd_magic = 0x45,
     hd_ioctls =
      [(''EDU_IOC_RUN_FACTORIAL'', DirWR, 1, Struct ''edu_fact_req''),
       (''EDU_IOC_RUN_DMA_TEST'', DirNone, 2, NoArg),
       (''EDU_IOC_GET_STATE'', DirR, 3, Struct ''edu_state_req''),
       (''EDU_IOC_SUBMIT'', DirW, 4, Struct ''edu_submit_req''),
       (''EDU_IOC_POLL_CQ'', DirR, 5, Struct ''edu_completion_req''),
       (''EDU_IOC_SET_EVENTFD'', DirW, 6, Scalar S32)]\<rparr>"

text \<open>The client's side, in \<open>userspace/edu_device.hpp\<close>.\<close>

definition edu_user_header :: header where
  "edu_user_header = \<lparr>
     hd_consts = [(''RING_SIZE'', 64), (''RING_MASK'', 64 - 1), (''SQ_ENTRY_BYTES'', 16), (''CQ_ENTRY_BYTES'', 16),
       (''SQ_SIZE'', 64 * 16), (''CQ_SIZE'', 64 * 16), (''DMA_BUF_TOTAL'', 4096),
       (''EDU_OP_FACTORIAL'', 0x01), (''EDU_OP_DMA_TEST'', 0x02)],
     hd_structs =
      [(''sq_entry'', \<lparr>cs_packed = True, cs_fields =
          [(''tag'', U16, 1), (''opcode'', U8, 1), (''flags'', U8, 1), (''operand'', U32, 1), (''rsvd'', U64, 1)]\<rparr>),
       (''cq_entry'', \<lparr>cs_packed = True, cs_fields =
          [(''tag'', U16, 1), (''status'', U8, 1), (''flags'', U8, 1), (''result'', U32, 1), (''rsvd'', U64, 1)]\<rparr>),
       (''edu_fact_req'', \<lparr>cs_packed = False, cs_fields =
          [(''input'', U32, 1), (''output'', U32, 1), (''irq_status'', U32, 1)]\<rparr>),
       (''edu_state_req'', \<lparr>cs_packed = False, cs_fields =
          [(''last_irq'', U32, 1), (''last_fact_in'', U32, 1), (''last_fact_out'', U32, 1), (''dma_ok'', U32, 1)]\<rparr>),
       (''edu_submit_req'', \<lparr>cs_packed = False, cs_fields =
          [(''tag'', U16, 1), (''opcode'', U8, 1), (''pad'', U8, 1), (''operand'', U32, 1)]\<rparr>),
       (''edu_completion_req'', \<lparr>cs_packed = False, cs_fields =
          [(''tag'', U16, 1), (''status'', U8, 1), (''pad'', U8, 1), (''result'', U32, 1)]\<rparr>)],
     hd_magic = 0x45,
     hd_ioctls =
      [(''EDU_IOC_RUN_FACTORIAL'', DirWR, 1, Struct ''edu_fact_req''),
       (''EDU_IOC_RUN_DMA_TEST'', DirNone, 2, NoArg),
       (''EDU_IOC_GET_STATE'', DirR, 3, Struct ''edu_state_req''),
       (''EDU_IOC_SUBMIT'', DirW, 4, Struct ''edu_submit_req''),
       (''EDU_IOC_POLL_CQ'', DirR, 5, Struct ''edu_completion_req''),
       (''EDU_IOC_SET_EVENTFD'', DirW, 6, Scalar S32)]\<rparr>"

text \<open>The structures of the C interface, in \<open>userspace/edu_device_c.hpp\<close>.\<close>

definition edu_state_t :: cstruct where
  "edu_state_t = \<lparr>cs_packed = False, cs_fields =
     [(''last_irq'', U32, 1), (''last_fact_in'', U32, 1), (''last_fact_out'', U32, 1), (''dma_ok'', U32, 1)]\<rparr>"

definition edu_completion_t :: cstruct where
  "edu_completion_t = \<lparr>cs_packed = False, cs_fields = [(''tag'', U16, 1), (''status'', U8, 1), (''result'', U32, 1)]\<rparr>"

text \<open>
  The functions of the C interface, each with its result, \<open>None\<close> for \<open>void\<close>, and its parameters, as
  \<open>edu_device_c.hpp\<close> declares them and as \<open>python/edu_device.py\<close> declares them to \<open>ctypes\<close>, with the
  structures Python mirrors.
\<close>

datatype cparam = ParVal ctype | ParHandle | ParChars | ParU32Ptr | ParPtr cstruct

type_synonym prototype = "string \<times> cparam option \<times> cparam list"

definition c_prototypes :: "prototype list" where
  "c_prototypes =
    [(''edu_open'', Some ParHandle, [ParChars]),
     (''edu_close'', None, [ParHandle]),
     (''edu_factorial'', Some (ParVal S32), [ParHandle, ParVal U32, ParU32Ptr]),
     (''edu_dma_test'', Some (ParVal S32), [ParHandle]),
     (''edu_state'', Some (ParVal S32), [ParHandle, ParPtr edu_state_t]),
     (''edu_submit'', Some (ParVal S32), [ParHandle, ParVal U16, ParVal U8, ParVal U32]),
     (''edu_submit_zc'', Some (ParVal S32), [ParHandle, ParVal U16, ParVal U8, ParVal U32]),
     (''edu_poll_completion'', Some (ParVal S32), [ParHandle, ParPtr edu_completion_t]),
     (''edu_wait_completion'', Some (ParVal S32), [ParHandle, ParVal S32, ParPtr edu_completion_t]),
     (''edu_map_rings'', Some (ParVal S32), [ParHandle]),
     (''edu_unmap_rings'', None, [ParHandle])]"

definition py_EduStateReq :: cstruct where
  "py_EduStateReq = \<lparr>cs_packed = False, cs_fields =
     [(''last_irq'', U32, 1), (''last_fact_in'', U32, 1), (''last_fact_out'', U32, 1), (''dma_ok'', U32, 1)]\<rparr>"

definition py_Completion :: cstruct where
  "py_Completion = \<lparr>cs_packed = False, cs_fields = [(''tag'', U16, 1), (''status'', U8, 1), (''result'', U32, 1)]\<rparr>"

definition py_prototypes :: "prototype list" where
  "py_prototypes =
    [(''edu_open'', Some ParHandle, [ParChars]),
     (''edu_close'', None, [ParHandle]),
     (''edu_factorial'', Some (ParVal S32), [ParHandle, ParVal U32, ParU32Ptr]),
     (''edu_dma_test'', Some (ParVal S32), [ParHandle]),
     (''edu_state'', Some (ParVal S32), [ParHandle, ParPtr py_EduStateReq]),
     (''edu_submit'', Some (ParVal S32), [ParHandle, ParVal U16, ParVal U8, ParVal U32]),
     (''edu_poll_completion'', Some (ParVal S32), [ParHandle, ParPtr py_Completion]),
     (''edu_wait_completion'', Some (ParVal S32), [ParHandle, ParVal S32, ParPtr py_Completion]),
     (''edu_map_rings'', Some (ParVal S32), [ParHandle]),
     (''edu_unmap_rings'', None, [ParHandle]),
     (''edu_submit_zc'', Some (ParVal S32), [ParHandle, ParVal U16, ParVal U8, ParVal U32])]"

section \<open>The proto_pcie interfaces\<close>

text \<open>
  Each of the three prototypes has its own pair of headers, \<open>kernel/proto_pcie.h\<close> and
  \<open>userspace/proto_pcie.hpp\<close>; each is written down by itself, from its own file.
\<close>

definition base_kernel_header :: header where
  "base_kernel_header = \<lparr>
     hd_consts = [(''PROTO_PCIE_MAX_PAYLOAD'', 256)],
     hd_structs =
      [(''proto_pcie_info'', \<lparr>cs_packed = False, cs_fields =
          [(''bar0_len'', U32, 1), (''irq'', U32, 1), (''ring_entries'', U32, 1), (''ring_entry_size'', U32, 1)]\<rparr>),
       (''proto_pcie_command'', \<lparr>cs_packed = False, cs_fields =
          [(''opcode'', U32, 1), (''length'', U32, 1), (''payload'', U8, 256)]\<rparr>)],
     hd_magic = 0x50,
     hd_ioctls =
      [(''PROTO_PCIE_IOC_GET_INFO'', DirR, 1, Struct ''proto_pcie_info''),
       (''PROTO_PCIE_IOC_RESET'', DirNone, 2, NoArg),
       (''PROTO_PCIE_IOC_SEND_CMD'', DirW, 3, Struct ''proto_pcie_command''),
       (''PROTO_PCIE_IOC_GET_STATUS'', DirR, 4, Scalar U32)]\<rparr>"

definition base_user_header :: header where
  "base_user_header = \<lparr>
     hd_consts = [(''PROTO_PCIE_MAX_PAYLOAD'', 256)],
     hd_structs =
      [(''proto_pcie_info'', \<lparr>cs_packed = False, cs_fields =
          [(''bar0_len'', U32, 1), (''irq'', U32, 1), (''ring_entries'', U32, 1), (''ring_entry_size'', U32, 1)]\<rparr>),
       (''proto_pcie_command'', \<lparr>cs_packed = False, cs_fields =
          [(''opcode'', U32, 1), (''length'', U32, 1), (''payload'', U8, 256)]\<rparr>)],
     hd_magic = 0x50,
     hd_ioctls =
      [(''PROTO_PCIE_IOC_GET_INFO'', DirR, 1, Struct ''proto_pcie_info''),
       (''PROTO_PCIE_IOC_RESET'', DirNone, 2, NoArg),
       (''PROTO_PCIE_IOC_SEND_CMD'', DirW, 3, Struct ''proto_pcie_command''),
       (''PROTO_PCIE_IOC_GET_STATUS'', DirR, 4, Scalar U32)]\<rparr>"

definition sim_kernel_header :: header where
  "sim_kernel_header = \<lparr>
     hd_consts = [(''PROTO_PCIE_MAX_PAYLOAD'', 256)],
     hd_structs =
      [(''proto_pcie_info'', \<lparr>cs_packed = False, cs_fields =
          [(''bar0_len'', U32, 1), (''irq'', U32, 1), (''ring_entries'', U32, 1), (''ring_entry_size'', U32, 1)]\<rparr>),
       (''proto_pcie_command'', \<lparr>cs_packed = False, cs_fields =
          [(''opcode'', U32, 1), (''length'', U32, 1), (''payload'', U8, 256)]\<rparr>)],
     hd_magic = 0x50,
     hd_ioctls =
      [(''PROTO_PCIE_IOC_GET_INFO'', DirR, 1, Struct ''proto_pcie_info''),
       (''PROTO_PCIE_IOC_RESET'', DirNone, 2, NoArg),
       (''PROTO_PCIE_IOC_SEND_CMD'', DirW, 3, Struct ''proto_pcie_command''),
       (''PROTO_PCIE_IOC_GET_STATUS'', DirR, 4, Scalar U32)]\<rparr>"

definition sim_user_header :: header where
  "sim_user_header = \<lparr>
     hd_consts = [(''PROTO_PCIE_MAX_PAYLOAD'', 256)],
     hd_structs =
      [(''proto_pcie_info'', \<lparr>cs_packed = False, cs_fields =
          [(''bar0_len'', U32, 1), (''irq'', U32, 1), (''ring_entries'', U32, 1), (''ring_entry_size'', U32, 1)]\<rparr>),
       (''proto_pcie_command'', \<lparr>cs_packed = False, cs_fields =
          [(''opcode'', U32, 1), (''length'', U32, 1), (''payload'', U8, 256)]\<rparr>)],
     hd_magic = 0x50,
     hd_ioctls =
      [(''PROTO_PCIE_IOC_GET_INFO'', DirR, 1, Struct ''proto_pcie_info''),
       (''PROTO_PCIE_IOC_RESET'', DirNone, 2, NoArg),
       (''PROTO_PCIE_IOC_SEND_CMD'', DirW, 3, Struct ''proto_pcie_command''),
       (''PROTO_PCIE_IOC_GET_STATUS'', DirR, 4, Scalar U32)]\<rparr>"

definition ring_kernel_header :: header where
  "ring_kernel_header = \<lparr>
     hd_consts = [(''PROTO_PCIE_MAX_PAYLOAD'', 256), (''PROTO_PCIE_SIM_RING_ENTRIES'', 64),
       (''PROTO_PCIE_SIM_RING_ENTRY_SIZE'', 64)],
     hd_structs =
      [(''proto_pcie_info'', \<lparr>cs_packed = False, cs_fields =
          [(''bar0_len'', U32, 1), (''irq'', U32, 1), (''ring_entries'', U32, 1), (''ring_entry_size'', U32, 1)]\<rparr>),
       (''proto_pcie_command'', \<lparr>cs_packed = False, cs_fields =
          [(''opcode'', U32, 1), (''length'', U32, 1), (''payload'', U8, 256)]\<rparr>),
       (''proto_pcie_ring_state'', \<lparr>cs_packed = False, cs_fields =
          [(''cmd_head'', U32, 1), (''cmd_tail'', U32, 1), (''cmd_pending'', U32, 1), (''comp_head'', U32, 1),
           (''comp_tail'', U32, 1), (''comp_pending'', U32, 1), (''completed_total'', U32, 1), (''last_opcode'', U32, 1),
           (''last_length'', U32, 1), (''last_status'', U32, 1), (''next_seqno'', U32, 1)]\<rparr>)],
     hd_magic = 0x50,
     hd_ioctls =
      [(''PROTO_PCIE_IOC_GET_INFO'', DirR, 1, Struct ''proto_pcie_info''),
       (''PROTO_PCIE_IOC_RESET'', DirNone, 2, NoArg),
       (''PROTO_PCIE_IOC_SEND_CMD'', DirW, 3, Struct ''proto_pcie_command''),
       (''PROTO_PCIE_IOC_GET_STATUS'', DirR, 4, Scalar U32),
       (''PROTO_PCIE_IOC_PROCESS_PENDING'', DirNone, 5, NoArg),
       (''PROTO_PCIE_IOC_GET_RING_STATE'', DirR, 6, Struct ''proto_pcie_ring_state'')]\<rparr>"

definition ring_user_header :: header where
  "ring_user_header = \<lparr>
     hd_consts = [(''PROTO_PCIE_MAX_PAYLOAD'', 256)],
     hd_structs =
      [(''proto_pcie_info'', \<lparr>cs_packed = False, cs_fields =
          [(''bar0_len'', U32, 1), (''irq'', U32, 1), (''ring_entries'', U32, 1), (''ring_entry_size'', U32, 1)]\<rparr>),
       (''proto_pcie_command'', \<lparr>cs_packed = False, cs_fields =
          [(''opcode'', U32, 1), (''length'', U32, 1), (''payload'', U8, 256)]\<rparr>),
       (''proto_pcie_ring_state'', \<lparr>cs_packed = False, cs_fields =
          [(''cmd_head'', U32, 1), (''cmd_tail'', U32, 1), (''cmd_pending'', U32, 1), (''comp_head'', U32, 1),
           (''comp_tail'', U32, 1), (''comp_pending'', U32, 1), (''completed_total'', U32, 1), (''last_opcode'', U32, 1),
           (''last_length'', U32, 1), (''last_status'', U32, 1), (''next_seqno'', U32, 1)]\<rparr>)],
     hd_magic = 0x50,
     hd_ioctls =
      [(''PROTO_PCIE_IOC_GET_INFO'', DirR, 1, Struct ''proto_pcie_info''),
       (''PROTO_PCIE_IOC_RESET'', DirNone, 2, NoArg),
       (''PROTO_PCIE_IOC_SEND_CMD'', DirW, 3, Struct ''proto_pcie_command''),
       (''PROTO_PCIE_IOC_GET_STATUS'', DirR, 4, Scalar U32),
       (''PROTO_PCIE_IOC_PROCESS_PENDING'', DirNone, 5, NoArg),
       (''PROTO_PCIE_IOC_GET_RING_STATE'', DirR, 6, Struct ''proto_pcie_ring_state'')]\<rparr>"

text \<open>The header beside the EDU driver, which the repository has no driver for.\<close>

definition async_kernel_header :: header where
  "async_kernel_header = \<lparr>
     hd_consts = [(''PROTO_PCIE_MAX_PAYLOAD'', 256), (''PROTO_PCIE_RING_DEPTH'', 8)],
     hd_structs =
      [(''proto_pcie_info'', \<lparr>cs_packed = False, cs_fields =
          [(''bar0_len'', U32, 1), (''irq'', U32, 1), (''ring_entries'', U32, 1), (''ring_entry_size'', U32, 1)]\<rparr>),
       (''proto_pcie_command'', \<lparr>cs_packed = False, cs_fields =
          [(''opcode'', U32, 1), (''length'', U32, 1), (''payload'', U8, 256)]\<rparr>),
       (''proto_pcie_ring_state'', \<lparr>cs_packed = False, cs_fields =
          [(''cmd_head'', U32, 1), (''cmd_tail'', U32, 1), (''cmd_pending'', U32, 1), (''comp_head'', U32, 1),
           (''comp_tail'', U32, 1), (''comp_pending'', U32, 1), (''completed_total'', U32, 1), (''last_opcode'', U32, 1),
           (''last_length'', U32, 1), (''last_status'', U32, 1), (''next_seqno'', U32, 1)]\<rparr>),
       (''proto_pcie_wait'', \<lparr>cs_packed = False, cs_fields =
          [(''target_completed_total'', U32, 1), (''timeout_ms'', U32, 1), (''observed_completed_total'', U32, 1),
           (''result'', S32, 1)]\<rparr>)],
     hd_magic = 0x50,
     hd_ioctls =
      [(''PROTO_PCIE_IOC_GET_INFO'', DirR, 1, Struct ''proto_pcie_info''),
       (''PROTO_PCIE_IOC_RESET'', DirNone, 2, NoArg),
       (''PROTO_PCIE_IOC_SEND_CMD'', DirW, 3, Struct ''proto_pcie_command''),
       (''PROTO_PCIE_IOC_GET_STATUS'', DirR, 4, Scalar U32),
       (''PROTO_PCIE_IOC_GET_RING_STATE'', DirR, 5, Struct ''proto_pcie_ring_state''),
       (''PROTO_PCIE_IOC_WAIT_COMPLETION'', DirWR, 6, Struct ''proto_pcie_wait'')]\<rparr>"

end
