(* ===== verification/Abi_Claims.thy ===== *)
theory Abi_Claims
  imports Abi Edu_System "HOL-Library.Multiset"
begin

text \<open>
  The two sides of each ioctl interface agree with each other and with the models of the drivers: a
  driver answers exactly the numbers its user's header gives, and finds the fields of a ring entry
  where the header puts them. The header of the async directory agrees with none of the drivers.
\<close>

lemma command_simps:
  "command h name = map_option (\<lambda>(dir, nr, a). encode (hd_magic h) dir nr (arg_size h a)) (map_of (hd_ioctls h) name)"
  by (simp add: command_def split: option.split)

lemmas abi_eval = command_simps arg_size_def sizeof_at_def layout_at_def round_up_def calign_def ioc_defs

lemma edu_sizes:
  "arg_size edu_kernel_header (Struct ''edu_fact_req'') = 12"
  "arg_size edu_kernel_header (Struct ''edu_state_req'') = 16"
  "arg_size edu_kernel_header (Struct ''edu_submit_req'') = 8"
  "arg_size edu_kernel_header (Struct ''edu_completion_req'') = 8"
  "arg_size edu_kernel_header (Struct ''sq_entry'') = 16"
  "arg_size edu_kernel_header (Struct ''cq_entry'') = 16"
  by (simp_all add: edu_kernel_header_def abi_eval)

lemma edu_command_numbers:
  "command edu_kernel_header ''EDU_IOC_RUN_FACTORIAL'' = Some EDU_IOC_RUN_FACTORIAL"
  "command edu_kernel_header ''EDU_IOC_RUN_DMA_TEST'' = Some EDU_IOC_RUN_DMA_TEST"
  "command edu_kernel_header ''EDU_IOC_GET_STATE'' = Some EDU_IOC_GET_STATE"
  "command edu_kernel_header ''EDU_IOC_SUBMIT'' = Some EDU_IOC_SUBMIT"
  "command edu_kernel_header ''EDU_IOC_POLL_CQ'' = Some EDU_IOC_POLL_CQ"
  "command edu_kernel_header ''EDU_IOC_SET_EVENTFD'' = Some EDU_IOC_SET_EVENTFD"
  by (simp_all add: edu_kernel_header_def abi_eval edu_ioc_values)

lemma ring_commands:
  "command ring_kernel_header ''PROTO_PCIE_IOC_GET_INFO'' = Some PROTO_PCIE_IOC_GET_INFO"
  "command ring_kernel_header ''PROTO_PCIE_IOC_RESET'' = Some PROTO_PCIE_IOC_RESET"
  "command ring_kernel_header ''PROTO_PCIE_IOC_SEND_CMD'' = Some PROTO_PCIE_IOC_SEND_CMD"
  "command ring_kernel_header ''PROTO_PCIE_IOC_GET_STATUS'' = Some PROTO_PCIE_IOC_GET_STATUS"
  "command ring_kernel_header ''PROTO_PCIE_IOC_PROCESS_PENDING'' = Some PROTO_PCIE_IOC_PROCESS_PENDING"
  "command ring_kernel_header ''PROTO_PCIE_IOC_GET_RING_STATE'' = Some PROTO_PCIE_IOC_GET_RING_STATE"
  by (simp_all add: ring_kernel_header_def abi_eval proto_ioc_values ring_ioc_values)

text \<open>What a header fixes of the binary interface.\<close>

definition struct_abi :: "header \<Rightarrow> (string \<times> (string \<times> nat \<times> nat) list \<times> nat) list" where
  "struct_abi h = map (\<lambda>(n, s). (n, layout s, sizeof s)) (hd_structs h)"

definition command_abi :: "header \<Rightarrow> (string \<times> u32 option) list" where
  "command_abi h = map (\<lambda>(n, _). (n, command h n)) (hd_ioctls h)"

definition abi :: "header \<Rightarrow> (string \<times> (string \<times> nat \<times> nat) list \<times> nat) list \<times> (string \<times> u32 option) list" where
  "abi h = (struct_abi h, command_abi h)"

lemma edu_command_abi: "map snd (command_abi edu_kernel_header) = map Some edu_commands"
proof -
  have "map fst (hd_ioctls edu_kernel_header) = [''EDU_IOC_RUN_FACTORIAL'', ''EDU_IOC_RUN_DMA_TEST'', ''EDU_IOC_GET_STATE'',
      ''EDU_IOC_SUBMIT'', ''EDU_IOC_POLL_CQ'', ''EDU_IOC_SET_EVENTFD'']" by (simp add: edu_kernel_header_def)
  then have "map (command edu_kernel_header) (map fst (hd_ioctls edu_kernel_header)) = map Some edu_commands"
    by (simp add: edu_command_numbers edu_commands_def)
  then show ?thesis by (simp add: command_abi_def split_def comp_def)
qed

lemma ring_command_abi:
  "map snd (command_abi ring_kernel_header) = map Some [PROTO_PCIE_IOC_GET_INFO, PROTO_PCIE_IOC_RESET,
     PROTO_PCIE_IOC_SEND_CMD, PROTO_PCIE_IOC_GET_STATUS, PROTO_PCIE_IOC_PROCESS_PENDING, PROTO_PCIE_IOC_GET_RING_STATE]"
    (is "_ = map Some ?numbers")
proof -
  have "map fst (hd_ioctls ring_kernel_header) = [''PROTO_PCIE_IOC_GET_INFO'', ''PROTO_PCIE_IOC_RESET'',
      ''PROTO_PCIE_IOC_SEND_CMD'', ''PROTO_PCIE_IOC_GET_STATUS'', ''PROTO_PCIE_IOC_PROCESS_PENDING'',
      ''PROTO_PCIE_IOC_GET_RING_STATE'']" by (simp add: ring_kernel_header_def)
  then have "map (command ring_kernel_header) (map fst (hd_ioctls ring_kernel_header)) = map Some ?numbers"
    by (simp add: ring_commands)
  then show ?thesis by (simp add: command_abi_def split_def comp_def)
qed

lemma same_abi:
  "abi edu_user_header = abi edu_kernel_header" "abi base_user_header = abi base_kernel_header"
  "abi sim_user_header = abi sim_kernel_header" "abi ring_user_header = abi ring_kernel_header"
proof -
  show "abi edu_user_header = abi edu_kernel_header"
    by (simp add: abi_def struct_abi_def command_abi_def edu_user_header_def edu_kernel_header_def command_simps arg_size_def)
  show "abi base_user_header = abi base_kernel_header" "abi sim_user_header = abi sim_kernel_header"
    by (simp_all add: base_user_header_def base_kernel_header_def sim_user_header_def sim_kernel_header_def)
  show "abi ring_user_header = abi ring_kernel_header"
    by (simp add: abi_def struct_abi_def command_abi_def ring_user_header_def ring_kernel_header_def command_simps arg_size_def)
qed

lemma edu_user_layout:
  "map_of (struct_abi edu_user_header) ''sq_entry'' = Some ([(''tag'', 0, 2), (''opcode'', 2, 1), (''flags'', 3, 1),
     (''operand'', 4, 4), (''rsvd'', 8, 8)], ENTRY_SIZE)"
  "map (map_of (hd_consts edu_user_header)) [''RING_SIZE'', ''RING_MASK'', ''SQ_SIZE'', ''CQ_SIZE'', ''DMA_BUF_TOTAL''] =
     map Some [RING_SIZE, unat RING_MASK, SQ_SIZE, CQ_SIZE, DMA_BUF_TOTAL]"
  "layout edu_state_t = layout (snd (hd_structs edu_user_header ! 3))"
  by (simp_all add: struct_abi_def edu_user_header_def edu_state_t_def abi_eval ENTRY_SIZE_def layout_simps RING_MASK_def)

lemma edu_layout_32:
  "map (\<lambda>(_, s). (layout_at 4 s, sizeof_at 4 s)) (hd_structs edu_kernel_header) =
     map (\<lambda>(_, s). (layout s, sizeof s)) (hd_structs edu_kernel_header)"
  by (simp add: edu_kernel_header_def abi_eval)

lemma python_prototypes: "mset py_prototypes = mset c_prototypes"
  by (simp add: py_prototypes_def c_prototypes_def py_EduStateReq_def py_Completion_def edu_state_t_def edu_completion_t_def)

text \<open>The command numbers a program compiled with the header can use.\<close>

definition numbers :: "header \<Rightarrow> u32 set" where
  "numbers h = {cmd. Some cmd \<in> snd ` set (command_abi h)}"

lemma numbers_map: "map snd (command_abi h) = map Some cmds \<Longrightarrow> numbers h = set cmds"
proof -
  assume "map snd (command_abi h) = map Some cmds"
  then have "snd ` set (command_abi h) = Some ` set cmds" by (metis set_map)
  then show ?thesis by (auto simp: numbers_def)
qed

lemma base_numbers:
  "numbers base_user_header = {PROTO_PCIE_IOC_GET_INFO, PROTO_PCIE_IOC_RESET, PROTO_PCIE_IOC_SEND_CMD, PROTO_PCIE_IOC_GET_STATUS}"
  "numbers sim_user_header = {PROTO_PCIE_IOC_GET_INFO, PROTO_PCIE_IOC_RESET, PROTO_PCIE_IOC_SEND_CMD, PROTO_PCIE_IOC_GET_STATUS}"
  by (auto simp: numbers_def command_abi_def base_user_header_def sim_user_header_def abi_eval proto_ioc_values)

lemma edu_ring_numbers:
  "numbers edu_user_header = set edu_commands"
  "numbers ring_user_header = {PROTO_PCIE_IOC_GET_INFO, PROTO_PCIE_IOC_RESET, PROTO_PCIE_IOC_SEND_CMD,
     PROTO_PCIE_IOC_GET_STATUS, PROTO_PCIE_IOC_PROCESS_PENDING, PROTO_PCIE_IOC_GET_RING_STATE}"
  using numbers_map[OF edu_command_abi] numbers_map[OF ring_command_abi] same_abi
  by (simp_all add: numbers_def abi_def)

text \<open>Each driver refuses, as no command of its own, exactly the numbers outside the header of its user.\<close>

lemma edu_answers:
  assumes "\<And>fd. u_fdget u fd \<noteq> Inl ENOTTY"
  shows "fst (edu_ioctl D u cmd e) = Inl ENOTTY \<longleftrightarrow> cmd \<notin> numbers edu_user_header"
proof (cases "cmd \<in> set edu_commands")
  case False
  then show ?thesis by (simp add: edu_ring_numbers edu_ioctl_unknown)
next
  case True
  then consider "cmd = EDU_IOC_RUN_FACTORIAL" | "cmd = EDU_IOC_RUN_DMA_TEST" | "cmd = EDU_IOC_GET_STATE"
    | "cmd = EDU_IOC_SUBMIT" | "cmd = EDU_IOC_POLL_CQ" | "cmd = EDU_IOC_SET_EVENTFD"
    by (auto simp: edu_commands_def)
  then have "fst (edu_ioctl D u cmd e) \<noteq> Inl ENOTTY"
  proof cases
    case 6
    then show ?thesis
      using assms by (auto simp: edu_ioctl_cmds edu_set_eventfd_def split: option.split sum.split)
  qed (simp_all add: edu_ioctl_cmds edu_run_factorial_eq edu_run_dma_test_eq edu_dma_check_def
      edu_ring_submit_ret edu_poll_cq_def split_def Let_def split: option.split)
  then show ?thesis using True by (simp add: edu_ring_numbers)
qed

lemma process_pending_ok: "fst (proto_sim_process_pending d) = ok"
  by (induction d rule: proto_sim_process_pending.induct) (subst proto_sim_process_pending.simps, simp)

lemma proto_answers:
  "fst (base_proto_ioctl D pu cmd b) = Inl ENOTTY \<longleftrightarrow> cmd \<notin> numbers base_user_header"
  "fst (sim_proto_ioctl D pu cmd s) = Inl ENOTTY \<longleftrightarrow> cmd \<notin> numbers sim_user_header"
  "fst (ring_proto_ioctl D pu cmd r) = Inl ENOTTY \<longleftrightarrow> cmd \<notin> numbers ring_user_header"
proof -
  have magic: "IOC_TYPE PROTO_PCIE_IOC_GET_INFO = PROTO_PCIE_IOC_MAGIC" "IOC_TYPE PROTO_PCIE_IOC_RESET = PROTO_PCIE_IOC_MAGIC"
    "IOC_TYPE PROTO_PCIE_IOC_SEND_CMD = PROTO_PCIE_IOC_MAGIC" "IOC_TYPE PROTO_PCIE_IOC_GET_STATUS = PROTO_PCIE_IOC_MAGIC"
    "IOC_TYPE PROTO_PCIE_IOC_PROCESS_PENDING = PROTO_PCIE_IOC_MAGIC" "IOC_TYPE PROTO_PCIE_IOC_GET_RING_STATE = PROTO_PCIE_IOC_MAGIC"
    by (simp_all add: proto_ioc_values ring_ioc_values IOC_TYPE_def PROTO_PCIE_IOC_MAGIC_def)
  show "fst (base_proto_ioctl D pu cmd b) = Inl ENOTTY \<longleftrightarrow> cmd \<notin> numbers base_user_header"
    using magic by (auto simp: base_numbers base_proto_ioctl_def reply_def split: option.split)
  show "fst (sim_proto_ioctl D pu cmd s) = Inl ENOTTY \<longleftrightarrow> cmd \<notin> numbers sim_user_header"
    using magic by (auto simp: base_numbers sim_proto_ioctl_def reply_def split: option.split)
  show "fst (ring_proto_ioctl D pu cmd r) = Inl ENOTTY \<longleftrightarrow> cmd \<notin> numbers ring_user_header"
    using magic by (auto simp: edu_ring_numbers ring_proto_ioctl_def reply_def proto_sim_enqueue_command_def
        process_pending_ok split_def Let_def split: option.split)
qed

text \<open>The bytes a header calls by a field's name, in an image of one of its structures.\<close>

definition fields :: "header \<Rightarrow> string \<Rightarrow> u8 list \<Rightarrow> (string \<times> u8 list) list" where
  "fields h name bs = (case map_of (hd_structs h) name of None \<Rightarrow> []
     | Some s \<Rightarrow> map (\<lambda>(n, off, k). (n, take k (drop off bs))) (layout s))"

lemma le_bytes_1: "le_bytes (Suc 0) (w :: u8) = [w]"
  by (simp add: le_bytes_def)

lemma entry_fields:
  "fields edu_user_header ''sq_entry'' (sq_bytes s) =
     [(''tag'', le_bytes 2 (sq_tag s)), (''opcode'', [sq_opcode s]), (''flags'', [sq_flags s]),
      (''operand'', le_bytes 4 (sq_operand s)), (''rsvd'', le_bytes 8 (sq_rsvd s))]"
  "fields edu_user_header ''cq_entry'' (cq_bytes c) =
     [(''tag'', le_bytes 2 (cq_tag c)), (''status'', [cq_status c]), (''flags'', [cq_flags c]),
      (''result'', le_bytes 4 (cq_result c)), (''rsvd'', le_bytes 8 (cq_rsvd c))]"
  by (simp_all add: fields_def edu_user_header_def abi_eval sq_bytes_def cq_bytes_def)

lemma payload_consts:
  "list_all (\<lambda>h. map_of (hd_consts h) ''PROTO_PCIE_MAX_PAYLOAD'' = Some (unat PROTO_PCIE_MAX_PAYLOAD))
     [base_user_header, sim_user_header, ring_user_header]"
  by (simp add: base_user_header_def sim_user_header_def ring_user_header_def PROTO_PCIE_MAX_PAYLOAD_def)



text \<open>The header in the async directory is the interface of no driver in the repository: it shares
  four commands with the others, but its \<open>GET_RING_STATE\<close> and its \<open>WAIT_COMPLETION\<close> have numbers
  that each of the three drivers answers with \<open>ENOTTY\<close>, in every state and whatever the argument,
  the first one although the ring driver has a command of that name.\<close>

lemma async_header_refused:
  "take 4 (command_abi async_kernel_header) = take 4 (command_abi ring_kernel_header) \<and>
   (let cmds = map (the \<circ> command async_kernel_header) [''PROTO_PCIE_IOC_GET_RING_STATE'', ''PROTO_PCIE_IOC_WAIT_COMPLETION'']
    in cmds = [0x802C5005, 0xC0105006] \<and>
       map (\<lambda>cmd. base_proto_ioctl D u cmd (b :: 'h proto_dev)) cmds = replicate 2 (Inl ENOTTY, PoutNone :: proto_pcie_ring_state proto_out, b) \<and>
       map (\<lambda>cmd. sim_proto_ioctl D u cmd (s :: 'h sim_dev)) cmds = replicate 2 (Inl ENOTTY, PoutNone :: proto_pcie_ring_state proto_out, s) \<and>
       map (\<lambda>cmd. ring_proto_ioctl D u cmd r) cmds = replicate 2 (Inl ENOTTY, PoutNone, r))"
proof -
  have c: "map (the \<circ> command async_kernel_header) [''PROTO_PCIE_IOC_GET_RING_STATE'', ''PROTO_PCIE_IOC_WAIT_COMPLETION''] =
      [0x802C5005, 0xC0105006]"
    by (simp add: async_kernel_header_def abi_eval)
  have "take 4 (command_abi async_kernel_header) = take 4 (command_abi ring_kernel_header)"
    by (simp add: command_abi_def async_kernel_header_def ring_kernel_header_def command_simps arg_size_def)
  moreover have "base_proto_ioctl D u cmd b = (Inl ENOTTY, PoutNone :: proto_pcie_ring_state proto_out, b) \<and>
      sim_proto_ioctl D u cmd s = (Inl ENOTTY, PoutNone :: proto_pcie_ring_state proto_out, s) \<and>
      ring_proto_ioctl D u cmd r = (Inl ENOTTY, PoutNone, r)" if "cmd = 0x802C5005 \<or> cmd = 0xC0105006" for cmd
    using that
    by (elim disjE) (simp_all add: base_proto_ioctl_def sim_proto_ioctl_def ring_proto_ioctl_def proto_ioc_values ring_ioc_values)
  ultimately show ?thesis unfolding c Let_def by (simp add: numeral_2_eq_2)
qed

end
