(* ===== verification/Char_Dev.thy ===== *)
theory Char_Dev
  imports Resources
begin

text \<open>
  A PCI driver module with a misc character device: the tables a driver hands to the kernel, what
  the kernel does with them between loading and unloading, and the contract under which no operation
  runs on a device structure that is gone. The steps of the kernel are the environment; the
  operations are the driver's.
\<close>

section \<open>The tables of a driver\<close>

text \<open>
  \<open>file->private_data\<close> first points at the miscdevice inside the structure at an address, and
  \<open>container_of\<close> gives the structure; an open function may store a pointer to the structure itself.
\<close>

datatype private_data = PrivMisc nat | PrivDev nat

definition container_of :: "private_data \<Rightarrow> nat option" where
  "container_of p = (case p of PrivMisc a \<Rightarrow> Some a | PrivDev _ \<Rightarrow> None)"

definition as_structure :: "private_data \<Rightarrow> nat option" where
  "as_structure p = (case p of PrivDev a \<Rightarrow> Some a | PrivMisc _ \<Rightarrow> None)"

text \<open>
  \<open>struct file_operations\<close>: the operations a driver leaves out are \<open>None\<close>; \<open>fo_device\<close> is how its
  operations get from \<open>private_data\<close> to the structure.
\<close>

record ('d, 'u, 'o) file_ops =
  fo_owner :: bool
  fo_open :: "private_data \<Rightarrow> 'd \<Rightarrow> private_data \<times> 'd"
  fo_device :: "private_data \<Rightarrow> nat option"
  fo_ioctl :: "'u \<Rightarrow> u32 \<Rightarrow> 'd \<Rightarrow> ret \<times> 'o \<times> 'd"
  fo_compat :: "('u \<Rightarrow> u32 \<Rightarrow> 'd \<Rightarrow> ret \<times> 'o \<times> 'd) option"
  fo_mmap :: "((u64 \<Rightarrow> u64 \<Rightarrow> u64 \<Rightarrow> ret) \<Rightarrow> u64 \<Rightarrow> u64 \<Rightarrow> u64 \<Rightarrow> ret) option"
  fo_poll :: "('d \<Rightarrow> u32) option"

record ('d, 'e, 'r) pci_driver =
  pd_name :: string
  pd_id_table :: "(u16 \<times> u16) list"
  pd_probe :: "'e \<Rightarrow> ret \<times> 'r rop list \<times> 'd option"
  pd_remove :: "'d \<Rightarrow> 'r rop list"

text \<open>
  What a driver fills in of a \<open>struct miscdevice\<close>; \<open>mi_parent\<close>: whether it names a parent device. The
  device's directory under \<open>/sys/class/misc\<close> has a link \<open>device\<close> to its parent only then.
\<close>

record miscdevice =
  mi_minor :: int
  mi_name :: string
  mi_parent :: bool

definition device_attribute :: "miscdevice \<Rightarrow> string \<Rightarrow> string option" where
  "device_attribute m attr =
     (if mi_parent m then Some (''/sys/class/misc/'' @ mi_name m @ ''/device/'' @ attr) else None)"

text \<open>An identifier table ends with an entry of zeros.\<close>

definition pci_matches :: "(u16 \<times> u16) list \<Rightarrow> u16 \<times> u16 \<Rightarrow> bool" where
  "pci_matches tbl dev \<longleftrightarrow> dev \<in> set (takeWhile (\<lambda>i. i \<noteq> (0, 0)) tbl)"

text \<open>
  The code of a module. \<open>md_node\<close> is the resource of the registered device node, \<open>md_line\<close> that of
  the interrupt; \<open>md_answers\<close> are the answers of the kernel that its services document, \<open>md_moves\<close> is
  what the hardware and stores through mappings do to the state.
\<close>

record ('d, 'u, 'o, 'e, 'r) module_code =
  md_pci :: "('d, 'e, 'r) pci_driver"
  md_fops :: "('d, 'u, 'o) file_ops"
  md_handler :: "'d \<Rightarrow> 'd"
  md_node :: 'r
  md_line :: 'r
  md_answers :: "'e \<Rightarrow> bool"
  md_moves :: "'d \<Rightarrow> 'd \<Rightarrow> bool"

section \<open>What the kernel calls\<close>

text \<open>A 32-bit caller reaches \<open>compat_ioctl\<close> or is answered \<open>ENOTTY\<close>.\<close>

definition file_ioctl ::
    "('d, 'u, 'o, 'e, 'r) module_code \<Rightarrow> bool \<Rightarrow> 'u \<Rightarrow> u32 \<Rightarrow> 'd \<Rightarrow> (ret \<times> 'o option) \<times> 'd" where
  "file_ioctl md c32 u cmd d =
     (case (if c32 then fo_compat (md_fops md) else Some (fo_ioctl (md_fops md))) of
        None \<Rightarrow> ((Inl ENOTTY, None), d)
      | Some io \<Rightarrow> (let (ret, out, d) = io u cmd d in ((ret, Some out), d)))"

definition file_mmap ::
    "('d, 'u, 'o, 'e, 'r) module_code \<Rightarrow> (u64 \<Rightarrow> u64 \<Rightarrow> u64 \<Rightarrow> ret) \<Rightarrow> u64 \<Rightarrow> u64 \<Rightarrow> u64 \<Rightarrow> ret" where
  "file_mmap md remap pfn vm_start vm_end =
     (case fo_mmap (md_fops md) of None \<Rightarrow> Inl ENODEV | Some mm \<Rightarrow> mm remap pfn vm_start vm_end)"

text \<open>Without a poll operation a file is always readable and writable.\<close>

definition file_poll :: "('d, 'u, 'o, 'e, 'r) module_code \<Rightarrow> 'd \<Rightarrow> u32" where
  "file_poll md d = (case fo_poll (md_fops md) of None \<Rightarrow> 0x145 | Some po \<Rightarrow> po d)"

text \<open>
  A file lives while its descriptor is open or it is mapped. \<open>kn_dev\<close> is the address of the structure
  the last successful probe made and handed to \<open>pci_set_drvdata\<close>, \<open>request_irq\<close> and \<open>misc_register\<close>;
  \<open>kn_stale\<close> counts the operations on a structure that has been freed.
\<close>

record cfile =
  f_private :: private_data
  f_fd :: bool
  f_maps :: nat

record ('d, 'r) kernel =
  kn_module :: bool
  kn_heap :: "nat \<Rightarrow> 'd option"
  kn_dev :: "nat option"
  kn_held :: "'r set"
  kn_files :: "nat \<Rightarrow> cfile option"
  kn_stale :: nat

fun after :: "'r set \<Rightarrow> 'r rop list \<Rightarrow> 'r set" where
  "after h [] = h"
| "after h (Acquire r # l) = after (insert r h) l"
| "after h (Release r # l) = after (h - {r}) l"

lemma after_append: "after h (l @ m) = after (after h l) m"
  by (induction h l rule: after.induct) simp_all

definition on_device ::
    "('d, 'u, 'o, 'e, 'r) module_code \<Rightarrow> nat \<Rightarrow> ('d \<Rightarrow> 'v \<times> 'd) \<Rightarrow> ('d, 'r) kernel \<Rightarrow> 'v option \<times> ('d, 'r) kernel" where
  "on_device md f g s =
     (case kn_files s f of
        None \<Rightarrow> (None, s)
      | Some x \<Rightarrow>
          if \<not> f_fd x then (None, s)
          else (case fo_device (md_fops md) (f_private x) of
                  None \<Rightarrow> (None, s\<lparr>kn_stale := Suc (kn_stale s)\<rparr>)
                | Some a \<Rightarrow>
                    (case kn_heap s a of
                       None \<Rightarrow> (None, s\<lparr>kn_stale := Suc (kn_stale s)\<rparr>)
                     | Some d \<Rightarrow> (let (v, d) = g d in (Some v, s\<lparr>kn_heap := (kn_heap s)(a \<mapsto> d)\<rparr>)))))"

definition removed :: "('d, 'u, 'o, 'e, 'r) module_code \<Rightarrow> ('d, 'r) kernel \<Rightarrow> ('d, 'r) kernel" where
  "removed md s =
     (case kn_dev s of
        None \<Rightarrow> s
      | Some a \<Rightarrow>
          (case kn_heap s a of
             None \<Rightarrow> s\<lparr>kn_stale := Suc (kn_stale s)\<rparr>
           | Some d \<Rightarrow> s\<lparr>kn_held := after (kn_held s) (pd_remove (md_pci md) d),
                        kn_heap := (kn_heap s)(a := None), kn_dev := None\<rparr>))"

text \<open>The file after its descriptor is closed or one of its mappings is gone; \<open>None\<close> when it is freed.\<close>

definition live_file :: "cfile \<Rightarrow> cfile option" where
  "live_file x = (if f_fd x \<or> f_maps x > 0 then Some x else None)"

section \<open>Steps\<close>

text \<open>
  \<open>hp\<close>: the device may be taken away while files are open, by unplugging it or through the
  \<open>unbind\<close> file of the driver. Unloading the module is refused while a file is open when the
  operations name the module as their owner.
\<close>

inductive kernel_step ::
    "('d, 'u, 'o, 'e, 'r) module_code \<Rightarrow> bool \<Rightarrow> ('d, 'r) kernel \<Rightarrow> ('d, 'r) kernel \<Rightarrow> bool"
  for md :: "('d, 'u, 'o, 'e, 'r) module_code" and hp :: bool where
  loaded: "\<not> kn_module s \<Longrightarrow> kernel_step md hp s (s\<lparr>kn_module := True\<rparr>)"
| probed: "kn_module s \<Longrightarrow> kn_dev s = None \<Longrightarrow> pci_matches (pd_id_table (md_pci md)) dev \<Longrightarrow> md_answers md env \<Longrightarrow>
    kn_heap s a = None \<Longrightarrow> pd_probe (md_pci md) env = (r, l, Some d) \<Longrightarrow>
    kernel_step md hp s
      (s\<lparr>kn_heap := (kn_heap s)(a \<mapsto> d), kn_dev := Some a, kn_held := after (kn_held s) l\<rparr>)"
| probe_failed: "kn_module s \<Longrightarrow> kn_dev s = None \<Longrightarrow> pci_matches (pd_id_table (md_pci md)) dev \<Longrightarrow>
    md_answers md env \<Longrightarrow> pd_probe (md_pci md) env = (r, l, None) \<Longrightarrow>
    kernel_step md hp s (s\<lparr>kn_held := after (kn_held s) l\<rparr>)"
| unbound: "hp \<or> kn_files s = (\<lambda>_. None) \<Longrightarrow> kernel_step md hp s (removed md s)"
| unloaded: "kn_module s \<Longrightarrow> (if fo_owner (md_fops md) then kn_files s = (\<lambda>_. None) else True) \<Longrightarrow>
    kernel_step md hp s ((removed md s)\<lparr>kn_module := False\<rparr>)"
| opened: "kn_files s f = None \<Longrightarrow> md_node md \<in> kn_held s \<Longrightarrow> kn_dev s = Some a \<Longrightarrow> kn_heap s a = Some d \<Longrightarrow>
    fo_open (md_fops md) (PrivMisc a) d = (p, d') \<Longrightarrow>
    kernel_step md hp s (s\<lparr>kn_heap := (kn_heap s)(a \<mapsto> d'),
      kn_files := (kn_files s)(f \<mapsto> \<lparr>f_private = p, f_fd = True, f_maps = 0\<rparr>)\<rparr>)"
| controlled: "kernel_step md hp s (snd (on_device md f (file_ioctl md c32 u cmd) s))"
| polled: "kernel_step md hp s (snd (on_device md f (\<lambda>d. (file_poll md d, d)) s))"
| mapped: "kn_files s f = Some x \<Longrightarrow>
    on_device md f (\<lambda>d. (file_mmap md remap pfn vm_start vm_end, d)) s = (Some (Inr ()), s') \<Longrightarrow>
    kernel_step md hp s (s'\<lparr>kn_files := (kn_files s')(f \<mapsto> x\<lparr>f_maps := Suc (f_maps x)\<rparr>)\<rparr>)"
| closed: "kn_files s f = Some x \<Longrightarrow> f_fd x \<Longrightarrow>
    kernel_step md hp s (s\<lparr>kn_files := (kn_files s)(f := live_file (x\<lparr>f_fd := False\<rparr>))\<rparr>)"
| unmapped: "kn_files s f = Some x \<Longrightarrow> f_maps x = Suc n \<Longrightarrow>
    kernel_step md hp s (s\<lparr>kn_files := (kn_files s)(f := live_file (x\<lparr>f_maps := n\<rparr>))\<rparr>)"
| interrupt: "md_line md \<in> kn_held s \<Longrightarrow> kn_dev s = Some a \<Longrightarrow> kn_heap s a = Some d \<Longrightarrow>
    kernel_step md hp s (s\<lparr>kn_heap := (kn_heap s)(a \<mapsto> md_handler md d)\<rparr>)"
| moved: "kn_dev s = Some a \<Longrightarrow> kn_heap s a = Some d \<Longrightarrow> md_moves md d d' \<Longrightarrow>
    kernel_step md hp s (s\<lparr>kn_heap := (kn_heap s)(a \<mapsto> d')\<rparr>)"

definition kernel_init :: "('d, 'r) kernel \<Rightarrow> bool" where
  "kernel_init s \<longleftrightarrow> \<not> kn_module s \<and> kn_heap s = (\<lambda>_. None) \<and> kn_dev s = None \<and> kn_held s = {} \<and>
     kn_files s = (\<lambda>_. None) \<and> kn_stale s = 0"

definition clean :: "('d, 'u, 'o, 'e, 'r) module_code \<Rightarrow> 'r set \<Rightarrow> bool" where
  "clean md h \<longleftrightarrow> md_node md \<notin> h \<and> md_line md \<notin> h"

section \<open>No operation on a structure that is gone\<close>

text \<open>
  Unless devices are taken away, in every reachable state: nothing stale was used, the only live
  structure is the bound device's, which is in order, and every file leads to it. \<open>dev_ok\<close> is the
  driver's: what is held and the structure belong together.
\<close>

definition kernel_ok ::
    "('d, 'u, 'o, 'e, 'r) module_code \<Rightarrow> ('r set \<Rightarrow> 'd \<Rightarrow> bool) \<Rightarrow> ('d, 'r) kernel \<Rightarrow> bool" where
  "kernel_ok md dev_ok s \<longleftrightarrow>
     kn_stale s = 0 \<and>
     (case kn_dev s of
        None \<Rightarrow> kn_heap s = (\<lambda>_. None) \<and> kn_files s = (\<lambda>_. None) \<and> clean md (kn_held s)
      | Some a \<Rightarrow> kn_module s \<and> (\<exists>d. kn_heap s = [a \<mapsto> d] \<and> dev_ok (kn_held s) d) \<and>
          (\<forall>f x. kn_files s f = Some x \<longrightarrow> fo_device (md_fops md) (f_private x) = Some a))"

lemma kernel_okE:
  assumes "kernel_ok md dev_ok s"
  obtains (idle) "kn_dev s = None" "kn_heap s = (\<lambda>_. None)" "kn_files s = (\<lambda>_. None)" "clean md (kn_held s)"
      "kn_stale s = 0"
    | (bound) a d where "kn_dev s = Some a" "kn_module s" "kn_heap s = [a \<mapsto> d]" "dev_ok (kn_held s) d" "kn_stale s = 0"
      "\<And>f x. kn_files s f = Some x \<Longrightarrow> fo_device (md_fops md) (f_private x) = Some a"
  using assms unfolding kernel_ok_def by (cases "kn_dev s") auto

lemma kernel_ok_bound:
  "kn_dev s = Some a \<Longrightarrow> kn_module s \<Longrightarrow> kn_heap s = [a \<mapsto> d] \<Longrightarrow> dev_ok (kn_held s) d \<Longrightarrow> kn_stale s = 0 \<Longrightarrow>
    (\<And>f x. kn_files s f = Some x \<Longrightarrow> fo_device (md_fops md) (f_private x) = Some a) \<Longrightarrow> kernel_ok md dev_ok s"
  by (auto simp: kernel_ok_def)

lemma kernel_ok_idle:
  "kn_dev s = None \<Longrightarrow> kn_heap s = (\<lambda>_. None) \<Longrightarrow> kn_files s = (\<lambda>_. None) \<Longrightarrow> clean md (kn_held s) \<Longrightarrow> kn_stale s = 0 \<Longrightarrow>
    kernel_ok md dev_ok s"
  by (simp add: kernel_ok_def)

text \<open>
  The contract of a driver. Its module owns its files; a probe that fails leaves no node and no
  interrupt, one that succeeds a structure in order; a remove takes the node and the interrupt back;
  and every operation keeps the structure in order and finds it from the file.
\<close>

locale char_driver =
  fixes md :: "('d, 'u, 'o, 'e, 'r) module_code"
    and dev_ok :: "'r set \<Rightarrow> 'd \<Rightarrow> bool"
  assumes owned_files: "fo_owner (md_fops md)"
    and probe_ok: "md_answers md env \<Longrightarrow> clean md h \<Longrightarrow> pd_probe (md_pci md) env = (r, l, Some d) \<Longrightarrow> dev_ok (after h l) d"
    and probe_clean: "md_answers md env \<Longrightarrow> clean md h \<Longrightarrow> pd_probe (md_pci md) env = (r, l, None) \<Longrightarrow> clean md (after h l)"
    and remove_clean: "dev_ok h d \<Longrightarrow> clean md (after h (pd_remove (md_pci md) d))"
    and open_ok: "dev_ok h d \<Longrightarrow> fo_open (md_fops md) (PrivMisc a) d = (p, d') \<Longrightarrow>
      dev_ok h d' \<and> fo_device (md_fops md) p = Some a"
    and ioctl_ok: "dev_ok h d \<Longrightarrow> dev_ok h (snd (file_ioctl md c32 u cmd d))"
    and handler_ok: "dev_ok h d \<Longrightarrow> dev_ok h (md_handler md d)"
    and moves_ok: "dev_ok h d \<Longrightarrow> md_moves md d d' \<Longrightarrow> dev_ok h d'"
begin

lemma ok_init: "kernel_init s \<Longrightarrow> kernel_ok md dev_ok s"
  by (rule kernel_ok_idle) (simp_all add: kernel_init_def clean_def)

lemma ok_on_device:
  assumes "kernel_ok md dev_ok s" and "\<And>h d. dev_ok h d \<Longrightarrow> dev_ok h (snd (g d))"
  shows "kernel_ok md dev_ok (snd (on_device md f g s))"
  using assms(1)
proof (cases rule: kernel_okE)
  case idle
  then show ?thesis using assms(1) by (simp add: on_device_def)
next
  case (bound a d)
  have "on_device md f g s = (None, s) \<or>
      snd (on_device md f g s) = s\<lparr>kn_heap := (kn_heap s)(a \<mapsto> snd (g d))\<rparr>"
    using bound by (auto simp: on_device_def split: option.split prod.split)
  then show ?thesis
  proof
    assume "snd (on_device md f g s) = s\<lparr>kn_heap := (kn_heap s)(a \<mapsto> snd (g d))\<rparr>"
    then show ?thesis using bound assms(2) by (intro kernel_ok_bound[where a = a and d = "snd (g d)"]) simp_all
  qed (use assms(1) in simp)
qed

lemma ok_removed:
  assumes "kernel_ok md dev_ok s" and "kn_files s = (\<lambda>_. None)"
  shows "kernel_ok md dev_ok (removed md s)" "kn_dev (removed md s) = None"
  using assms(1)
  by (cases rule: kernel_okE; use assms in \<open>auto simp: removed_def remove_clean intro!: kernel_ok_idle\<close>)+

text \<open>A change of one file that keeps its way to the device.\<close>

lemma ok_files:
  assumes "kernel_ok md dev_ok s" and "kn_files s f = Some x"
    and "y = None \<or> (\<exists>z. y = Some z \<and> f_private z = f_private x)"
  shows "kernel_ok md dev_ok (s\<lparr>kn_files := (kn_files s)(f := y)\<rparr>)"
  using assms(1)
proof (cases rule: kernel_okE)
  case idle
  then show ?thesis using assms(2) by simp
next
  case (bound a d)
  then show ?thesis using assms(2,3) by (intro kernel_ok_bound[where a = a and d = d]) (auto split: if_splits)
qed

lemma ok_step:
  assumes "kernel_step md False s s'" and ok: "kernel_ok md dev_ok s"
  shows "kernel_ok md dev_ok s'"
  using assms(1)
proof cases
  case loaded
  then show ?thesis using ok by (auto simp: kernel_ok_def split: option.splits)
next
  case (probed dev env a r l d)
  show ?thesis using ok
    by (cases rule: kernel_okE) (use probed probe_ok in \<open>auto intro!: kernel_ok_bound\<close>)
next
  case (probe_failed dev env r l)
  show ?thesis using ok
    by (cases rule: kernel_okE) (use probe_failed probe_clean in \<open>auto intro!: kernel_ok_idle\<close>)
next
  case unbound
  then show ?thesis using ok_removed[OF ok] by simp
next
  case unloaded
  then have f: "kn_files s = (\<lambda>_. None)" using owned_files by simp
  from ok_removed(1)[OF ok f] show ?thesis
    using ok_removed(2)[OF ok f] unloaded by (auto simp: kernel_ok_def)
next
  case (opened f a d p d')
  show ?thesis using ok
  proof (cases rule: kernel_okE)
    case (bound b e)
    then show ?thesis using opened open_ok[of "kn_held s" d a p d']
      by (auto intro!: kernel_ok_bound split: if_splits)
  qed (use opened in simp)
next
  case controlled
  then show ?thesis by (simp add: ok_on_device[OF ok] ioctl_ok)
next
  case polled
  then show ?thesis by (simp add: ok_on_device[OF ok])
next
  case (mapped f x remap pfn vm_start vm_end t)
  have t: "t = snd (on_device md f (\<lambda>d. (file_mmap md remap pfn vm_start vm_end, d)) s)" using mapped by simp
  have fs: "kn_files t = kn_files s" unfolding t by (simp add: on_device_def split: option.split prod.split)
  have "kernel_ok md dev_ok t" unfolding t by (rule ok_on_device[OF ok]) simp
  then have "kernel_ok md dev_ok (t\<lparr>kn_files := (kn_files t)(f \<mapsto> x\<lparr>f_maps := Suc (f_maps x)\<rparr>)\<rparr>)"
    by (rule ok_files[where x = x]) (use mapped fs in simp_all)
  then show ?thesis using mapped by simp
next
  case closed
  then show ?thesis by (auto intro!: ok_files[OF ok] simp: live_file_def)
next
  case unmapped
  then show ?thesis by (auto intro!: ok_files[OF ok] simp: live_file_def)
next
  case (interrupt a d)
  show ?thesis using ok
    by (cases rule: kernel_okE) (use interrupt handler_ok in \<open>auto intro!: kernel_ok_bound split: if_splits\<close>)
next
  case (moved a d d')
  show ?thesis using ok
    by (cases rule: kernel_okE) (use moved moves_ok in \<open>auto intro!: kernel_ok_bound split: if_splits\<close>)
qed

sublocale life: inductive_invariant kernel_init "kernel_step md False" "kernel_ok md dev_ok"
  by unfold_locales (auto intro: ok_init ok_step)

text \<open>Taking the device away while a file is open: every later operation on the file is a stale one.\<close>

lemma unbind_stale:
  assumes "reach kernel_init (kernel_step md False) s" and "kn_files s f = Some x" and "f_fd x"
  shows "kernel_step md True s (removed md s) \<and> kn_files (removed md s) f = Some x \<and>
    (\<exists>h d. dev_ok h d \<and> kn_held (removed md s) = after h (pd_remove (md_pci md) d)) \<and>
    on_device md f g (removed md s) = (None, (removed md s)\<lparr>kn_stale := 1\<rparr>)"
  using life.reach_inv[OF assms(1)]
proof (cases rule: kernel_okE)
  case (bound a d)
  have "kernel_step md True s (removed md s)" by (rule kernel_step.unbound) simp
  with bound show ?thesis using assms(2,3) by (auto simp: removed_def on_device_def)
qed (use assms(2) in simp)

text \<open>What an open file leads to.\<close>

lemma file_live:
  assumes "reach kernel_init (kernel_step md False) s" and "kn_files s f = Some x"
  shows "kn_module s \<and> (\<exists>a d. fo_device (md_fops md) (f_private x) = Some a \<and> kn_dev s = Some a \<and>
    kn_heap s = [a \<mapsto> d] \<and> dev_ok (kn_held s) d)"
  using life.reach_inv[OF assms(1)] by (cases rule: kernel_okE) (use assms(2) in auto)

lemma never_stale: "reach kernel_init (kernel_step md False) s \<Longrightarrow> kn_stale s = 0"
  by (drule life.reach_inv) (simp add: kernel_ok_def)

end

end
