(* ===== verification/Edu_Module.thy ===== *)
theory Edu_Module
  imports Char_Dev Edu_System
begin

text \<open>
  The module of \<open>edu_pci.c\<close> in the kernel: its file operations, its identifier table and its PCI
  driver, from loading to unloading, with files and mappings of the device node.
\<close>

section \<open>Tables\<close>

text \<open>The device structure with its \<open>dbgfs_dir\<close>. \<open>edu_open\<close> leaves \<open>private_data\<close> as it is.\<close>

type_synonym 'h edu_bound = "'h edu_dev \<times> bool"

definition on_edu :: "('h edu_dev \<Rightarrow> 'v \<times> 'w \<times> 'h edu_dev) \<Rightarrow> 'h edu_bound \<Rightarrow> 'v \<times> 'w \<times> 'h edu_bound" where
  "on_edu g d = (case d of (e, dbgfs) \<Rightarrow> (case g e of (v, w, e) \<Rightarrow> (v, w, (e, dbgfs))))"

definition edu_fops :: "'h mmio \<Rightarrow> ('h edu_bound, 'h edu_user, edu_out) file_ops" where
  "edu_fops D = \<lparr>fo_owner = True,
     fo_open = (\<lambda>p d. (p, map_prod edu_open id d)),
     fo_device = container_of,
     fo_ioctl = (\<lambda>u cmd. on_edu (edu_ioctl D u cmd)),
     fo_compat = Some (\<lambda>u cmd. on_edu (edu_ioctl D u cmd)),
     fo_mmap = Some edu_mmap,
     fo_poll = Some (\<lambda>d. edu_poll (fst d))\<rparr>"

definition edu_tbl :: "(u16 \<times> u16) list" where
  "edu_tbl = [(EDU_VENDOR_ID, EDU_DEVICE_ID), (0, 0)]"

definition edu_driver :: "('h edu_bound, edu_probe_env \<times> 'h \<times> u64, edu_res) pci_driver" where
  "edu_driver = \<lparr>pd_name = ''edu_pci'', pd_id_table = edu_tbl,
     pd_probe = (\<lambda>(env, h, handle). edu_probe env h handle),
     pd_remove = (\<lambda>(e, dbgfs). edu_remove dbgfs e)\<rparr>"

text \<open>Writes to the sysfs knob and the debugfs file, the device and stores through a mapping.\<close>

fun outside :: "'h edu_event \<Rightarrow> bool" where
  "outside (EvInject p) = True"
| "outside EvStatsReset = True"
| "outside (EvDevice h) = True"
| "outside (EvStore off bs) = True"
| "outside _ = False"

definition edu_module ::
    "'h mmio \<Rightarrow> ('h edu_bound, 'h edu_user, edu_out, edu_probe_env \<times> 'h \<times> u64, edu_res) module_code" where
  "edu_module D = \<lparr>md_pci = edu_driver, md_fops = edu_fops D,
     md_handler = map_prod (\<lambda>e. snd (edu_irq_handler D e)) id,
     md_node = R_misc, md_line = R_irq, md_answers = (\<lambda>_. True),
     md_moves = (\<lambda>d d'. \<exists>ev. outside ev \<and> d' = map_prod (edu_do D ev) id d)\<rparr>"

lemmas edu_module_defs = edu_module_def edu_fops_def edu_driver_def

text \<open>
  The miscdevice \<open>edu_probe\<close> registers: 255 is \<open>MISC_DYNAMIC_MINOR\<close>. Its parent is not set, so the
  attribute of the PCI device is not reachable through its directory.
\<close>

definition edu_miscdev :: miscdevice where
  "edu_miscdev = \<lparr>mi_minor = 255, mi_name = ''edu_pci'', mi_parent = False\<rparr>"

section \<open>The contract holds\<close>

definition edu_bound_ok :: "edu_res set \<Rightarrow> 'h edu_bound \<Rightarrow> bool" where
  "edu_bound_ok h d \<longleftrightarrow> ring_inv (fst d) \<and> set fops_needs \<subseteq> h"

lemma on_edu_ok:
  "(\<And>e. ring_inv e \<Longrightarrow> ring_inv (snd (snd (g e)))) \<Longrightarrow> edu_bound_ok h d \<Longrightarrow> edu_bound_ok h (snd (snd (on_edu g d)))"
  by (cases d; cases "g (fst d)") (force simp: edu_bound_ok_def on_edu_def)

lemma after_edu_remove: "after h (edu_remove dbgfs e) \<inter> {R_misc, R_irq, R_mem, R_dma} = {}"
  by (auto simp: edu_remove_def edu_debugfs_remove_def split: option.split)

lemma edu_probe_none:
  assumes "edu_probe env h handle = (r, l, None)"
  shows "fst (edu_probe env h handle) \<noteq> ok"
  using edu_probe_ok[of env h handle] assms by auto

lemma edu_probe_some:
  assumes "edu_probe env h handle = (r, l, Some d)"
  shows "fst (edu_probe env h handle) = ok"
  using assms by (auto simp: edu_probe_defs split: if_splits)

text \<open>A failing probe releases the node and the interrupt whenever it acquired them.\<close>

lemma edu_probe_fail_clean:
  assumes "edu_probe env h handle = (r, l, None)" and "R_misc \<notin> held" "R_irq \<notin> held"
  shows "R_misc \<notin> after held l \<and> R_irq \<notin> after held l"
  using assms by (auto simp: edu_probe_defs split: if_splits)

interpretation edu_life: char_driver "edu_module D" edu_bound_ok for D
proof
  show "fo_owner (md_fops (edu_module D))" by (simp add: edu_module_defs)
  show "edu_bound_ok (after h l) d" if "pd_probe (md_pci (edu_module D)) env = (r, l, Some d)" for env h r l d
  proof -
    obtain pe h0 hd where env: "env = (pe, h0, hd)" by (cases env)
    then have p: "edu_probe pe h0 hd = (r, l, Some d)" using that by (simp add: edu_module_defs)
    show ?thesis using edu_probe_ok[OF edu_probe_some[OF p]] p
      by (auto simp: edu_bound_ok_def ring_inv_fresh fops_needs_def isr_needs_def)
  qed
  show "clean (edu_module D) (after h l)"
    if "clean (edu_module D) h" "pd_probe (md_pci (edu_module D)) env = (r, l, None)" for env h r l
    using that edu_probe_fail_clean[of "fst env" "fst (snd env)" "snd (snd env)" r l h]
    by (cases env) (auto simp: clean_def edu_module_defs)
  show "clean (edu_module D) (after h (pd_remove (md_pci (edu_module D)) d))" for h d
    using after_edu_remove[of h "snd d" "fst d"] by (cases d) (auto simp: clean_def edu_module_defs)
  show "edu_bound_ok h d' \<and> fo_device (md_fops (edu_module D)) p = Some a"
    if "edu_bound_ok h d" "fo_open (md_fops (edu_module D)) (PrivMisc a) d = (p, d')" for h d a p d'
    using that by (auto simp: edu_module_defs edu_bound_ok_def ring_inv_open container_of_def)
  show "edu_bound_ok h (snd (file_ioctl (edu_module D) c32 u cmd d))" if "edu_bound_ok h d" for h d c32 u cmd
    using on_edu_ok[where g = "edu_ioctl D u cmd", OF ring_inv_ioctl that] by (simp add: file_ioctl_def edu_module_defs split_def Let_def)
  show "edu_bound_ok h (md_handler (edu_module D) d)" if "edu_bound_ok h d" for h d
    using that by (simp add: edu_module_defs edu_bound_ok_def ring_inv_irq)
  show "edu_bound_ok h d'" if "edu_bound_ok h d" "md_moves (edu_module D) d d'" for h d d'
    using that by (auto simp: edu_module_defs edu_bound_ok_def ring_inv_event)
qed

section \<open>Files and the life of the device\<close>

text \<open>C12. As long as the device is not taken away under an open file: whatever is loaded, probed, opened,
  called, mapped, closed, interrupted and unloaded in whatever order, no operation ever runs on a
  device structure that has been freed; every file leads to the bound device, whose rings are in
  order and for which everything the handler and the operations need is held; and the module stays
  loaded while there is a file, a mapping of a closed one included.\<close>

theorem edu_files_stay_live:
  assumes "reach kernel_init (kernel_step (edu_module D) False) s"
  shows "kn_stale s = 0 \<and>
    (\<forall>f x. kn_files s f = Some x \<longrightarrow> kn_module s \<and>
      (\<exists>a e dbgfs. container_of (f_private x) = Some a \<and> kn_dev s = Some a \<and>
        kn_heap s = [a \<mapsto> (e, dbgfs)] \<and> ring_inv e \<and> set fops_needs \<subseteq> kn_held s))"
  using edu_life.never_stale[OF assms] edu_life.file_live[OF assms]
  by (auto simp: edu_bound_ok_def edu_module_defs)

definition wit_handed :: "edu_probe_env \<times> access list \<times> u64" where
  "wit_handed = (wit_env, [], 0x1000)"

definition wit_kernel :: "(access list edu_bound, edu_res) kernel" where
  "wit_kernel = \<lparr>kn_module = True, kn_heap = [7 \<mapsto> (edu_fresh [] 0x1000, True)], kn_dev = Some 7,
     kn_held = {R_mem, R_enable, R_regions, R_iomap, R_dma, R_vectors, R_irq, R_misc, R_debugfs, R_sysfs},
     kn_files = [3 \<mapsto> \<lparr>f_private = PrivMisc 7, f_fd = True, f_maps = 0\<rparr>], kn_stale = 0\<rparr>"

lemma wit_kernel_reach: "reach kernel_init (kernel_step (edu_module D) False) wit_kernel"
proof -
  let ?s0 = "\<lparr>kn_module = False, kn_heap = (\<lambda>_. None), kn_dev = None, kn_held = {}, kn_files = (\<lambda>_. None), kn_stale = 0\<rparr>
    :: (access list edu_bound, edu_res) kernel"
  let ?s1 = "?s0\<lparr>kn_module := True\<rparr>"
  let ?s2 = "wit_kernel\<lparr>kn_files := (\<lambda>_. None)\<rparr>"
  have 0: "reach kernel_init (kernel_step (edu_module D) False) ?s0" by (rule reach_init) (simp add: kernel_init_def)
  have "kernel_step (edu_module D) False ?s0 (?s0\<lparr>kn_module := True\<rparr>)" by (rule kernel_step.loaded) simp
  with 0 have 1: "reach kernel_init (kernel_step (edu_module D) False) ?s1" by (rule reach_step)
  have p: "pd_probe (md_pci (edu_module D)) wit_handed = (ok, [Acquire R_mem, Acquire R_enable, Acquire R_regions,
      Acquire R_iomap, Acquire R_dma, Acquire R_vectors, Acquire R_irq, Acquire R_misc, Acquire R_debugfs,
      Acquire R_sysfs], Some (edu_fresh [] 0x1000, True))"
    by (simp add: edu_module_defs wit_handed_def wit_env_def edu_probe_defs)
  have "kernel_step (edu_module D) False ?s1 (?s1\<lparr>kn_heap := (kn_heap ?s1)(7 \<mapsto> (edu_fresh [] 0x1000, True)),
      kn_dev := Some 7, kn_held := after (kn_held ?s1) [Acquire R_mem, Acquire R_enable, Acquire R_regions,
        Acquire R_iomap, Acquire R_dma, Acquire R_vectors, Acquire R_irq, Acquire R_misc, Acquire R_debugfs, Acquire R_sysfs]\<rparr>)"
    by (rule kernel_step.probed[OF _ _ _ _ _ p, where dev = "(EDU_VENDOR_ID, EDU_DEVICE_ID)"])
      (simp_all add: edu_module_defs edu_tbl_def pci_matches_def EDU_VENDOR_ID_def EDU_DEVICE_ID_def)
  also have "?s1\<lparr>kn_heap := (kn_heap ?s1)(7 \<mapsto> (edu_fresh [] 0x1000, True)),
      kn_dev := Some 7, kn_held := after (kn_held ?s1) [Acquire R_mem, Acquire R_enable, Acquire R_regions,
        Acquire R_iomap, Acquire R_dma, Acquire R_vectors, Acquire R_irq, Acquire R_misc, Acquire R_debugfs, Acquire R_sysfs]\<rparr> = ?s2"
    by (auto simp: wit_kernel_def)
  finally have 2: "reach kernel_init (kernel_step (edu_module D) False) ?s2" by (rule reach_step[OF 1])
  have "kernel_step (edu_module D) False ?s2 (?s2\<lparr>kn_heap := (kn_heap ?s2)(7 \<mapsto> (edu_open (edu_fresh [] 0x1000), True)),
      kn_files := (kn_files ?s2)(3 \<mapsto> \<lparr>f_private = PrivMisc 7, f_fd = True, f_maps = 0\<rparr>)\<rparr>)"
    by (rule kernel_step.opened[where d = "(edu_fresh [] 0x1000, True)"]) (simp_all add: edu_module_defs wit_kernel_def)
  moreover have "edu_open (edu_fresh [] 0x1000) = (edu_fresh [] 0x1000 :: access list edu_dev)"
    by (simp add: edu_open_def edu_fresh_def)
  ultimately have "kernel_step (edu_module D) False ?s2 wit_kernel" by (simp add: wit_kernel_def)
  then show ?thesis by (rule reach_step[OF 2])
qed

theorem edu_files_stay_live_witness:
  "kn_stale wit_kernel = 0 \<and> container_of (PrivMisc 7) = kn_dev wit_kernel \<and> set fops_needs \<subseteq> kn_held wit_kernel"
proof -
  have "kn_files wit_kernel 3 = Some \<lparr>f_private = PrivMisc 7, f_fd = True, f_maps = 0\<rparr>" by (simp add: wit_kernel_def)
  with edu_files_stay_live[OF wit_kernel_reach] show ?thesis by fastforce
qed

text \<open>C13. \<open>edu_remove\<close> does not wait for open files: when the device is unplugged or unbound while a file
  is open, the structure and the slab are freed, the file stays, and every later ioctl or poll on it
  runs on freed memory, whatever the command; a mapping of the slab then maps freed pages.\<close>

theorem unbind_leaves_stale_file:
  assumes "reach kernel_init (kernel_step (edu_module D) False) s"
    and "kn_files s f = Some x" and "f_fd x"
  shows "\<exists>s'. kernel_step (edu_module D) True s s' \<and> kn_files s' f = Some x \<and> R_mem \<notin> kn_held s' \<and> R_dma \<notin> kn_held s' \<and>
    on_device (edu_module D) f (file_ioctl (edu_module D) c32 u cmd) s' = (None, s'\<lparr>kn_stale := 1\<rparr>) \<and>
    on_device (edu_module D) f (\<lambda>d. (file_poll (edu_module D) d, d)) s' = (None, s'\<lparr>kn_stale := 1\<rparr>)"
proof -
  let ?s = "removed (edu_module D) s"
  note S = edu_life.unbind_stale[OF assms]
  note ctl = S[where g = "file_ioctl (edu_module D) c32 u cmd", THEN conjunct2, THEN conjunct2, THEN conjunct2]
    and pol = S[where g = "\<lambda>d. (file_poll (edu_module D) d, d)", THEN conjunct2, THEN conjunct2, THEN conjunct2]
  obtain h d where "kn_held ?s = after h (pd_remove (md_pci (edu_module D)) d)"
    using S[THEN conjunct2, THEN conjunct2, THEN conjunct1] by blast
  then have "R_mem \<notin> kn_held ?s \<and> R_dma \<notin> kn_held ?s"
    using after_edu_remove[of h "snd d" "fst d"] by (cases d) (auto simp: edu_module_defs)
  then show ?thesis
    using ctl pol S[THEN conjunct1] S[THEN conjunct2, THEN conjunct1] by (intro exI[of _ ?s] conjI) simp_all
qed

theorem unbind_leaves_stale_file_witness:
  "\<exists>s'. kernel_step (edu_module (log_mmio (\<lambda>_. 0))) True wit_kernel s' \<and> R_mem \<notin> kn_held s' \<and>
    snd (on_device (edu_module (log_mmio (\<lambda>_. 0))) 3 (\<lambda>d. (file_poll (edu_module (log_mmio (\<lambda>_. 0))) d, d)) s') = s'\<lparr>kn_stale := 1\<rparr>"
proof -
  let ?D = "log_mmio (\<lambda>_. 0)"
  have "kn_files wit_kernel 3 = Some \<lparr>f_private = PrivMisc 7, f_fd = True, f_maps = 0\<rparr>" by (simp add: wit_kernel_def)
  from unbind_leaves_stale_file[OF wit_kernel_reach this, of ?D True wit_user 0] obtain s' where
    "kernel_step (edu_module ?D) True wit_kernel s'" "R_mem \<notin> kn_held s'"
    "on_device (edu_module ?D) 3 (\<lambda>d. (file_poll (edu_module ?D) d, d)) s' = (None, s'\<lparr>kn_stale := 1\<rparr>)"
    by auto
  then show ?thesis by (intro exI[of _ s']) simp
qed

end
