(* ===== verification/Proto_Module.thy ===== *)
theory Proto_Module
  imports Char_Dev Proto_Claims
begin

text \<open>
  The simulated and the ring driver as modules on hardware: their file operations, identifier tables
  and PCI drivers, and the contract of \<open>Char_Dev\<close>. The basic driver's file ends inside its table of
  file operations; its open function is here.
\<close>

section \<open>Opening\<close>

text \<open>\<open>proto_open\<close> of the three drivers: \<open>private_data\<close> becomes the structure that embeds the miscdevice.\<close>

definition base_proto_open :: "private_data \<Rightarrow> private_data" where
  "base_proto_open mdev = (case container_of mdev of Some a \<Rightarrow> PrivDev a | None \<Rightarrow> mdev)"

definition sim_proto_open :: "private_data \<Rightarrow> private_data" where
  "sim_proto_open mdev = (case container_of mdev of Some a \<Rightarrow> PrivDev a | None \<Rightarrow> mdev)"

definition ring_proto_open :: "private_data \<Rightarrow> private_data" where
  "ring_proto_open mdev = (case container_of mdev of Some a \<Rightarrow> PrivDev a | None \<Rightarrow> mdev)"

text \<open>The answer of \<open>misc_register\<close> and what it was given.\<close>

definition sim_register_misc :: "ret \<Rightarrow> ('h, 'x) sim_dev_scheme \<Rightarrow> ret \<times> miscdevice" where
  "sim_register_misc answer d = (answer, \<lparr>mi_minor = 255, mi_name = ''proto_pcie'', mi_parent = has_pdev d\<rparr>)"

definition ring_register_misc :: "ret \<Rightarrow> 'h ring_dev \<Rightarrow> ret \<times> miscdevice" where
  "ring_register_misc answer d = (answer, \<lparr>mi_minor = 255, mi_name = ''proto_pcie'', mi_parent = has_pdev d\<rparr>)"

section \<open>Tables\<close>

definition VENDOR_ID_PROTO :: u16 where "VENDOR_ID_PROTO = 0x1AF4"
definition DEVICE_ID_PROTO :: u16 where "DEVICE_ID_PROTO = 0x1100"

definition base_pcie_tbl :: "(u16 \<times> u16) list" where
  "base_pcie_tbl = [(VENDOR_ID_PROTO, DEVICE_ID_PROTO), (0, 0)]"

definition sim_pcie_tbl :: "(u16 \<times> u16) list" where
  "sim_pcie_tbl = [(VENDOR_ID_PROTO, DEVICE_ID_PROTO), (0, 0)]"

definition ring_pcie_tbl :: "(u16 \<times> u16) list" where
  "ring_pcie_tbl = [(VENDOR_ID_PROTO, DEVICE_ID_PROTO), (0, 0)]"

definition sim_fops :: "'h mmio \<Rightarrow> ('h sim_dev, proto_user, proto_pcie_ring_state proto_out) file_ops" where
  "sim_fops D = \<lparr>fo_owner = True, fo_open = (\<lambda>p d. (sim_proto_open p, d)), fo_device = as_structure,
     fo_ioctl = sim_proto_ioctl D, fo_compat = None, fo_mmap = None, fo_poll = None\<rparr>"

definition ring_fops :: "'h mmio \<Rightarrow> ('h ring_dev, proto_user, proto_pcie_ring_state proto_out) file_ops" where
  "ring_fops D = \<lparr>fo_owner = True, fo_open = (\<lambda>p d. (ring_proto_open p, d)), fo_device = as_structure,
     fo_ioctl = ring_proto_ioctl D, fo_compat = None, fo_mmap = None, fo_poll = None\<rparr>"

definition sim_pci_driver :: "('h sim_dev, pci_probe_env \<times> 'h, proto_res) pci_driver" where
  "sim_pci_driver = \<lparr>pd_name = ''proto_pcie'', pd_id_table = sim_pcie_tbl,
     pd_probe = (\<lambda>(env, h). sim_pci_probe env h), pd_remove = (\<lambda>d. sim_pci_remove (Some d))\<rparr>"

definition ring_pci_driver :: "('h ring_dev, pci_probe_env \<times> 'h, proto_res) pci_driver" where
  "ring_pci_driver = \<lparr>pd_name = ''proto_pcie'', pd_id_table = ring_pcie_tbl,
     pd_probe = (\<lambda>(env, h). ring_pci_probe env h), pd_remove = (\<lambda>d. ring_pci_remove (Some d))\<rparr>"

text \<open>An interrupt number of a vector that was allocated is positive; only the hardware moves by itself.\<close>

definition sim_module ::
    "'h mmio \<Rightarrow> ('h sim_dev, proto_user, proto_pcie_ring_state proto_out, pci_probe_env \<times> 'h, proto_res) module_code" where
  "sim_module D = \<lparr>md_pci = sim_pci_driver, md_fops = sim_fops D, md_handler = (\<lambda>d. snd (sim_proto_irq_handler D d)),
     md_node = P_misc, md_line = P_irq, md_answers = (\<lambda>(env, h). sint (pp_irq env) > 0),
     md_moves = (\<lambda>d d'. \<exists>h. d' = d\<lparr>p_bar0 := h\<rparr>)\<rparr>"

definition ring_module ::
    "'h mmio \<Rightarrow> ('h ring_dev, proto_user, proto_pcie_ring_state proto_out, pci_probe_env \<times> 'h, proto_res) module_code" where
  "ring_module D = \<lparr>md_pci = ring_pci_driver, md_fops = ring_fops D, md_handler = (\<lambda>d. snd (ring_irq_handler D d)),
     md_node = P_misc, md_line = P_irq, md_answers = (\<lambda>(env, h). sint (pp_irq env) > 0),
     md_moves = (\<lambda>d d'. \<exists>h. d' = d\<lparr>p_bar0 := h\<rparr>)\<rparr>"

lemmas sim_module_defs = sim_module_def sim_fops_def sim_pci_driver_def
lemmas ring_module_defs = ring_module_def ring_fops_def ring_pci_driver_def

section \<open>The contract holds\<close>

text \<open>The structure of a hardware device and what is held for it.\<close>

definition proto_bound_ok :: "proto_res set \<Rightarrow> ('h, 'x) sim_dev_scheme \<Rightarrow> bool" where
  "proto_bound_ok h d \<longleftrightarrow> hw_ready (irq_no d) d \<and> sint (irq_no d) > 0 \<and>
     {P_dev, P_iomap, P_dma 4096, P_vectors, P_irq, P_misc} \<subseteq> h"

lemma proto_bound_okD:
  "proto_bound_ok h d \<Longrightarrow> \<not> simulated d" "proto_bound_ok h d \<Longrightarrow> dma_buf d \<noteq> None"
  by (simp_all add: proto_bound_ok_def hw_ready_def)

lemma proto_bound_same:
  "proto_bound_ok h d \<Longrightarrow> (\<And>irq. hw_ready irq d \<Longrightarrow> hw_ready irq d') \<Longrightarrow> proto_bound_ok h d'"
  by (simp add: proto_bound_ok_def hw_ready_def)

lemma proto_bound_bar0: "proto_bound_ok h (d\<lparr>p_bar0 := x\<rparr>) = proto_bound_ok h d"
  by (simp add: proto_bound_ok_def hw_ready_def)

lemma base_reset_ready: "hw_ready irq d \<Longrightarrow> hw_ready irq (base_reset D d)"
  by (simp add: hw_ready_def base_reset_def proto_mmio split_def Let_def)

lemma base_ioctl_ready: "hw_ready irq d \<Longrightarrow> hw_ready irq (snd (snd (base_proto_ioctl D u cmd d)))"
  by (simp add: base_proto_ioctl_def reply_def base_reset_ready hw_ready_send split: option.split)

lemma ring_ioctl_ready:
  assumes "hw_ready irq d"
  shows "hw_ready irq (snd (snd (ring_proto_ioctl D u cmd d)))"
proof -
  have "\<not> simulated d" "dma_buf d \<noteq> None" using assms by (simp_all add: hw_ready_def)
  then show ?thesis using assms
    by (simp add: ring_proto_ioctl_def reply_def ring_reset_hw ring_hw_send_base base_reset_ready hw_ready_send
        split: option.split)
qed

lemma handler_ready: "hw_ready irq d \<Longrightarrow> hw_ready irq (snd (proto_irq_handler D d))"
  by (simp add: proto_irq_handler_def proto_mmio hw_ready_def split_def Let_def)

lemma sim_ioctl_bound: "proto_bound_ok h d \<Longrightarrow> proto_bound_ok h (snd (snd (sim_proto_ioctl D u cmd d)))"
  using proto_bound_okD(1)[of h d] by (simp add: sim_ioctl_hw) (erule proto_bound_same, rule base_ioctl_ready)

lemma ring_ioctl_bound: "proto_bound_ok h d \<Longrightarrow> proto_bound_ok h (snd (snd (ring_proto_ioctl D u cmd d)))"
  by (erule proto_bound_same, rule ring_ioctl_ready)

lemma handler_bound: "proto_bound_ok h d \<Longrightarrow> proto_bound_ok h (snd (proto_irq_handler D d))"
  by (erule proto_bound_same, rule handler_ready)

text \<open>A probe without a device has taken back the node and the interrupt if it ever had them.\<close>

lemma sim_probe_fail_clean:
  assumes "sim_pci_probe env h0 = (r, l, None)" and "sint (pp_irq env) > 0" and "P_misc \<notin> h" "P_irq \<notin> h"
  shows "P_misc \<notin> after h l \<and> P_irq \<notin> after h l"
  using assms by (auto simp: sim_pci_probe_def sim_destroy_device_def when_held_def dma_release_def sim_zeroed_def Let_def
      split: if_splits)

lemma ring_probe_fail_clean:
  assumes "ring_pci_probe env h0 = (r, l, None)" and "sint (pp_irq env) > 0" and "P_misc \<notin> h" "P_irq \<notin> h"
  shows "P_misc \<notin> after h l \<and> P_irq \<notin> after h l"
  using assms by (auto simp: ring_pci_probe_def ring_life_defs split: if_splits)

lemma after_hw_resources: "after h hw_resources = {P_dev, P_enable, P_regions, P_iomap, P_dma 4096, P_vectors, P_irq, P_misc} \<union> h"
  by (auto simp: hw_resources_def)

lemma after_sim_destroy:
  "proto_bound_ok h d \<Longrightarrow> after h (sim_destroy_device (Some d)) \<inter> {P_misc, P_irq, P_dev} = {}"
  by (auto simp: proto_bound_ok_def hw_ready_def sim_destroy_device_def dma_release_def when_held_def)

lemma after_ring_destroy:
  "proto_bound_ok h d \<Longrightarrow> after h (ring_destroy_device (Some d)) \<inter> {P_misc, P_irq, P_dev} = {}"
  by (auto simp: proto_bound_ok_def hw_ready_def ring_destroy_device_def dma_release_def when_held_def)

lemma sim_probe_ok_irq: "sim_pci_probe env h = (r, l, Some d) \<Longrightarrow> r = ok"
  by (auto simp: sim_pci_probe_def Let_def split: if_splits)

lemma ring_probe_ok_irq: "ring_pci_probe env h = (r, l, Some d) \<Longrightarrow> r = ok"
  by (auto simp: ring_pci_probe_def Let_def split: if_splits)

interpretation sim_life: char_driver "sim_module D" proto_bound_ok for D
proof
  show "fo_owner (md_fops (sim_module D))" by (simp add: sim_module_defs)
  show "proto_bound_ok (after h l) d"
    if "md_answers (sim_module D) env" "pd_probe (md_pci (sim_module D)) env = (r, l, Some d)" for env h r l d
    using that sim_probe_ok_irq[of "fst env" "snd env" r l d] sim_pci_probe_ok[of "fst env" "snd env" l d]
    by (cases env) (auto simp: sim_module_defs proto_bound_ok_def after_hw_resources hw_ready_def)
  show "clean (sim_module D) (after h l)"
    if "md_answers (sim_module D) env" "clean (sim_module D) h" "pd_probe (md_pci (sim_module D)) env = (r, l, None)"
    for env h r l
    using that sim_probe_fail_clean[of "fst env" "snd env" r l h] by (cases env) (auto simp: clean_def sim_module_defs)
  show "clean (sim_module D) (after h (pd_remove (md_pci (sim_module D)) d))" if "proto_bound_ok h d" for h d
    using after_sim_destroy[OF that]
    by (auto simp: clean_def sim_module_defs sim_pci_remove_def)
qed (auto simp: sim_module_defs sim_proto_open_def container_of_def as_structure_def file_ioctl_def sim_irq_hw handler_bound
    sim_ioctl_bound proto_bound_bar0 split_def Let_def)

interpretation ring_life: char_driver "ring_module D" proto_bound_ok for D
proof
  show "fo_owner (md_fops (ring_module D))" by (simp add: ring_module_defs)
  show "proto_bound_ok (after h l) d"
    if "md_answers (ring_module D) env" "pd_probe (md_pci (ring_module D)) env = (r, l, Some d)" for env h r l d
    using that ring_probe_ok_irq[of "fst env" "snd env" r l d] ring_pci_probe_ok[of "fst env" "snd env" l d]
    by (cases env) (auto simp: ring_module_defs proto_bound_ok_def after_hw_resources hw_ready_def)
  show "clean (ring_module D) (after h l)"
    if "md_answers (ring_module D) env" "clean (ring_module D) h" "pd_probe (md_pci (ring_module D)) env = (r, l, None)"
    for env h r l
    using that ring_probe_fail_clean[of "fst env" "snd env" r l h] by (cases env) (auto simp: clean_def ring_module_defs)
  show "clean (ring_module D) (after h (pd_remove (md_pci (ring_module D)) d))" if "proto_bound_ok h d" for h d
    using after_ring_destroy[OF that]
    by (auto simp: clean_def ring_module_defs ring_pci_remove_def)
qed (auto simp: ring_module_defs ring_proto_open_def container_of_def as_structure_def file_ioctl_def ring_irq_hw handler_bound
    ring_ioctl_bound proto_bound_bar0 split_def Let_def)

end
