(* ===== verification/Binding.thy ===== *)
theory Binding
  imports Proto_Module Edu_Module Qemu_Device User_Demo_Claims
begin

text \<open>
  What the files of the repository have to agree on for a driver to meet its device: the register
  maps, which three drivers and the device model each define for themselves, the PCI identifiers of
  the device model and of the identifier tables, and the path of the fault knob in the demo.
\<close>

section \<open>Register maps\<close>

type_synonym register_map = "(string \<times> u32) list"

definition base_registers :: register_map where
  "base_registers =
     [(''REG_CTRL'', REG_CTRL), (''REG_STATUS'', REG_STATUS), (''REG_DOORBELL'', REG_DOORBELL),
      (''REG_IRQ_ACK'', REG_IRQ_ACK), (''REG_DMA_LO'', REG_DMA_LO), (''REG_DMA_HI'', REG_DMA_HI),
      (''REG_DMA_LEN'', REG_DMA_LEN), (''REG_VERSION'', REG_VERSION),
      (''CTRL_RESET'', CTRL_RESET), (''CTRL_START'', CTRL_START),
      (''STATUS_READY'', STATUS_READY), (''STATUS_DONE'', STATUS_DONE), (''STATUS_ERROR'', STATUS_ERROR)]"

text \<open>\<open>BIT(n)\<close> of the kernel and \<open>1u << n\<close> of the device model.\<close>

abbreviation nth_bit :: "nat \<Rightarrow> u32" where
  "nth_bit n \<equiv> push_bit n 1"

definition sim_registers :: register_map where
  "sim_registers =
     [(''REG_CTRL'', 0x00), (''REG_STATUS'', 0x04), (''REG_DOORBELL'', 0x08), (''REG_IRQ_ACK'', 0x0C),
      (''REG_DMA_LO'', 0x10), (''REG_DMA_HI'', 0x14), (''REG_DMA_LEN'', 0x18), (''REG_VERSION'', 0x1C),
      (''CTRL_RESET'', nth_bit 0), (''CTRL_START'', nth_bit 1),
      (''STATUS_READY'', nth_bit 0), (''STATUS_DONE'', nth_bit 1), (''STATUS_ERROR'', nth_bit 2)]"

definition ring_registers :: register_map where
  "ring_registers =
     [(''REG_CTRL'', 0x00), (''REG_STATUS'', 0x04), (''REG_DOORBELL'', 0x08), (''REG_IRQ_ACK'', 0x0C),
      (''REG_DMA_LO'', 0x10), (''REG_DMA_HI'', 0x14), (''REG_DMA_LEN'', 0x18), (''REG_VERSION'', 0x1C),
      (''CTRL_RESET'', nth_bit 0), (''CTRL_START'', nth_bit 1),
      (''STATUS_READY'', nth_bit 0), (''STATUS_DONE'', nth_bit 1), (''STATUS_ERROR'', nth_bit 2)]"

definition qemu_registers :: register_map where
  "qemu_registers =
     [(''REG_CTRL'', 0x00), (''REG_STATUS'', 0x04), (''REG_DOORBELL'', 0x08), (''REG_IRQ_ACK'', 0x0C),
      (''REG_DMA_LO'', 0x10), (''REG_DMA_HI'', 0x14), (''REG_DMA_LEN'', 0x18), (''REG_VERSION'', 0x1C),
      (''CTRL_RESET'', nth_bit 0), (''CTRL_START'', nth_bit 1),
      (''STATUS_READY'', nth_bit 0), (''STATUS_DONE'', nth_bit 1), (''STATUS_ERROR'', nth_bit 2)]"

lemma registers_agree:
  "sim_registers = base_registers" "ring_registers = base_registers" "qemu_registers = base_registers"
  by (simp_all add: sim_registers_def ring_registers_def qemu_registers_def base_registers_def proto_regs proto_bits)

section \<open>The device model's class\<close>

text \<open>The fields \<open>class_init\<close> sets; \<open>others\<close> is QEMU's \<open>PCI_CLASS_OTHERS\<close>.\<close>

record pci_device_class =
  pk_realize :: proto_pcie_state
  pk_exit :: "proto_pcie_state \<Rightarrow> proto_pcie_state"
  pk_vendor_id :: u16
  pk_device_id :: u16
  pk_revision :: u8
  pk_class_id :: u16
  pk_desc :: string

definition proto_pcie_class_init :: "u16 \<Rightarrow> pci_device_class \<Rightarrow> pci_device_class" where
  "proto_pcie_class_init others k =
     k\<lparr>pk_realize := proto_pcie_realize, pk_exit := proto_pcie_exit, pk_vendor_id := 0x1AF4,
       pk_device_id := 0x1100, pk_revision := 0x01, pk_class_id := others,
       pk_desc := ''Prototype PCIe device (skeleton)''\<rparr>"

record memory_region_ops =
  mr_read :: "proto_pcie_state \<Rightarrow> u64 \<Rightarrow> u64"
  mr_write :: "nat \<Rightarrow> proto_pcie_state \<Rightarrow> u64 \<Rightarrow> u64 \<Rightarrow> proto_pcie_state"
  mr_min_access :: nat
  mr_max_access :: nat

definition proto_pcie_mmio_ops :: memory_region_ops where
  "proto_pcie_mmio_ops = \<lparr>mr_read = proto_pcie_mmio_read, mr_write = proto_pcie_mmio_write,
     mr_min_access = 4, mr_max_access = 4\<rparr>"

text \<open>
  The device model is a device of the three \<open>proto_pcie\<close> drivers and not of the EDU driver, and the
  32-bit accesses of the drivers are the ones it allows.
\<close>

lemma device_binds:
  fixes others :: u16 and k :: pci_device_class
  defines "dev \<equiv> (pk_vendor_id (proto_pcie_class_init others k), pk_device_id (proto_pcie_class_init others k))"
  shows "pci_matches base_pcie_tbl dev" "pci_matches sim_pcie_tbl dev" "pci_matches ring_pcie_tbl dev"
    "\<not> pci_matches edu_tbl dev" "mr_min_access proto_pcie_mmio_ops = 4 \<and> mr_max_access proto_pcie_mmio_ops = 4"
  by (simp_all add: dev_def proto_pcie_class_init_def pci_matches_def base_pcie_tbl_def sim_pcie_tbl_def
      ring_pcie_tbl_def edu_tbl_def VENDOR_ID_PROTO_def DEVICE_ID_PROTO_def EDU_VENDOR_ID_def EDU_DEVICE_ID_def
      proto_pcie_mmio_ops_def)

text \<open>A 32-bit caller is refused by the simulated and the ring driver, which have no \<open>compat_ioctl\<close>;
  the EDU driver serves it as it serves a 64-bit one.\<close>

lemma compat_callers:
  "file_ioctl (sim_module D) True u cmd d = ((Inl ENOTTY, None), d)"
  "file_ioctl (ring_module D) True u cmd r = ((Inl ENOTTY, None), r)"
  "file_ioctl (edu_module D) True v cmd e = file_ioctl (edu_module D) False v cmd e"
  by (simp_all add: file_ioctl_def sim_module_defs ring_module_defs edu_module_defs)

section \<open>The fault knob\<close>

text \<open>
  The demo writes to the attribute through the directory of the misc device. With the miscdevice the
  driver registers there is no such path, and the section prints that it is skipped.
\<close>

lemma demo_never_arms_fault:
  assumes "sy_open y \<longrightarrow> device_attribute edu_miscdev ''inject_fault'' = Some sysfs_path"
  shows "demo_fault_injection D y E1 E2 d w =
    ([Cout [Endl, Str ''=== Fault injection (Phase 7) ==='', Endl],
      Cout [Str (''  Skipping '' @ em_dash @ '' sysfs knob not accessible (need root + driver loaded)''), Endl]], Inr (), d, w)"
proof -
  have "\<not> sy_open y" using assms by (simp add: device_attribute_def edu_miscdev_def)
  then show ?thesis by (simp add: demo_fault_injection_def demo_then_def demo_print_def)
qed

lemma knob_with_parent: "device_attribute (edu_miscdev\<lparr>mi_parent := True\<rparr>) ''inject_fault'' = Some sysfs_path"
  by (simp add: device_attribute_def edu_miscdev_def sysfs_path_def)

end
