(* ===== verification/User_Python.thy ===== *)
theory User_Python
  imports User_Edu_C
begin

text \<open>
  The Python class \<open>EduDevice\<close> of \<open>python/edu_device.py\<close> over the C interface. An object is one
  attribute, the handle \<open>None\<close> or an address; \<open>None\<close> goes to C as the null pointer. Integers are
  converted as \<open>ctypes\<close> converts them, without a check of their range. A failing call raises
  \<open>OSError\<close>, a value of the sum's left side; a call that C++ leaves undefined is \<open>None\<close>.
\<close>

section \<open>Objects, conversions and exceptions\<close>

record py_device =
  py_handle :: "nat option"

datatype py_exn = OSError string

datatype py_value = PyNone | PyInt int | PyState edu_state_req | PyCompletion completion

type_synonym 'h py_result = "((py_exn + py_value) \<times> 'h cstate) option"

definition c_uint32 :: "int \<Rightarrow> u32" where
  "c_uint32 n = word_of_int n"

definition c_uint16 :: "int \<Rightarrow> u16" where
  "c_uint16 n = word_of_int n"

definition c_uint8 :: "int \<Rightarrow> u8" where
  "c_uint8 n = word_of_int n"

definition c_int :: "int \<Rightarrow> int" where
  "c_int n = sint (word_of_int n :: u32)"

text \<open>\<open>c_void_p\<close> of the attribute.\<close>

definition handle_arg :: "py_device \<Rightarrow> nat" where
  "handle_arg self = (case py_handle self of None \<Rightarrow> 0 | Some h \<Rightarrow> h)"

text \<open>\<open>str(n)\<close>\<close>

fun nat_str :: "nat \<Rightarrow> string" where
  "nat_str n = (if n < 10 then [char_of (48 + n)] else nat_str (n div 10) @ [char_of (48 + n mod 10)])"

declare nat_str.simps [simp del]

definition int_str :: "int \<Rightarrow> string" where
  "int_str n = (if n < 0 then ''-'' @ nat_str (nat (- n)) else nat_str (nat n))"

section \<open>Opening and closing\<close>

text \<open>The object exists, with no handle, also when \<open>__init__\<close> raises.\<close>

definition py_init ::
  "'h mmio \<Rightarrow> 'h env \<Rightarrow> nat option \<Rightarrow> string \<Rightarrow> 'h cstate \<Rightarrow> (py_exn + unit) \<times> py_device \<times> 'h cstate" where
  "py_init D E alloc path s =
     (let self = \<lparr>py_handle = None\<rparr>;
          (handle, s) = edu_open_c D E alloc (Some path) s
      in if handle = 0 then (Inl (OSError (''edu_open('' @ path @ '') failed'')), self, s)
         else (Inr (), self\<lparr>py_handle := Some handle\<rparr>, s))"

text \<open>\<open>if self._handle\<close> fails for \<open>None\<close> and for 0.\<close>

definition py_close :: "py_device \<Rightarrow> 'h cstate \<Rightarrow> (py_device \<times> 'h cstate) option" where
  "py_close self s =
     (if handle_arg self \<noteq> 0
      then (case edu_close_c (handle_arg self) s of
              None \<Rightarrow> None
            | Some s \<Rightarrow> Some (self\<lparr>py_handle := None\<rparr>, s))
      else Some (self, s))"

definition py_exit :: "py_device \<Rightarrow> 'h cstate \<Rightarrow> (py_device \<times> 'h cstate) option" where
  "py_exit self s = py_close self s"

definition py_del :: "py_device \<Rightarrow> 'h cstate \<Rightarrow> (py_device \<times> 'h cstate) option" where
  "py_del self s = py_close self s"

section \<open>Methods\<close>

text \<open>\<open>if \<dots> != 0: raise OSError(\<dots>)\<close>, then \<open>val\<close> of what the call stored.\<close>

definition raising :: "string \<Rightarrow> (c_out \<Rightarrow> py_value) \<Rightarrow> 'h c_result \<Rightarrow> 'h py_result" where
  "raising msg val r =
     (case r of None \<Rightarrow> None
      | Some ((ret, out), s) \<Rightarrow> Some (if ret \<noteq> 0 then Inl (OSError msg) else Inr (val out), s))"

text \<open>The buffers start as zeros and keep them where the call stores nothing.\<close>

definition buf_u32 :: "c_out \<Rightarrow> u32" where
  "buf_u32 out = (case out of OutU32 v \<Rightarrow> v | _ \<Rightarrow> 0)"

definition buf_state :: "c_out \<Rightarrow> edu_state_req" where
  "buf_state out = (case out of OutStateT r \<Rightarrow> r
     | _ \<Rightarrow> \<lparr>sr_last_irq = 0, sr_last_fact_in = 0, sr_last_fact_out = 0, sr_dma_ok = 0\<rparr>)"

definition buf_completion :: "c_out \<Rightarrow> completion" where
  "buf_completion out = (case out of OutCompletionT c \<Rightarrow> c | _ \<Rightarrow> \<lparr>co_tag = 0, co_status = 0, co_result = 0\<rparr>)"

definition py_factorial :: "'h mmio \<Rightarrow> 'h env \<Rightarrow> int \<Rightarrow> py_device \<Rightarrow> 'h cstate \<Rightarrow> 'h py_result" where
  "py_factorial D E n self s =
     raising ''edu_factorial failed'' (\<lambda>out. PyInt (uint (buf_u32 out)))
       (edu_factorial_c D E (handle_arg self) (c_uint32 n) s)"

definition py_dma_test :: "'h mmio \<Rightarrow> 'h env \<Rightarrow> py_device \<Rightarrow> 'h cstate \<Rightarrow> 'h py_result" where
  "py_dma_test D E self s =
     raising ''edu_dma_test failed'' (\<lambda>_. PyNone) (edu_dma_test_c D E (handle_arg self) s)"

definition py_state :: "'h mmio \<Rightarrow> 'h env \<Rightarrow> py_device \<Rightarrow> 'h cstate \<Rightarrow> 'h py_result" where
  "py_state D E self s =
     raising ''edu_state failed'' (\<lambda>out. PyState (buf_state out)) (edu_state_c D E (handle_arg self) s)"

definition py_submit :: "'h mmio \<Rightarrow> 'h env \<Rightarrow> int \<Rightarrow> int \<Rightarrow> int \<Rightarrow> py_device \<Rightarrow> 'h cstate \<Rightarrow> 'h py_result" where
  "py_submit D E tag opcode operand self s =
     raising (''edu_submit failed (tag='' @ int_str tag @ '')'') (\<lambda>_. PyNone)
       (edu_submit_c D E (handle_arg self) (c_uint16 tag) (c_uint8 opcode) (c_uint32 operand) s)"

definition PY_OP_FACTORIAL :: int where
  "PY_OP_FACTORIAL = 0x01"

definition PY_OP_DMA_TEST :: int where
  "PY_OP_DMA_TEST = 0x02"

definition py_submit_factorial :: "'h mmio \<Rightarrow> 'h env \<Rightarrow> int \<Rightarrow> int \<Rightarrow> py_device \<Rightarrow> 'h cstate \<Rightarrow> 'h py_result" where
  "py_submit_factorial D E tag n self s = py_submit D E tag PY_OP_FACTORIAL n self s"

definition py_submit_dma_test :: "'h mmio \<Rightarrow> 'h env \<Rightarrow> int \<Rightarrow> py_device \<Rightarrow> 'h cstate \<Rightarrow> 'h py_result" where
  "py_submit_dma_test D E tag self s = py_submit D E tag PY_OP_DMA_TEST 0 self s"

definition py_submit_zc :: "'h mmio \<Rightarrow> 'h env \<Rightarrow> int \<Rightarrow> int \<Rightarrow> int \<Rightarrow> py_device \<Rightarrow> 'h cstate \<Rightarrow> 'h py_result" where
  "py_submit_zc D E tag opcode operand self s =
     raising (''edu_submit_zc failed (tag='' @ int_str tag @ '')'') (\<lambda>_. PyNone)
       (edu_submit_zc_c D E (handle_arg self) (c_uint16 tag) (c_uint8 opcode) (c_uint32 operand) s)"

definition py_submit_factorial_zc :: "'h mmio \<Rightarrow> 'h env \<Rightarrow> int \<Rightarrow> int \<Rightarrow> py_device \<Rightarrow> 'h cstate \<Rightarrow> 'h py_result" where
  "py_submit_factorial_zc D E tag n self s = py_submit_zc D E tag PY_OP_FACTORIAL n self s"

definition py_submit_dma_test_zc :: "'h mmio \<Rightarrow> 'h env \<Rightarrow> int \<Rightarrow> py_device \<Rightarrow> 'h cstate \<Rightarrow> 'h py_result" where
  "py_submit_dma_test_zc D E tag self s = py_submit_zc D E tag PY_OP_DMA_TEST 0 self s"

lemma py_opcodes: "c_uint8 PY_OP_FACTORIAL = EDU_OP_FACTORIAL" "c_uint8 PY_OP_DMA_TEST = EDU_OP_DMA_TEST"
  by (simp_all add: c_uint8_def PY_OP_FACTORIAL_def PY_OP_DMA_TEST_def edu_ops)

text \<open>\<open>return c if ret == 0 else None\<close>: an empty queue, a timeout and an error are one value.\<close>

definition or_none :: "'h c_result \<Rightarrow> 'h py_result" where
  "or_none r =
     (case r of None \<Rightarrow> None
      | Some ((ret, out), s) \<Rightarrow> Some (Inr (if ret = 0 then PyCompletion (buf_completion out) else PyNone), s))"

definition py_poll_completion :: "'h mmio \<Rightarrow> 'h env \<Rightarrow> py_device \<Rightarrow> 'h cstate \<Rightarrow> 'h py_result" where
  "py_poll_completion D E self s = or_none (edu_poll_completion_c D E (handle_arg self) s)"

definition py_wait_completion :: "'h mmio \<Rightarrow> 'h env \<Rightarrow> int \<Rightarrow> py_device \<Rightarrow> 'h cstate \<Rightarrow> 'h py_result" where
  "py_wait_completion D E timeout_ms self s =
     or_none (edu_wait_completion_c D E (handle_arg self) (c_int timeout_ms) s)"

definition py_map_rings :: "'h env \<Rightarrow> py_device \<Rightarrow> 'h cstate \<Rightarrow> 'h py_result" where
  "py_map_rings E self s =
     raising ''edu_map_rings failed'' (\<lambda>_. PyNone) (edu_map_rings_c E (handle_arg self) s)"

definition py_unmap_rings :: "py_device \<Rightarrow> 'h cstate \<Rightarrow> 'h py_result" where
  "py_unmap_rings self s = map_option (Pair (Inr PyNone)) (edu_unmap_rings_c (handle_arg self) s)"

section \<open>The body of a \<open>with\<close> statement\<close>

datatype py_call =
    PyFactorial int
  | PyDmaTest
  | PyGetState
  | PySubmit int int int
  | PySubmitFactorial int int
  | PySubmitDmaTest int
  | PySubmitZc int int int
  | PySubmitFactorialZc int int
  | PySubmitDmaTestZc int
  | PyPoll
  | PyWait int
  | PyMap
  | PyUnmap

fun py_do :: "'h mmio \<Rightarrow> 'h env \<Rightarrow> py_call \<Rightarrow> py_device \<Rightarrow> 'h cstate \<Rightarrow> 'h py_result" where
  "py_do D E (PyFactorial n) d s = py_factorial D E n d s"
| "py_do D E PyDmaTest d s = py_dma_test D E d s"
| "py_do D E PyGetState d s = py_state D E d s"
| "py_do D E (PySubmit t opc x) d s = py_submit D E t opc x d s"
| "py_do D E (PySubmitFactorial t n) d s = py_submit_factorial D E t n d s"
| "py_do D E (PySubmitDmaTest t) d s = py_submit_dma_test D E t d s"
| "py_do D E (PySubmitZc t opc x) d s = py_submit_zc D E t opc x d s"
| "py_do D E (PySubmitFactorialZc t n) d s = py_submit_factorial_zc D E t n d s"
| "py_do D E (PySubmitDmaTestZc t) d s = py_submit_dma_test_zc D E t d s"
| "py_do D E PyPoll d s = py_poll_completion D E d s"
| "py_do D E (PyWait ms) d s = py_wait_completion D E ms d s"
| "py_do D E PyMap d s = py_map_rings E d s"
| "py_do D E PyUnmap d s = py_unmap_rings d s"

text \<open>A sequence of calls, each with the answers of the system to it; an exception ends it.\<close>

fun py_run :: "'h mmio \<Rightarrow> ('h env \<times> py_call) list \<Rightarrow> py_device \<Rightarrow> 'h cstate \<Rightarrow> ((py_exn + unit) \<times> 'h cstate) option" where
  "py_run D [] self s = Some (Inr (), s)"
| "py_run D ((E, call) # calls) self s =
     (case py_do D E call self s of
        None \<Rightarrow> None
      | Some (Inl e, s) \<Rightarrow> Some (Inl e, s)
      | Some (Inr _, s) \<Rightarrow> py_run D calls self s)"

text \<open>What \<open>mmap\<close> answers to each call that is made is a new address.\<close>

fun py_fresh :: "'h mmio \<Rightarrow> ('h env \<times> py_call) list \<Rightarrow> py_device \<Rightarrow> 'h cstate \<Rightarrow> bool" where
  "py_fresh D [] self s \<longleftrightarrow> True"
| "py_fresh D ((E, call) # calls) self s \<longleftrightarrow> fresh_mapping E (c_world s) \<and>
     (case py_do D E call self s of Some (Inr _, s) \<Rightarrow> py_fresh D calls self s | _ \<Rightarrow> True)"

text \<open>The timeout of each wait that is made fits in microseconds.\<close>

definition wait_fits :: "py_call \<Rightarrow> bool" where
  "wait_fits call \<longleftrightarrow> (case call of PyWait ms \<Rightarrow> int32 (c_int ms * 1000) | _ \<Rightarrow> True)"

fun py_fits :: "'h mmio \<Rightarrow> ('h env \<times> py_call) list \<Rightarrow> py_device \<Rightarrow> 'h cstate \<Rightarrow> bool" where
  "py_fits D [] self s \<longleftrightarrow> True"
| "py_fits D ((E, call) # calls) self s \<longleftrightarrow> wait_fits call \<and>
     (case py_do D E call self s of Some (Inr _, s) \<Rightarrow> py_fits D calls self s | _ \<Rightarrow> True)"

section \<open>Every method through the C interface\<close>

text \<open>The call of the C interface a method makes; \<open>unmap_rings\<close> has no result and is not among them.\<close>

fun c_call_of :: "py_call \<Rightarrow> c_call option" where
  "c_call_of (PyFactorial n) = Some (CallFactorial (c_uint32 n))"
| "c_call_of PyDmaTest = Some CallDmaTest"
| "c_call_of PyGetState = Some CallState"
| "c_call_of (PySubmit t opc x) = Some (CallSubmit (c_uint16 t) (c_uint8 opc) (c_uint32 x))"
| "c_call_of (PySubmitFactorial t n) = Some (CallSubmit (c_uint16 t) (c_uint8 PY_OP_FACTORIAL) (c_uint32 n))"
| "c_call_of (PySubmitDmaTest t) = Some (CallSubmit (c_uint16 t) (c_uint8 PY_OP_DMA_TEST) 0)"
| "c_call_of (PySubmitZc t opc x) = Some (CallSubmitZc (c_uint16 t) (c_uint8 opc) (c_uint32 x))"
| "c_call_of (PySubmitFactorialZc t n) = Some (CallSubmitZc (c_uint16 t) (c_uint8 PY_OP_FACTORIAL) (c_uint32 n))"
| "c_call_of (PySubmitDmaTestZc t) = Some (CallSubmitZc (c_uint16 t) (c_uint8 PY_OP_DMA_TEST) 0)"
| "c_call_of PyPoll = Some CallPoll"
| "c_call_of (PyWait ms) = Some (CallWait (c_int ms))"
| "c_call_of PyMap = Some CallMap"
| "c_call_of PyUnmap = None"

lemmas py_defs = py_factorial_def py_dma_test_def py_state_def py_submit_def py_submit_factorial_def
  py_submit_dma_test_def py_submit_zc_def py_submit_factorial_zc_def py_submit_dma_test_zc_def
  py_poll_completion_def py_wait_completion_def py_map_rings_def py_unmap_rings_def

lemma raising_state [simp]: "map_option snd (raising msg g r) = map_option snd r"
  by (auto simp: raising_def split: option.splits)

lemma or_none_state [simp]: "map_option snd (or_none r) = map_option snd r"
  by (auto simp: or_none_def split: option.splits)

lemma c_uint32_0 [simp]: "c_uint32 0 = 0"
  by (simp add: c_uint32_def)

lemma py_do_c:
  "c_call_of call = Some c \<Longrightarrow>
    map_option snd (py_do D E call self s) = map_option snd (c_do D E c (handle_arg self) s)"
  by (cases call) (auto simp: py_defs)

lemma c_call_of_none: "c_call_of call = None \<longleftrightarrow> call = PyUnmap"
  by (cases call) auto

text \<open>What a call leaves as it is: every other object, the object's descriptors and the files.\<close>

definition same_fds :: "edu_device \<Rightarrow> edu_device \<Rightarrow> bool" where
  "same_fds d d' \<longleftrightarrow> ud_fd d' = ud_fd d \<and> ud_evtfd d' = ud_evtfd d"

definition only_at :: "nat \<Rightarrow> 'h cstate \<Rightarrow> 'h cstate \<Rightarrow> bool" where
  "only_at h s s' \<longleftrightarrow> (\<exists>d d'. c_objs s h = Some d \<and> c_objs s' = (c_objs s)(h \<mapsto> d') \<and> same_fds d d') \<and>
     w_files (c_world s') = w_files (c_world s)"

lemma only_at_refl: "c_objs s h = Some d \<Longrightarrow> only_at h s s"
  by (auto simp: only_at_def same_fds_def fun_upd_idem intro!: exI[of _ d])

lemma only_at_trans: "only_at h s t \<Longrightarrow> only_at h t u \<Longrightarrow> only_at h s u"
  by (auto simp: only_at_def same_fds_def)

lemma only_at_same:
  "c_objs s h = Some d \<Longrightarrow> same_process (c_world s) w \<Longrightarrow> same_owned d d' \<Longrightarrow>
    only_at h s (s\<lparr>c_objs := (c_objs s)(h \<mapsto> d'), c_world := w\<rparr>)"
  by (auto simp: only_at_def same_fds_def same_process_def same_owned_def)

lemma only_at_errno [simp]: "only_at h s (s'\<lparr>c_errno := e\<rparr>) = only_at h s s'"
  by (simp add: only_at_def)

lemma only_at_world:
  assumes "c_objs s h = Some d" and "same_process (c_world s) w"
  shows "only_at h s (s\<lparr>c_world := w\<rparr>)"
proof -
  have "(c_objs s)(h \<mapsto> d) = c_objs s" using assms(1) by auto
  then show ?thesis using only_at_same[OF assms, of d] by (simp add: same_owned_def)
qed

lemma catch_io_only:
  assumes "catch_io r s = Some (v, s')" and "only_at h t (s\<lparr>c_world := snd r\<rparr>)"
  shows "only_at h t s'"
  using assms only_at_errno[where h = h and s = t and s' = "s\<lparr>c_world := snd r\<rparr>"]
  by (auto simp: catch_io_def simp del: only_at_errno split: prod.splits sum.splits cpp_exn.splits)

lemma completion_out_only:
  assumes "completion_out none r s = Some (v, s')" and "only_at h t (s\<lparr>c_world := snd r\<rparr>)"
  shows "only_at h t s'"
  using assms only_at_errno[where h = h and s = t and s' = "s\<lparr>c_world := snd r\<rparr>"]
  by (auto simp: completion_out_def simp del: only_at_errno split: prod.splits sum.splits cpp_exn.splits option.splits)

lemma submit_only:
  assumes h: "c_objs s h = Some d"
    and frame: "same_process (c_world s) (snd (snd r)) \<and> same_owned d (fst (snd r))"
    and "(case r of
       (Inr _, d, w) \<Rightarrow> Some ((0, OutEmpty), s\<lparr>c_objs := (c_objs s)(h \<mapsto> d), c_world := w\<rparr>)
     | (Inl (RuntimeError what), d, w) \<Rightarrow>
         Some ((-1, OutEmpty), s\<lparr>c_objs := (c_objs s)(h \<mapsto> d), c_world := w, c_errno := f what\<rparr>)
     | (Inl Undefined, _, _) \<Rightarrow> None) = Some (v, s')"
  shows "only_at h s s'"
proof -
  obtain x d' w where r: "r = (x, d', w)" by (cases r)
  have "only_at h s (s\<lparr>c_objs := (c_objs s)(h \<mapsto> d'), c_world := w\<rparr>)"
    using only_at_same[OF h] frame by (simp add: r)
  then show ?thesis
    using assms(3) only_at_errno[where h = h and s = s and s' = "s\<lparr>c_objs := (c_objs s)(h \<mapsto> d'), c_world := w\<rparr>"]
    by (auto simp: r simp del: only_at_errno split: sum.splits cpp_exn.splits)
qed

lemma c_do_only:
  assumes c: "c_do D E call h s = Some (v, s')" and h: "c_objs s h = Some d"
  shows "only_at h s s'"
proof -
  have dev: "as_dev h s = Some d" using h by (simp add: as_dev_def)
  have world: "only_at h s (s\<lparr>c_world := snd (client_do D E opn d (c_world s))\<rparr>)" for opn
    using only_at_world[OF h] client_frame[of "c_world s" D E opn d] by blast
  note frame = client_frame[where w = "c_world s" and D = D and E = E and d = d]
  show ?thesis
  proof (cases call)
    case (CallFactorial n)
    then show ?thesis using c world[of "OpFactorial n"] by (auto simp: edu_factorial_c_def dev elim!: catch_io_only)
  next
    case CallDmaTest
    then show ?thesis using c world[of OpDmaTest] by (auto simp: edu_dma_test_c_def dev elim!: catch_io_only)
  next
    case CallState
    then show ?thesis using c world[of OpState] by (auto simp: edu_state_c_def dev elim!: catch_io_only)
  next
    case (CallSubmit t opc x)
    then show ?thesis using c frame[where opn = "OpSubmit t opc x"] by (auto simp: edu_submit_c_def dev elim!: submit_only[OF h, rotated])
  next
    case (CallSubmitZc t opc x)
    then show ?thesis using c frame[where opn = "OpSubmitZc t opc x"] by (auto simp: edu_submit_zc_c_def dev elim!: submit_only[OF h, rotated])
  next
    case CallPoll
    then show ?thesis using c world[of OpPoll] by (auto simp: edu_poll_completion_c_def dev elim!: completion_out_only)
  next
    case (CallWait ms)
    then show ?thesis using c world[of "OpWait ms"] by (auto simp: edu_wait_completion_c_def dev elim!: completion_out_only)
  next
    case CallMap
    obtain r d' w where m: "ud_map_rings E d (c_world s) = (r, d', w)" by (cases "ud_map_rings E d (c_world s)")
    then have "same_fds d d' \<and> w_files w = w_files (c_world s)"
      by (auto simp: ud_map_rings_def sys_mmap_def same_fds_def split: if_splits option.splits sum.splits os_file.splits)
    then have "only_at h s (s\<lparr>c_objs := (c_objs s)(h \<mapsto> d'), c_world := w\<rparr>)" using h by (auto simp: only_at_def)
    then show ?thesis using c CallMap m by (auto simp: edu_map_rings_c_def dev elim!: catch_io_only)
  qed
qed

lemma py_do_defined:
  assumes r: "reach c_init (c_step D) s" and h: "c_objs s h = Some d" and self: "py_handle self = Some h"
    and fresh: "fresh_mapping E (c_world s)" and ms: "wait_fits call"
  shows "\<exists>v s'. py_do D E call self s = Some (v, s') \<and> reach c_init (c_step D) s' \<and> only_at h s s'"
proof (cases "c_call_of call")
  case None
  then have call: "call = PyUnmap" by (simp add: c_call_of_none)
  obtain d' w where m: "ud_unmap_rings d (c_world s) = (d', w)" by (cases "ud_unmap_rings d (c_world s)")
  let ?s = "s\<lparr>c_objs := (c_objs s)(h \<mapsto> d'), c_world := w\<rparr>"
  have u: "edu_unmap_rings_c h s = Some ?s" using h m by (simp add: edu_unmap_rings_c_def as_dev_def)
  have "same_fds d d' \<and> w_files w = w_files (c_world s)"
    using m by (auto simp: ud_unmap_rings_def sys_munmap_def same_fds_def split: if_splits)
  then have "only_at h s ?s" using h by (auto simp: only_at_def)
  moreover have "reach c_init (c_step D) ?s" using r c_step.unmapped[of s h d ?s D] h u by (blast intro: reach_step)
  ultimately show ?thesis using call u self by (simp add: py_defs handle_arg_def)
next
  case (Some c)
  have ms': "case c of CallWait ms \<Rightarrow> int32 (ms * 1000) | _ \<Rightarrow> True" using ms Some by (cases call) (auto simp: wait_fits_def)
  have "c_do D E c h s \<noteq> None"
    using c_do_answers[OF c_sys.reach_inv[OF r] h fresh ms', of D] by (auto simp: c_answers_def split: option.splits)
  then obtain v s' where c: "c_do D E c h s = Some (v, s')" by auto
  then have "map_option snd (py_do D E call self s) = Some s'"
    using py_do_c[OF Some, of D E self s] self by (simp add: handle_arg_def)
  moreover have "reach c_init (c_step D) s'"
    using r called[where D = D, OF h fresh ms' c] by (rule reach_step)
  ultimately show ?thesis using c_do_only[OF c h] by auto
qed

text \<open>A wait whose microseconds overflow is undefined, and nothing else is.\<close>

lemma py_do_overflow:
  assumes "\<not> wait_fits call" and "c_objs s h = Some d" and "py_handle self = Some h"
  shows "py_do D E call self s = None"
  using assms
  by (cases call) (simp_all add: wait_fits_def py_wait_completion_def edu_wait_completion_c_def as_dev_def handle_arg_def
      ud_wait_completion_def completion_out_def or_none_def)

lemma py_run_outcome:
  assumes "reach c_init (c_step D) s" and "c_objs s h = Some d" and "py_handle self = Some h"
    and "py_fresh D calls self s"
  shows "if py_fits D calls self s
    then \<exists>v s'. py_run D calls self s = Some (v, s') \<and> reach c_init (c_step D) s' \<and> only_at h s s'
    else py_run D calls self s = None"
  using assms(1,2,4)
proof (induction calls arbitrary: s d)
  case Nil
  then show ?case by (auto intro: only_at_refl)
next
  case (Cons c calls)
  obtain E call where c: "c = (E, call)" by (cases c)
  show ?case
  proof (cases "wait_fits call")
    case False
    then show ?thesis using py_do_overflow[OF False Cons.prems(2) assms(3), of D E] by (simp add: c)
  next
    case True
    obtain v t where t: "py_do D E call self s = Some (v, t)" "reach c_init (c_step D) t" "only_at h s t"
      using py_do_defined[OF Cons.prems(1,2) assms(3) _ True, of E] Cons.prems(3) by (auto simp: c)
    show ?thesis
    proof (cases v)
      case (Inl e)
      then show ?thesis using t True by (simp add: c)
    next
      case (Inr y)
      obtain d' where d': "c_objs t h = Some d'" using t(3) by (auto simp: only_at_def)
      have "py_fresh D calls self t" using Cons.prems(3) t(1) Inr by (simp add: c)
      then show ?thesis using Cons.IH[OF t(2) d'] t Inr True only_at_trans[OF t(3)] by (auto simp: c)
    qed
  qed
qed

text \<open>No method works on an object without a handle: each passes the null pointer.\<close>

lemma py_do_closed:
  assumes "c_objs s 0 = None" and "py_handle self = None"
  shows "py_do D E call self s = None"
  using assms
  by (cases call) (simp_all add: py_defs handle_arg_def raising_def or_none_def edu_factorial_c_def edu_dma_test_c_def
      edu_state_c_def edu_poll_completion_c_def edu_wait_completion_c_def edu_submit_c_def edu_submit_zc_c_def
      edu_map_rings_c_def edu_unmap_rings_c_def as_dev_def)

lemma py_close_none [simp]: "py_handle self = None \<Longrightarrow> py_close self s = Some (self, s)"
  by (simp add: py_close_def handle_arg_def)

text \<open>
  What the constructor leaves: an object that owns two new descriptors, or none. When it raises
  nothing is left, unless an object could be allocated and both system calls succeeded: then the file
  is not the driver's, and two descriptors are left open.
\<close>

definition py_left :: "'h env \<Rightarrow> nat option \<Rightarrow> string \<Rightarrow> (int \<Rightarrow> os_file option) \<Rightarrow> (int \<Rightarrow> os_file option) \<Rightarrow> bool" where
  "py_left E alloc path files files' \<longleftrightarrow>
     (case (alloc, en_open E path, en_eventfd E) of
        (Some _, Inr (fd, f), Inr (efd, c)) \<Rightarrow> f \<noteq> FileEdu \<and> files' = files(fd \<mapsto> f, efd \<mapsto> FileEvent c)
      | _ \<Rightarrow> files' = files)"

lemma py_init_outcome:
  assumes i: "py_init D E alloc path s = (v, self, s')" and "alloc \<noteq> Some 0" and fresh: "fresh_answers E path (c_world s)"
  shows "case v of
      Inl e \<Rightarrow> py_handle self = None \<and> c_objs s' = c_objs s \<and> w_maps (c_world s') = w_maps (c_world s) \<and>
        w_bad (c_world s') = w_bad (c_world s) \<and> py_left E alloc path (w_files (c_world s)) (w_files (c_world s'))
    | Inr _ \<Rightarrow> (\<exists>h fd efd c d. alloc = Some h \<and> py_handle self = Some h \<and> c_objs s' = (c_objs s)(h \<mapsto> d) \<and>
        d = ud_empty\<lparr>ud_fd := fd, ud_evtfd := efd\<rparr> \<and> fd \<ge> 0 \<and> efd \<ge> 0 \<and>
        w_files (c_world s) fd = None \<and> w_files (c_world s) efd = None \<and>
        w_files (c_world s') = (w_files (c_world s))(fd \<mapsto> FileEdu, efd \<mapsto> FileEvent c))"
proof (cases alloc)
  case None
  then show ?thesis using i by (auto simp: py_init_def edu_open_c_def py_left_def Let_def)
next
  case (Some h)
  then have h: "h \<noteq> 0" using assms(2) by simp
  obtain r w where con: "ud_construct D E path (c_world s) = (r, w)" by (cases "ud_construct D E path (c_world s)")
  note C = con[unfolded ud_construct_eq[OF fresh]]
  show ?thesis
  proof (cases r)
    case (Inl ex)
    then have "v = Inl (OSError (''edu_open('' @ path @ '') failed''))" "py_handle self = None"
      "s' = s\<lparr>c_world := w, c_errno := ENODEV\<rparr>"
      using i con Some by (auto simp: py_init_def edu_open_c_def Let_def)
    then show ?thesis
      using C Inl Some by (auto simp: py_left_def throw_errno_def env_run_def Let_def split: sum.splits prod.splits if_splits)
  next
    case (Inr d)
    then have v: "v = Inr ()" "py_handle self = Some h" "s' = s\<lparr>c_objs := (c_objs s)(h \<mapsto> d), c_world := w\<rparr>"
      using i con Some h by (auto simp: py_init_def edu_open_c_def Let_def)
    obtain fd efd c where "d = ud_empty\<lparr>ud_fd := fd, ud_evtfd := efd\<rparr>" "fd \<ge> 0" "efd \<ge> 0"
      "w_files (c_world s) fd = None" "w_files (c_world s) efd = None"
      "w_files w = (w_files (c_world s))(fd \<mapsto> FileEdu, efd \<mapsto> FileEvent c)"
      using construct_effect[OF fresh con] Inr by auto
    then show ?thesis unfolding v(1) sum.case using v Some by (intro exI[of _ h] exI[of _ fd] exI[of _ efd] exI[of _ c]) simp
  qed
qed

text \<open>Closing gives back what the object has: its files, and, since what is mapped is mapped by an
  object, its mapping.\<close>

lemma close_files:
  assumes ok: "c_ok s" and h: "c_objs s h = Some d" and c: "edu_close_c h s = Some s'"
  shows "w_files (c_world s') = (\<lambda>fd. if owns d (Descriptor fd) then None else w_files (c_world s) fd)"
proof -
  have "h \<noteq> 0" by (rule c_okD(2)[OF ok h])
  then have "c_world s' = ud_destroy d (c_world s)" using c h by (auto simp: edu_close_c_def as_dev_def)
  then show ?thesis
    using destroy_effect(1)[of d "c_world s"] ownedD(3,6)[OF c_okD(1)[OF ok h], of h d] h by simp
qed

lemma c_ok_maps:
  assumes "c_ok s" and "c_ok s'" and "c_objs s' = c_objs s"
  shows "w_maps (c_world s') = w_maps (c_world s)"
  using ownedD(1)[of "c_proc s" "Mapping p" for p] ownedD(1)[of "c_proc s'" "Mapping p" for p] assms
  by (auto simp: c_ok_def)

lemma close_gives_back:
  assumes ok: "c_ok s" "c_ok s2" and h: "h \<noteq> 0" "c_objs s h = None"
    and d: "ud_fd d \<ge> 0" "ud_evtfd d \<ge> 0" "w_files (c_world s) (ud_fd d) = None" "w_files (c_world s) (ud_evtfd d) = None"
    and s1: "c_objs s1 = (c_objs s)(h \<mapsto> d)" "w_files (c_world s1) = (w_files (c_world s))(ud_fd d \<mapsto> f, ud_evtfd d \<mapsto> f')"
    and only: "only_at h s1 s2"
  shows "\<exists>s3. edu_close_c h s2 = Some s3 \<and> c_ok s3 \<and> c_objs s3 = c_objs s \<and>
    w_files (c_world s3) = w_files (c_world s) \<and> w_maps (c_world s3) = w_maps (c_world s) \<and> w_bad (c_world s3) = 0"
proof -
  obtain d2 where d2: "c_objs s2 = (c_objs s)(h \<mapsto> d2)" "same_fds d d2" "w_files (c_world s2) = w_files (c_world s1)"
    using only s1(1) by (auto simp: only_at_def)
  then have at: "c_objs s2 h = Some d2" by simp
  obtain s3 where s3: "edu_close_c h s2 = Some s3" using at h by (simp add: edu_close_c_def as_dev_def)
  have ok3: "c_ok s3" by (rule c_ok_close[OF ok(2) s3])
  have objs: "c_objs s3 = c_objs s" using s3 d2(1) h by (auto simp: edu_close_c_def as_dev_def fun_eq_iff)
  have "w_files (c_world s3) = w_files (c_world s)"
    using close_files[OF ok(2) at s3] d d2(2,3) s1(2) by (auto simp: same_fds_def fun_eq_iff)
  moreover have "w_bad (c_world s3) = 0" using ok3 ownedD(5)[of "c_proc s3"] by (simp add: c_ok_def)
  ultimately show ?thesis using s3 ok3 objs c_ok_maps[OF ok(1) ok3 objs] by blast
qed

section \<open>Claims\<close>

text \<open>C21. A \<open>with\<close> statement of the Python class. When the constructor raises, no object of the C
  interface exists that did not before, the destructor of the half-made object does nothing, and the
  process holds what it held, with one exception: if the file at the path is not the driver's and the
  eventfd was made, exactly these two descriptors stay open. Otherwise a sequence of method calls,
  for all integers, is defined and ends normally or with \<open>OSError\<close>, unless it gets to a wait whose
  timeout in microseconds overflows an \<open>int\<close>, which is undefined. Leaving the block then closes the
  device and gives back exactly the objects, descriptors and mappings there were before, a later
  \<open>close\<close> or destructor does nothing, and every method called after it passes the null pointer, which
  C++ leaves undefined.\<close>

theorem python_with_block:
  assumes r: "reach c_init (c_step D) s"
    and alloc: "case alloc of None \<Rightarrow> True | Some a \<Rightarrow> a \<noteq> 0 \<and> c_objs s a = None"
    and fresh: "\<And>p. fresh_answers E p (c_world s)"
    and i: "py_init D E alloc path s = (v, self, s1)"
    and maps: "py_fresh D calls self s1"
  shows "case v of
      Inl e \<Rightarrow> c_objs s1 = c_objs s \<and> py_del self s1 = Some (self, s1) \<and>
        w_maps (c_world s1) = w_maps (c_world s) \<and> w_bad (c_world s1) = 0 \<and>
        py_left E alloc path (w_files (c_world s)) (w_files (c_world s1))
    | Inr _ \<Rightarrow> if py_fits D calls self s1
        then (\<exists>out s2 self' s3.
          py_run D calls self s1 = Some (out, s2) \<and> py_exit self s2 = Some (self', s3) \<and>
          c_objs s3 = c_objs s \<and> w_files (c_world s3) = w_files (c_world s) \<and>
          w_maps (c_world s3) = w_maps (c_world s) \<and> w_bad (c_world s3) = 0 \<and>
          py_del self' s3 = Some (self', s3) \<and> (\<forall>E call. py_do D E call self' s3 = None))
        else py_run D calls self s1 = None"
proof -
  have a0: "alloc \<noteq> Some 0" using alloc by auto
  have ok0: "c_ok s" by (rule c_sys.reach_inv[OF r])
  note I = py_init_outcome[OF i a0 fresh]
  show ?thesis
  proof (cases v)
    case (Inl e)
    have "w_bad (c_world s) = 0" using ok0 ownedD(5)[of "c_proc s"] by (simp add: c_ok_def)
    then show ?thesis using I Inl by (simp add: py_del_def)
  next
    case (Inr u)
    obtain h d c where h: "alloc = Some h" "py_handle self = Some h" "c_objs s1 = (c_objs s)(h \<mapsto> d)"
      and d: "ud_fd d \<ge> 0" "ud_evtfd d \<ge> 0" "w_files (c_world s) (ud_fd d) = None" "w_files (c_world s) (ud_evtfd d) = None"
      and f1: "w_files (c_world s1) = (w_files (c_world s))(ud_fd d \<mapsto> FileEdu, ud_evtfd d \<mapsto> FileEvent c)"
      using I Inr by auto
    then have h0: "h \<noteq> 0" "c_objs s h = None" "c_objs s1 h = Some d" using alloc by auto
    obtain a where "edu_open_c D E alloc (Some path) s = (a, s1)"
      using i by (auto simp: py_init_def Let_def split: prod.splits if_splits)
    then have "reach c_init (c_step D) s1"
      using r opened[OF alloc fresh, of D "Some path"] by (blast intro: reach_step)
    note run = py_run_outcome[OF this h0(3) h(2) maps]
    show ?thesis
    proof (cases "py_fits D calls self s1")
      case False
      then show ?thesis using run Inr by simp
    next
      case True
      then obtain out s2 where s2: "py_run D calls self s1 = Some (out, s2)" "reach c_init (c_step D) s2" "only_at h s1 s2"
        using run by auto
      from close_gives_back[OF ok0 c_sys.reach_inv[OF s2(2)] h0(1,2) d h(3) f1 s2(3)]
      obtain s3 where s3: "edu_close_c h s2 = Some s3" "c_ok s3" "c_objs s3 = c_objs s" "w_bad (c_world s3) = 0"
        "w_files (c_world s3) = w_files (c_world s)" "w_maps (c_world s3) = w_maps (c_world s)" by blast
      moreover have "py_do D E call (self\<lparr>py_handle := None\<rparr>) s3 = None" for E call
        using s3(2) by (intro py_do_closed) (simp_all add: c_ok_def)
      ultimately show ?thesis using Inr s2(1) h(2) h0 True
        by (auto simp: py_exit_def py_del_def py_close_def handle_arg_def)
    qed
  qed
qed

definition wit_before :: "access list cstate" where
  "wit_before = \<lparr>c_objs = (\<lambda>_. None), c_world = world wit_process, c_errno = EIO\<rparr>"

theorem python_with_block_witness:
  "\<exists>self s1 out s2 self' s3.
    py_init (log_mmio (\<lambda>_. 1)) wit_env_open (Some 1) ''/dev/edu_pci'' wit_before = (Inr (), self, s1) \<and>
    py_run (log_mmio (\<lambda>_. 1)) [(wit_env_open, PySubmit 65541 0x7F (-1))] self s1 = Some (out, s2) \<and>
    py_exit self s2 = Some (self', s3) \<and> c_objs s3 = (\<lambda>_. None) \<and> w_files (c_world s3) = (\<lambda>_. None) \<and>
    py_del self' s3 = Some (self', s3) \<and> py_do (log_mmio (\<lambda>_. 1)) wit_env_open PyPoll self' s3 = None"
proof -
  let ?D = "log_mmio (\<lambda>_. 1)"
  have r: "reach c_init (c_step ?D) wit_before"
    by (rule reach_init) (simp add: c_init_def process_init_def wit_process_def wit_before_def)
  obtain v self s1 where i: "py_init ?D wit_env_open (Some 1) ''/dev/edu_pci'' wit_before = (v, self, s1)"
    by (metis prod.collapse)
  have i1: "v = Inr () \<and> w_maps (c_world s1) = {}"
    using i by (auto simp: py_init_def wit_before_def edu_open_c_def ud_construct_def sys_open_def sys_eventfd_def
      ud_register_eventfd_def sys_ioctl_def wit_env_open_def wit_process_def env_run_def edu_ioctl_eventfd
      eventfd_fdget_def edu_set_eventfd_def ud_empty_def user_of_def Let_def)
  have "fresh_mapping wit_env_open (c_world s1)" using i1 by (simp add: fresh_mapping_def wit_env_open_def)
  then have maps: "py_fresh ?D [(wit_env_open, PySubmit 65541 0x7F (-1))] self s1"
    by (simp del: py_do.simps split: option.split sum.split)
  have fits: "py_fits ?D [(wit_env_open, PySubmit 65541 0x7F (-1))] self s1"
    by (simp add: wait_fits_def del: py_do.simps split: option.split sum.split)
  have fresh: "fresh_answers wit_env_open p (c_world wit_before)" for p
    by (simp add: fresh_answers_def wit_env_open_def wit_process_def wit_before_def)
  show ?thesis
    using python_with_block[OF r _ fresh i maps] i i1 fits
    by (simp add: wit_before_def wit_process_def del: py_do.simps py_run.simps py_fits.simps) metis
qed

end
