(* ===== verification/Spec2Isabelle.thy ===== *)
theory Spec2Isabelle
  imports Edu_System Proto_Claims Qemu_Device User_Claims User_Objects User_Edu_C
    User_Demo_Claims User_Demo_Owns User_Proto_Claims Base_System Abi_Claims
    Edu_Module Proto_Module Binding User_Python
begin

text \<open>
  Verification of \<open>pcie-driver\<close>: four Linux PCI drivers, a QEMU device model and the C and C++ clients
  of the drivers, with the Python class over the C interface.

  The program. \<open>pcie_prototype_async/kernel/edu_pci.c\<close> drives QEMU's EDU device: userspace submits
  commands into a submission queue and takes completions out of a completion queue, both in one
  coherent slab that it may also map; the interrupt handler posts the completions and signals an
  eventfd; two older ioctls run a factorial and a DMA test and block for the same interrupt; sysfs,
  debugfs, probe and remove complete it. Its client is the class \<open>EduDevice\<close>
  (\<open>pcie_prototype_async/userspace/edu_device.cpp\<close>), which owns the descriptors and the mapping, with a
  C interface (\<open>edu_device_c.cpp\<close>), a Python class over that (\<open>python/edu_device.py\<close>) and a demo
  program (\<open>demo.cpp\<close>). The three \<open>proto_pcie\<close> drivers
  (\<open>pcie_prototype\<close>, \<open>pcie_prototype_sim\<close>, \<open>pcie_prototype_ring\<close>) share one register map: the first only
  talks to hardware, the second can simulate it, the third adds a command ring and a completion ring
  to the simulation; each has a library and a demo under \<open>userspace\<close>.
  \<open>pcie_prototype_async/qemu/proto_pcie_device.c\<close> is the device for that register map.

  Layers.
  \<^item> \<open>Pcie_Prelude\<close>: integer types, error codes, byte stores, the MMIO interface (the device behind a
    BAR is a parameter), ioctl numbers, reachability and the locale \<open>inductive_invariant\<close>.
    \<open>Fifo_Ring\<close>: the slots of a ring as a list and the locale \<open>bounded_fifo\<close>. \<open>Resources\<close>: logs of
    acquired and released resources. \<open>Char_Dev\<close>: the tables a PCI driver with a character device hands
    to the kernel, the kernel's use of them between loading and unloading as a step relation, and the
    locale \<open>char_driver\<close> of what a driver has to keep so that no operation runs on a structure that is
    gone. \<open>User_Base\<close>: exceptions and printed lines of the C++ programs.
  \<^item> The EDU driver: \<open>Edu_Layout\<close> (constants, indices, slab layout), \<open>Edu_State\<close> (\<open>struct edu_dev\<close> and
    the ring invariant), \<open>Edu_Ring\<close> (\<open>edu_ring_submit\<close>, \<open>edu_poll_cq\<close>, \<open>edu_open\<close>; the completion
    queue interprets \<open>bounded_fifo\<close>), \<open>Edu_Irq\<close> (\<open>edu_irq_handler\<close>), \<open>Edu_Spec\<close> (the abstract contract of
    the rings and the refinement of each operation), \<open>Edu_Files\<close> (sysfs, debugfs, poll, mmap),
    \<open>Edu_Events\<close> (interleavings; \<open>inductive_invariant\<close> is interpreted there), \<open>Edu_Legacy\<close> (the
    blocking ioctls), \<open>Edu_Ioctl\<close> (\<open>edu_ioctl\<close>), \<open>Edu_Probe\<close> (\<open>edu_probe\<close>, \<open>edu_remove\<close>),
    \<open>Edu_Module\<close> (\<open>edu_fops\<close>, \<open>edu_tbl\<close>, \<open>edu_driver\<close>; interprets \<open>char_driver\<close>).
  \<^item> Its properties: \<open>Edu_Claims\<close> (the rings over every interleaving, capacity), \<open>Edu_Runs\<close> (round trip,
    draining, counters), \<open>Edu_Hazards\<close> (which command a completion is reported for), \<open>Edu_Blocking\<close>
    (the blocking ioctls), \<open>Edu_System\<close> (eventfd, slab, dispatcher, probe and remove).
  \<^item> Its client: \<open>User_Edu\<close> (the process, the system calls and the class), \<open>User_Calls\<close> (what the class's
    calls do with a working descriptor), \<open>User_Claims\<close> (round trip, waiting, zero-copy submission,
    constructor), \<open>User_Objects\<close> (ownership of descriptors and mappings over every sequence of
    constructions, moves and calls; interprets \<open>inductive_invariant\<close>), \<open>User_Edu_C\<close> (the C interface and
    its \<open>inductive_invariant\<close>), \<open>User_Demo\<close>, \<open>User_Demo_Claims\<close> and \<open>User_Demo_Owns\<close> (the demo: what it
    prints when it is answered, what it gives back whatever happens), \<open>User_Python\<close> (the Python class
    over the C interface).
  \<^item> The \<open>proto_pcie\<close> drivers: \<open>Proto_Base\<close>, \<open>Proto_Sim\<close>, \<open>Proto_Ring\<close>, one for each source file, as
    records that extend each other; \<open>Ring_Queue\<close> (the rings as queues, their invariant), \<open>Ring_Claims\<close>
    and \<open>Proto_Claims\<close> (properties). \<open>Qemu_Device\<close>: the device model, the locale \<open>proto_device\<close> of what
    the basic driver relies on, its interpretation, and the driver on the device. \<open>User_Proto\<close> and
    \<open>User_Proto_Claims\<close>: the three libraries and their demos on the drivers; \<open>Base_System\<close>: the basic demo,
    library, driver and device model together. \<open>Proto_Module\<close>: their open functions and tables, and the
    interpretations of \<open>char_driver\<close> for the simulated and the ring driver on hardware.
  \<^item> \<open>Abi\<close> and \<open>Abi_Claims\<close>: the headers of both sides of each interface as data, the layout of their
    structures (for 64-bit and 32-bit callers), the encoding of their ioctl numbers and the functions of the C
    interface as C and Python declare them, and their agreement with each other and with the models. \<open>Binding\<close>: the register maps of the drivers and the device model,
    the identifiers the device model announces and the drivers match, and the path of the fault knob.

  Correspondence. A C structure is a record with the fields that carry state; pointers into the slab are
  offsets into its bytes. A function that returns 0 or a negative errno returns \<open>errno + unit\<close>
  and the new state; a C++ function that may throw returns \<open>cpp_exn + 'a\<close>, where
  \<open>Undefined\<close> marks an overflow of \<open>int\<close> or an access to memory that is not mapped.
  A critical section of the ring lock, an unlocked group of register writes, an interrupt, each of the two
  steps that replace the eventfd and each other operation of a file are atomic events; \<open>edu_events\<close> runs a
  sequence of them, \<open>SET_EVENTFD\<close> takes as an argument what happens between its steps, and the blocking ioctls take
  as arguments the events that happen before and while they wait, so a wait never runs out of fuel: a timeout
  is a window in which no interrupt with a status comes. The loops of the code (the slot scan, the checksum,
  the draining of the command ring, the polling of \<open>wait_completion\<close>) are functions with a
  termination measure. What the kernel and the caller's memory answer (allocation, registration,
  \<open>copy_from_user\<close>, \<open>eventfd_ctx_fdget\<close>, \<open>kstrtouint\<close>,
  \<open>remap_pfn_range\<close>) are arguments of the definitions. Indices, counters, lengths and sequence
  numbers are words of their width.

  A client runs in a \<open>world\<close>: the driver's device, the open descriptors, the mappings, and a
  count of calls on descriptors or mappings that are not open. Each call of the client has an environment
  \<open>env\<close> with the kernel's choices (the numbers and errors of \<open>open\<close>,
  \<open>eventfd\<close> and \<open>mmap\<close>), the events of other contexts before the call, during a
  blocking ioctl and during each sleep of a wait; its ioctls are those of \<open>edu_ioctl\<close>. A program
  is a function of such environments to its exit code, the lines it prints and the world it leaves;
  \<open>None\<close> is undefined behaviour. The descriptors of the C interface live behind handles, and an
  exception it does not catch, or an invalid handle, is \<open>None\<close> as well.

  What is shown. The rings of the EDU driver implement an abstract contract over every interleaving in which
  stores into the slab stay out of the entries in use, never overwrite an unread completion, and each
  completion leaves the queue once and in order, returned by a poll or discarded by an open; the counters, the eventfd
  references while registrations do not overlap, the driver's writes into the slab and the resources of probe
  and remove are accounted for. In every order of loading,
  probing, opening, calling, closing and unloading no operation runs on a freed structure, unless the device is
  taken away under an open file, which does leave such operations behind. A command submitted through
  the class comes back with its result through every layer; objects own their descriptors and mappings, all but
  those a constructor leaves open that throws on a file of somebody else; the C
  interface returns typed values or the errno values of its header, and the Python class on it gives its
  object, descriptors and mapping back at the end of each \<open>with\<close> statement; the demo prints what it should when
  it is answered and, on the driver's file, leaks nothing when it is not. The ring driver completes batches in order with consistent
  indices and sequence numbers, a payload sent through its library arrives, and its demo's output follows; on
  hardware the three \<open>proto_pcie\<close> drivers, and their libraries, are one. Each driver answers exactly
  the numbers its client's header computes, and the headers of both sides agree. The remaining properties state behaviour that differs from what the code means to do: which
  commands are completed for others, lost and overwritten commands, lost interrupts, leaked descriptors, a
  teardown with the wrong size, and the device's handling of the interrupt line and of its timer. Facts of
  that kind that are not in the list of properties are lemmas beside them, such as
  \<open>interrupt_serves_both\<close> or \<open>poll_fault_loses_completion\<close>.

  Not modelled. The memory model below the ring lock, the scheduling of the handler against a single unlocked
  statement other than those named in the properties, the text of log messages and module metadata. The
  basic driver's file ends inside \<open>proto_fops\<close>, so it has no probe or remove. A module of a simulated
  device, which has no PCI device to take away, is modelled up to \<open>proto_init\<close> and \<open>proto_exit\<close>; the
  files of its node are not. The clock readings and rates the demo's throughput
  section prints, and failures of allocation in the C++ code, are left out. The constructor of
  \<open>EduDevice\<close> passes a \<open>std::string\<close> where a pointer is expected, which no compiler
  takes: the model is what it means. Of the Python side, loading the shared library and the tests and the
  benchmark are left out, as are the build files. EDU's own behaviour is a parameter: the properties hold for every device, and those about a
  result speak of the register's value.
\<close>

end
